theory Spec2Isabelle
  imports Complex_Main "HOL-Library.Word" "HOL-Library.AList"
begin

unbundle bit_operations_syntax

section \<open>JavaScript strings\<close>

text \<open>
  A JavaScript string is the list of its UTF-16 code units, so \<open>charCodeAt\<close> is the
  unsigned value of an element and \<open>length\<close> is the length of the list. Literals of the
  source are written \<open>js ''...''\<close>.
\<close>

type_synonym char16 = "16 word"
type_synonym jsstring = "char16 list"

definition js :: "string \<Rightarrow> jsstring" where
  "js s = map of_char s"

definition charCode :: "char16 \<Rightarrow> int" where
  "charCode c = uint c"

text \<open>\<open>Number.prototype.toString()\<close> of a non-negative integer.\<close>

fun toString10 :: "nat \<Rightarrow> jsstring" where
  "toString10 n =
     (if n < 10 then [of_nat (48 + n)] else toString10 (n div 10) @ [of_nat (48 + n mod 10)])"

declare toString10.simps [simp del]

section \<open>GraphEngine.getColor (src/webview/graph/GraphEngine.ts)\<close>

text \<open>
  \<^verbatim>\<open>
  private getColor(str: string): string {
      let hash = 0;
      for (let i = 0; i < str.length; i++) {
          hash = str.charCodeAt(i) + ((hash << 5) - hash);
      }
      const c = (hash & 0x00FFFFFF).toString(16).toUpperCase();
      return '#' + '00000'.substring(0, 6 - c.length) + c;
  }
  \<close>
  \<open>hash\<close> is a JavaScript number. \<open><<\<close> and \<open>&\<close> first convert their left operand to a
  signed 32-bit integer (\<open>toInt32\<close>, the value modulo \<open>2^32\<close>), while \<open>-\<close> and \<open>+\<close> are
  ordinary additions of numbers and do not wrap: the number is modelled as an \<open>int\<close>,
  which is exact as long as it stays below \<open>2^53\<close> in absolute value (strings of up to
  about two million code units).
\<close>

definition toInt32 :: "int \<Rightarrow> 32 word" where
  "toInt32 h = word_of_int h"

definition shiftLeft :: "int \<Rightarrow> nat \<Rightarrow> int" where
  "shiftLeft h k = sint (push_bit (k mod 32) (toInt32 h))"

definition hashStep :: "int \<Rightarrow> char16 \<Rightarrow> int" where
  "hashStep hash c = charCode c + (shiftLeft hash 5 - hash)"

definition hashLoop :: "jsstring \<Rightarrow> int" where
  "hashLoop str = foldl hashStep 0 str"

definition bitAnd24 :: "int \<Rightarrow> nat" where
  "bitAnd24 hash = unat (toInt32 hash AND 0x00FFFFFF)"

definition hexDigit :: "nat \<Rightarrow> char16" where
  "hexDigit d = js ''0123456789abcdef'' ! (d mod 16)"

text \<open>\<open>Number.prototype.toString(16)\<close> of a non-negative integer: no leading zeros.\<close>

fun toString16 :: "nat \<Rightarrow> jsstring" where
  "toString16 n = (if n < 16 then [hexDigit n] else toString16 (n div 16) @ [hexDigit n])"

declare toString16.simps [simp del]

text \<open>
  \<open>String.prototype.toUpperCase\<close> on the code units \<open>a\<close>..\<open>z\<close>; it is applied to the
  output of \<open>toString16\<close> only, whose code units are \<open>0\<close>..\<open>9\<close> and \<open>a\<close>..\<open>f\<close>.
\<close>

definition toUpperCase :: "jsstring \<Rightarrow> jsstring" where
  "toUpperCase s = map (\<lambda>c. if 97 \<le> c \<and> c \<le> 122 then c - 32 else c) s"

text \<open>\<open>s.substring(0, e)\<close> where a negative \<open>e\<close> counts as 0.\<close>

definition substring0 :: "jsstring \<Rightarrow> int \<Rightarrow> jsstring" where
  "substring0 s e = take (nat e) s"

definition colorOfHash :: "int \<Rightarrow> jsstring" where
  "colorOfHash hash =
     (let c = toUpperCase (toString16 (bitAnd24 hash))
      in js ''#'' @ substring0 (js ''00000'') (6 - int (length c)) @ c)"

definition getColor :: "jsstring \<Rightarrow> jsstring" where
  "getColor str = colorOfHash (hashLoop str)"

definition isUpperHexDigit :: "char16 \<Rightarrow> bool" where
  "isUpperHexDigit c = (c \<in> set (js ''0123456789ABCDEF''))"

section \<open>JavaScript objects used as dictionaries\<close>

text \<open>
  \<open>const clusterMap: Record<string, ...> = {}\<close> is a plain object. Its own properties
  are kept in creation order (an association list); assigning to an existing key keeps
  its place. A read \<open>clusterMap[dir]\<close> also finds the properties inherited from
  \<open>Object.prototype\<close>, all of which are functions or objects and so truthy.
\<close>

type_synonym 'v jsobject = "(jsstring \<times> 'v) list"

definition objectPrototypeKeys :: "jsstring list" where
  "objectPrototypeKeys = map js
     [''constructor'', ''__defineGetter__'', ''__defineSetter__'', ''hasOwnProperty'',
      ''__lookupGetter__'', ''__lookupSetter__'', ''isPrototypeOf'',
      ''propertyIsEnumerable'', ''toString'', ''valueOf'', ''__proto__'',
      ''toLocaleString'']"

text \<open>
  \<open>Object.entries\<close> lists the own properties: first the keys that are array indices
  (canonical decimal numerals below \<open>2^32 - 1\<close>) in ascending numeric order, then the
  other keys in creation order.
\<close>

definition isDigit :: "char16 \<Rightarrow> bool" where
  "isDigit c = (48 \<le> c \<and> c \<le> 57)"

definition decimalValue :: "jsstring \<Rightarrow> nat" where
  "decimalValue k = foldl (\<lambda>a c. 10 * a + (unat c - 48)) 0 k"

definition isArrayIndex :: "jsstring \<Rightarrow> bool" where
  "isArrayIndex k =
     (k \<noteq> [] \<and> list_all isDigit k \<and> (length k = 1 \<or> hd k \<noteq> 48)
      \<and> decimalValue k < 4294967295)"

definition objectEntries :: "'v jsobject \<Rightarrow> (jsstring \<times> 'v) list" where
  "objectEntries obj =
     sort_key (\<lambda>p. decimalValue (fst p)) (filter (\<lambda>p. isArrayIndex (fst p)) obj)
     @ filter (\<lambda>p. \<not> isArrayIndex (fst p)) obj"

section \<open>Regular expressions (src/utils/parser/RegexParser.ts)\<close>

text \<open>
  The regular expressions of \<open>RegexParser\<close> are built from single code units, sequence,
  alternation, the greedy and the lazy star, capture groups and \<open>^\<close>. \<open>matches r s st\<close>
  lists the ways \<open>r\<close> can match in \<open>s\<close> from the position of \<open>st\<close>, in the order in which
  a backtracking matcher tries them, each with the position after the match and the
  captures. An iteration of a star that consumes nothing is not continued, as in
  ECMAScript.
\<close>

datatype regex =
  Eps
  | Chr "char16 \<Rightarrow> bool"
  | Bol
  | Seq regex regex
  | Alt regex regex
  | Star regex
  | Lazy regex
  | Group nat regex

type_synonym captures = "(nat \<times> jsstring) list"
type_synonym mstate = "nat \<times> captures"

function matches :: "regex \<Rightarrow> jsstring \<Rightarrow> mstate \<Rightarrow> mstate list" where
  "matches Eps s st = [st]"
| "matches (Chr P) s st =
     (if fst st < length s \<and> P (s ! fst st) then [(Suc (fst st), snd st)] else [])"
| "matches Bol s st = (if fst st = 0 then [st] else [])"
| "matches (Seq a b) s st = concat (map (matches b s) (matches a s st))"
| "matches (Alt a b) s st = matches a s st @ matches b s st"
| "matches (Star a) s st =
     concat (map (\<lambda>st'. if fst st < fst st' \<and> fst st' \<le> length s
                         then matches (Star a) s st' else [])
                 (matches a s st))
     @ [st]"
| "matches (Lazy a) s st =
     st # concat (map (\<lambda>st'. if fst st < fst st' \<and> fst st' \<le> length s
                              then matches (Lazy a) s st' else [])
                      (matches a s st))"
| "matches (Group n a) s st =
     map (\<lambda>st'. (fst st', (n, take (fst st' - fst st) (drop (fst st) s)) # snd st'))
       (matches a s st)"
  by pat_completeness auto
termination
  by (relation "measures [\<lambda>(r, s, st). size r, \<lambda>(r, s, st). length s - fst st]") auto

declare matches.simps(6,7) [simp del]

text \<open>
  \<open>regex.exec(s)\<close> with \<open>lastIndex = i\<close>: the first match at the leftmost position from
  \<open>i\<close> on, as (start, (end, captures)); \<open>None\<close> for \<open>null\<close>.
\<close>

function execFrom :: "regex \<Rightarrow> jsstring \<Rightarrow> nat \<Rightarrow> (nat \<times> mstate) option" where
  "execFrom r s i =
     (if length s < i then None
      else case matches r s (i, []) of
             [] \<Rightarrow> execFrom r s (Suc i)
           | m # ms \<Rightarrow> Some (i, m))"
  by pat_completeness auto
termination
  by (relation "measure (\<lambda>(r, s, i). Suc (length s) - i)") auto

declare execFrom.simps [simp del]

text \<open>
  \<open>while ((match = regex.exec(content)) !== null) { ... }\<close> with the \<open>g\<close> flag: the list
  of the captures of the successive matches. \<open>exec\<close> leaves \<open>lastIndex\<close> at the end of the
  match, so after an empty match the same match is found again and the loop does not end:
  \<open>None\<close>.
\<close>

function execAll :: "regex \<Rightarrow> jsstring \<Rightarrow> nat \<Rightarrow> captures list option" where
  "execAll r s lastIndex =
     (case execFrom r s lastIndex of
        None \<Rightarrow> Some []
      | Some (start, m) \<Rightarrow>
          if fst m \<le> start then None
          else map_option ((#) (snd m)) (execAll r s (fst m)))"
  by pat_completeness auto
termination
proof (relation "measure (\<lambda>(r, s, i). Suc (length s) - i)", goal_cases)
  case 1
  show ?case by simp
next
  case (2 r s lastIndex x2 start m)
  have "execFrom r s i = Some (start, m) \<Longrightarrow> i \<le> start \<and> start \<le> length s" for i
  proof (induction r s i rule: execFrom.induct)
    case (1 r s i)
    show ?case
    proof (cases "matches r s (i, [])")
      case Nil
      then show ?thesis
        using "1.prems" "1.IH" by (subst (asm) execFrom.simps) (auto split: if_splits)
    next
      case (Cons a list)
      then show ?thesis
        using "1.prems" by (subst (asm) execFrom.simps) (auto split: if_splits)
    qed
  qed
  then have "lastIndex \<le> start \<and> start \<le> length s" using 2 by simp
  then show ?case using 2 by auto
qed

declare execAll.simps [simp del]


subsection \<open>The regular expressions of the source\<close>

definition isSpace :: "char16 \<Rightarrow> bool" where
  "isSpace c =
     (c = 9 \<or> c = 10 \<or> c = 11 \<or> c = 12 \<or> c = 13 \<or> c = 32 \<or> c = 0xA0 \<or> c = 0x1680
      \<or> (0x2000 \<le> c \<and> c \<le> 0x200A) \<or> c = 0x2028 \<or> c = 0x2029 \<or> c = 0x202F
      \<or> c = 0x205F \<or> c = 0x3000 \<or> c = 0xFEFF)"

definition isLineTerminator :: "char16 \<Rightarrow> bool" where
  "isLineTerminator c = (c = 10 \<or> c = 13 \<or> c = 0x2028 \<or> c = 0x2029)"

definition isWord :: "char16 \<Rightarrow> bool" where
  "isWord c = ((48 \<le> c \<and> c \<le> 57) \<or> (65 \<le> c \<and> c \<le> 90) \<or> c = 95 \<or> (97 \<le> c \<and> c \<le> 122))"

definition seqs :: "regex list \<Rightarrow> regex" where
  "seqs rs = foldr Seq rs Eps"

definition lit :: "string \<Rightarrow> regex" where
  "lit s = seqs (map (\<lambda>c. Chr (\<lambda>x. x = of_char c)) s)"

definition plus :: "regex \<Rightarrow> regex" where
  "plus r = Seq r (Star r)"

text \<open>\<open>\s\<close>, \<open>.\<close>, \<open>[\s\S]\<close>, \<open>['"]\<close>, \<open>"\<close> and \<open>[\w.]\<close>.\<close>

definition ws :: regex where "ws = Chr isSpace"
definition dot :: regex where "dot = Chr (\<lambda>c. \<not> isLineTerminator c)"
definition anyUnit :: regex where "anyUnit = Chr (\<lambda>c. isSpace c \<or> \<not> isSpace c)"
definition anyQuote :: regex where "anyQuote = Chr (\<lambda>c. c = 39 \<or> c = 34)"
definition dquote :: regex where "dquote = Chr (\<lambda>c. c = 34)"
definition wordOrDot :: regex where "wordOrDot = Chr (\<lambda>c. isWord c \<or> c = 46)"

text \<open>\<open>/from\s+['"](.*?)['"]/g\<close>\<close>

definition fromRegex :: regex where
  "fromRegex = seqs [lit ''from'', plus ws, anyQuote, Group 1 (Lazy dot), anyQuote]"

text \<open>\<open>/(?:^|\s)(?:from|import)\s+([\w.]+)/g\<close>\<close>

definition pythonRegex :: regex where
  "pythonRegex =
     seqs [Alt Bol ws, Alt (lit ''from'') (lit ''import''), plus ws, Group 1 (plus wordOrDot)]"

text \<open>\<open>/import\s+"(.*?)"|import\s+\(\s*([\s\S]*?)\s*\)/g\<close> (in the table, never used)\<close>

definition goTableRegex :: regex where
  "goTableRegex =
     Alt (seqs [lit ''import'', plus ws, dquote, Group 1 (Lazy dot), dquote])
         (seqs [lit ''import'', plus ws, Chr (\<lambda>c. c = 40), Star ws, Group 2 (Lazy anyUnit),
                Star ws, Chr (\<lambda>c. c = 41)])"

text \<open>\<open>/import\s+([\w.]+);/g\<close>\<close>

definition javaRegex :: regex where
  "javaRegex = seqs [lit ''import'', plus ws, Group 1 (plus wordOrDot), Chr (\<lambda>c. c = 59)]"

text \<open>\<open>/#include\s+["<](.*?)[">]/g\<close>\<close>

definition includeRegex :: regex where
  "includeRegex =
     seqs [lit ''#include'', plus ws, Chr (\<lambda>c. c = 34 \<or> c = 60), Group 1 (Lazy dot),
           Chr (\<lambda>c. c = 34 \<or> c = 62)]"

text \<open>\<open>/require\(['"](.*?)['"]\)/g\<close>\<close>

definition requireRegex :: regex where
  "requireRegex =
     seqs [lit ''require'', Chr (\<lambda>c. c = 40), anyQuote, Group 1 (Lazy dot), anyQuote,
           Chr (\<lambda>c. c = 41)]"

text \<open>\<open>/import\s+"(.*?)"/g\<close>, \<open>/import\s+\(([\s\S]*?)\)/g\<close> and \<open>/"(.*?)"/\<close>\<close>

definition singleLine :: regex where
  "singleLine = seqs [lit ''import'', plus ws, dquote, Group 1 (Lazy dot), dquote]"

definition blockRegex :: regex where
  "blockRegex =
     seqs [lit ''import'', plus ws, Chr (\<lambda>c. c = 40), Group 1 (Lazy anyUnit), Chr (\<lambda>c. c = 41)]"

definition quoteRegex :: regex where
  "quoteRegex = seqs [dquote, Group 1 (Lazy dot), dquote]"

definition regexes :: "(jsstring \<times> regex) list" where
  "regexes =
     [(js ''typescript'', fromRegex), (js ''typescriptreact'', fromRegex),
      (js ''javascript'', fromRegex), (js ''javascriptreact'', fromRegex),
      (js ''python'', pythonRegex), (js ''go'', goTableRegex), (js ''java'', javaRegex),
      (js ''cpp'', includeRegex), (js ''c'', includeRegex)]"

subsection \<open>RegexParser.parseImports\<close>

text \<open>
  \<open>imports\<close> is a \<open>Set<string>\<close>: its elements in insertion order, each once.
  \<open>split\<close> is \<open>String.prototype.split\<close> with a one-unit separator.
\<close>

definition setAdd :: "jsstring list \<Rightarrow> jsstring \<Rightarrow> jsstring list" where
  "setAdd imports v = (if v \<in> set imports then imports else imports @ [v])"

fun split :: "char16 \<Rightarrow> jsstring \<Rightarrow> jsstring list" where
  "split sep [] = [[]]"
| "split sep (c # cs) =
     (if c = sep then [] # split sep cs
      else case split sep cs of
             [] \<Rightarrow> [[c]]
           | part # parts \<Rightarrow> (c # part) # parts)"

datatype jserror = TypeError | ReadError

text \<open>\<open>match[1]\<close>: the text of group 1, \<open>None\<close> for \<open>undefined\<close>.\<close>

definition group1 :: "captures \<Rightarrow> jsstring option" where
  "group1 caps = map_of caps 1"

text \<open>
  The Go branch.
  \<^verbatim>\<open>
  while ((match = singleLine.exec(content)) !== null) { imports.add(match[1]); }
  while ((match = blockRegex.exec(content)) !== null) {
      const blockContent = match[1];
      const lines = blockContent.split('\n');
      for (const line of lines) {
          const lineMatch = /"(.+?)"/.exec(lines[0]);
          const quoteMatch = /"(.*?)"/.exec(line);
          if (quoteMatch) { imports.add(quoteMatch[1]); }
      }
  }
  \<close>
  Group 1 takes part in every match of these three expressions, so \<open>match[1]\<close> is a
  string; \<open>lineMatch\<close> is not used and its \<open>exec\<close> (no \<open>g\<close> flag) has no effect.
\<close>

definition addGroup1 :: "jsstring list \<Rightarrow> captures \<Rightarrow> jsstring list" where
  "addGroup1 imports caps = (case group1 caps of None \<Rightarrow> imports | Some v \<Rightarrow> setAdd imports v)"

definition addQuoted :: "jsstring list \<Rightarrow> jsstring \<Rightarrow> jsstring list" where
  "addQuoted imports line =
     (case execFrom quoteRegex line 0 of
        None \<Rightarrow> imports
      | Some quoteMatch \<Rightarrow> addGroup1 imports (snd (snd quoteMatch)))"

definition addBlock :: "jsstring list \<Rightarrow> captures \<Rightarrow> jsstring list" where
  "addBlock imports caps =
     (case group1 caps of
        None \<Rightarrow> imports
      | Some blockContent \<Rightarrow> foldl addQuoted imports (split 10 blockContent))"

text \<open>\<open>if (match[1]) imports.add(match[1])\<close>: only a non-empty string is added.\<close>

definition addTruthyGroup1 :: "jsstring list \<Rightarrow> captures \<Rightarrow> jsstring list" where
  "addTruthyGroup1 imports caps =
     (case group1 caps of
        None \<Rightarrow> imports
      | Some v \<Rightarrow> if v = [] then imports else setAdd imports v)"

text \<open>
  \<open>regexes[languageId]\<close> reads a plain object: a language id that names a property of
  \<open>Object.prototype\<close> gives that inherited value, which is truthy and has no \<open>exec\<close>, so
  the call \<open>regex.exec(content)\<close> throws a \<open>TypeError\<close>. The result is \<open>None\<close> when a
  loop does not end, \<open>Some (Inl e)\<close> when the promise is rejected with \<open>e\<close>, and
  \<open>Some (Inr imports)\<close> for \<open>Array.from(imports)\<close>.
\<close>

definition parseImports :: "jsstring \<Rightarrow> jsstring \<Rightarrow> (jserror + jsstring list) option" where
  "parseImports content languageId =
     (if languageId = js ''go'' then
        (case execAll singleLine content 0 of
           None \<Rightarrow> None
         | Some singles \<Rightarrow>
             (case execAll blockRegex content 0 of
                None \<Rightarrow> None
              | Some blocks \<Rightarrow>
                  Some (Inr (foldl addBlock (foldl addGroup1 [] singles) blocks))))
      else
        (case (case map_of regexes languageId of
                 Some regex \<Rightarrow> map_option (\<lambda>ms. Inr (foldl addTruthyGroup1 [] ms))
                                 (execAll regex content 0)
               | None \<Rightarrow> if languageId \<in> set objectPrototypeKeys then Some (Inl TypeError)
                          else Some (Inr [])) of
           None \<Rightarrow> None
         | Some (Inl e) \<Rightarrow> Some (Inl e)
         | Some (Inr imports) \<Rightarrow>
             if languageId \<in> set (map js [''javascript'', ''typescript'', ''javascriptreact'',
                                          ''typescriptreact''])
             then map_option (\<lambda>ms. Inr (foldl addTruthyGroup1 imports ms))
                    (execAll requireRegex content 0)
             else Some (Inr imports)))"

section \<open>DependencyService (src/services/DependencyService.ts)\<close>

text \<open>
  What the service gets from Node and from the host is a parameter: the functions of
  \<open>path\<close>, \<open>String.prototype.toLowerCase\<close>, the file system as \<open>fs.existsSync\<close> and
  \<open>fs.lstatSync\<close> see it (\<open>lstatSync\<close> is called on existing paths only), the file
  contents (\<open>None\<close> when \<open>fs.promises.readFile\<close> rejects) and \<open>config.languageMapping\<close>.
\<close>

datatype fstype = File | Directory | Other

record env =
  path_join :: "jsstring list \<Rightarrow> jsstring"
  path_resolve :: "jsstring list \<Rightarrow> jsstring"
  path_dirname :: "jsstring \<Rightarrow> jsstring"
  path_basename :: "jsstring \<Rightarrow> jsstring"
  path_extname :: "jsstring \<Rightarrow> jsstring"
  path_relative :: "jsstring \<Rightarrow> jsstring \<Rightarrow> jsstring"
  path_sep :: jsstring
  toLowerCase :: "jsstring \<Rightarrow> jsstring"
  existsSync :: "jsstring \<Rightarrow> bool"
  lstatSync :: "jsstring \<Rightarrow> fstype"
  readFile :: "jsstring \<Rightarrow> jsstring option"
  languageMapping :: "jsstring \<Rightarrow> jsstring option"

subsection \<open>resolveImport\<close>

text \<open>
  Every call of \<open>fs.existsSync\<close> and \<open>fs.lstatSync\<close> is recorded: a function that probes
  the file system returns its result together with the calls it made, in order.
  \<open>hits\<close> is the array of the source paired with the calls made so far.
\<close>

datatype fsop = ExistsSync jsstring | LstatSync jsstring

type_synonym hits = "jsstring list \<times> fsop list"

text \<open>\<open>fs.existsSync(p) && fs.lstatSync(p).isFile()\<close> and the same with \<open>isDirectory()\<close>.\<close>

definition isFileAt :: "env \<Rightarrow> jsstring \<Rightarrow> bool \<times> fsop list" where
  "isFileAt E p =
     (if existsSync E p then (lstatSync E p = File, [ExistsSync p, LstatSync p])
      else (False, [ExistsSync p]))"

definition isDirectoryAt :: "env \<Rightarrow> jsstring \<Rightarrow> bool \<times> fsop list" where
  "isDirectoryAt E p =
     (if existsSync E p then (lstatSync E p = Directory, [ExistsSync p, LstatSync p])
      else (False, [ExistsSync p]))"

definition extensions :: "jsstring list" where
  "extensions = map js [''.ts'', ''.tsx'', ''.js'', ''.jsx'', ''.py'', ''.go'', ''.java'',
                        ''/index.ts'', ''/index.js'', ''/index.tsx'']"

definition checkFileExt :: "env \<Rightarrow> jsstring \<Rightarrow> hits \<Rightarrow> jsstring \<Rightarrow> hits" where
  "checkFileExt E candidate results ext =
     (let withExt = candidate @ ext;
          probe = isFileAt E withExt
      in (if fst probe then fst results @ [withExt] else fst results, snd results @ snd probe))"

definition checkFile :: "env \<Rightarrow> jsstring \<Rightarrow> hits" where
  "checkFile E candidate =
     (let probe = isFileAt E candidate
      in foldl (checkFileExt E candidate)
           (if fst probe then [candidate] else [], snd probe) extensions)"

definition checkDir :: "env \<Rightarrow> jsstring list \<Rightarrow> jsstring \<Rightarrow> hits" where
  "checkDir E allFiles candidate =
     (let probe = isDirectoryAt E candidate
      in (if fst probe then filter (\<lambda>f. path_dirname E f = candidate) allFiles else [],
          snd probe))"

text \<open>\<open>hits.push(...found)\<close>, where computing \<open>found\<close> made the calls \<open>snd found\<close>.\<close>

definition pushAll :: "hits \<Rightarrow> hits \<Rightarrow> hits" where
  "pushAll hits found = (fst hits @ fst found, snd hits @ snd found)"

text \<open>\<open>parts.join(sep)\<close> and \<open>s.startsWith(p)\<close>.\<close>

fun joinWith :: "jsstring \<Rightarrow> jsstring list \<Rightarrow> jsstring" where
  "joinWith sep [] = []"
| "joinWith sep [part] = part"
| "joinWith sep (part # parts) = part @ sep @ joinWith sep parts"

definition startsWith :: "jsstring \<Rightarrow> jsstring \<Rightarrow> bool" where
  "startsWith s p = (take (length p) s = p)"

text \<open>
  The loop of the fuzzy match, on \<open>parts.slice(i)\<close>:
  \<^verbatim>\<open>
  for (let i = 0; i < parts.length; i++) {
      const suffix = parts.slice(i).join(path.sep);
      if (!suffix) continue;
      const candidateFuzzy = path.join(rootPath, suffix);
      if (fs.existsSync(candidateFuzzy)) {
          if (fs.lstatSync(candidateFuzzy).isDirectory()) {
              hits.push(...checkDir(candidateFuzzy));
          } else if (fs.lstatSync(candidateFuzzy).isFile()) {
              hits.push(candidateFuzzy);
          }
      }
      if (hits.length > 0) break;
  }
  \<close>
\<close>

definition fuzzyProbe :: "env \<Rightarrow> jsstring list \<Rightarrow> jsstring \<Rightarrow> hits" where
  "fuzzyProbe E allFiles candidateFuzzy =
     (if existsSync E candidateFuzzy then
        if lstatSync E candidateFuzzy = Directory then
          pushAll ([], [ExistsSync candidateFuzzy, LstatSync candidateFuzzy])
            (checkDir E allFiles candidateFuzzy)
        else if lstatSync E candidateFuzzy = File then
          ([candidateFuzzy],
           [ExistsSync candidateFuzzy, LstatSync candidateFuzzy, LstatSync candidateFuzzy])
        else
          ([], [ExistsSync candidateFuzzy, LstatSync candidateFuzzy, LstatSync candidateFuzzy])
      else ([], [ExistsSync candidateFuzzy]))"

fun fuzzyLoop :: "env \<Rightarrow> jsstring \<Rightarrow> jsstring list \<Rightarrow> jsstring list \<Rightarrow> hits \<Rightarrow> hits" where
  "fuzzyLoop E rootPath allFiles [] hits = hits"
| "fuzzyLoop E rootPath allFiles (part # parts) hits =
     (let suffix = joinWith (path_sep E) (part # parts) in
      if suffix = [] then fuzzyLoop E rootPath allFiles parts hits
      else
        let candidateFuzzy = path_join E [rootPath, suffix];
            hits1 = pushAll hits (fuzzyProbe E allFiles candidateFuzzy)
        in if 0 < length (fst hits1) then hits1
           else fuzzyLoop E rootPath allFiles parts hits1)"

definition resolveImport ::
  "env \<Rightarrow> jsstring \<Rightarrow> jsstring \<Rightarrow> jsstring \<Rightarrow> jsstring list \<Rightarrow> hits" where
  "resolveImport E importPath sourceFile rootPath allFiles =
     (let hits = ([], []) in
      if startsWith importPath (js ''.'') then
        let absolutePath = path_resolve E [path_dirname E sourceFile, importPath];
            hits1 = pushAll hits (checkFile E absolutePath)
        in if length (fst hits1) = 0 then pushAll hits1 (checkDir E allFiles absolutePath)
           else hits1
      else
        let candidateRoot = path_join E [rootPath, importPath];
            hits1 = pushAll hits (checkFile E candidateRoot);
            hits2 = (if length (fst hits1) = 0
                     then pushAll hits1 (checkDir E allFiles candidateRoot) else hits1);
            hits3 = (if length (fst hits2) = 0 then
                       let candidateSrc = path_join E [rootPath, js ''src'', importPath];
                           hitsB = pushAll hits2 (checkFile E candidateSrc)
                       in if length (fst hitsB) = 0
                          then pushAll hitsB (checkDir E allFiles candidateSrc) else hitsB
                     else hits2)
        in if length (fst hits3) = 0
           then fuzzyLoop E rootPath allFiles (split 47 importPath) hits3
           else hits3)"

text \<open>The three strategies on their own, to state the order in which they are tried.\<close>

definition probeAt :: "env \<Rightarrow> jsstring list \<Rightarrow> jsstring \<Rightarrow> hits" where
  "probeAt E allFiles candidate =
     (let found = checkFile E candidate
      in if fst found = [] then pushAll found (checkDir E allFiles candidate) else found)"

definition rootRelative :: "env \<Rightarrow> jsstring \<Rightarrow> jsstring \<Rightarrow> jsstring list \<Rightarrow> hits" where
  "rootRelative E importPath rootPath allFiles =
     probeAt E allFiles (path_join E [rootPath, importPath])"

definition srcRelative :: "env \<Rightarrow> jsstring \<Rightarrow> jsstring \<Rightarrow> jsstring list \<Rightarrow> hits" where
  "srcRelative E importPath rootPath allFiles =
     probeAt E allFiles (path_join E [rootPath, js ''src'', importPath])"

definition fuzzySuffix :: "env \<Rightarrow> jsstring \<Rightarrow> jsstring \<Rightarrow> jsstring list \<Rightarrow> hits" where
  "fuzzySuffix E importPath rootPath allFiles =
     fuzzyLoop E rootPath allFiles (split 47 importPath) ([], [])"

definition fsopPath :: "fsop \<Rightarrow> jsstring" where
  "fsopPath c = (case c of ExistsSync p \<Rightarrow> p | LstatSync p \<Rightarrow> p)"

subsection \<open>generate\<close>

text \<open>
  \<open>files\<close> is the list of the \<open>fsPath\<close> of the workspace files and \<open>rootDir\<close> the path of
  the first workspace folder (or \<open>''\<close>). The callbacks of \<open>files.map(async ...)\<close> run
  interleaved at their \<open>await\<close>s; each one reads \<open>fileToNodeId\<close> (complete before the
  first starts) and appends its own edges, so the edge list is an interleaving of the
  lists of the files: the model appends them in the order of the files.
\<close>

record NodeData =
  nd_label :: jsstring
  nd_fullPath :: jsstring
  nd_directory :: jsstring

record Node =
  node_id :: jsstring
  node_position :: "int \<times> int"
  node_data :: NodeData

record Edge =
  edge_id :: jsstring
  edge_source :: jsstring
  edge_target :: jsstring

record Graph =
  g_nodes :: "Node list"
  g_edges :: "Edge list"
  g_errors :: "(jsstring \<times> jserror) list"

type_synonym nodeState = "Node list \<times> (jsstring \<times> jsstring) list \<times> nat"

definition addFileNode :: "env \<Rightarrow> jsstring \<Rightarrow> nodeState \<Rightarrow> jsstring \<Rightarrow> nodeState" where
  "addFileNode E rootDir st file =
     (let nodes = fst st; fileToNodeId = fst (snd st); nodeIdCounter = snd (snd st);
          i = toString10 nodeIdCounter;
          relativePath = path_relative E rootDir file;
          directory = path_dirname E relativePath
      in (nodes @ [\<lparr>node_id = i, node_position = (0, 0),
                    node_data = \<lparr>nd_label = path_basename E file, nd_fullPath = file,
                                 nd_directory = (if directory = js ''.'' then js ''root''
                                                 else directory)\<rparr>\<rparr>],
          AList.update file i fileToNodeId,
          Suc nodeIdCounter))"

definition supportedLanguages :: "jsstring list" where
  "supportedLanguages =
     map js [''typescript'', ''typescriptreact'', ''javascript'', ''javascriptreact'',
             ''python'', ''go'', ''java'']"

definition languageOf :: "env \<Rightarrow> jsstring \<Rightarrow> jsstring option" where
  "languageOf E file =
     (let ext = toLowerCase E (path_extname E file);
          languageId = map_option (toLowerCase E) (languageMapping E ext);
          languageId1 = (if languageId = Some (js ''c++'') then Some (js ''cpp'') else languageId);
          languageId2 = (if ext = js ''.tsx'' then Some (js ''typescriptreact'') else languageId1)
      in if ext = js ''.jsx'' then Some (js ''javascriptreact'') else languageId2)"

definition edgeTo :: "(jsstring \<times> jsstring) list \<Rightarrow> jsstring \<Rightarrow> jsstring \<Rightarrow> Edge list" where
  "edgeTo fileToNodeId sourceId resolvedPath =
     (case map_of fileToNodeId resolvedPath of
        None \<Rightarrow> []
      | Some targetId \<Rightarrow>
          if sourceId \<noteq> targetId
          then [\<lparr>edge_id = js ''e'' @ sourceId @ js ''-'' @ targetId,
                 edge_source = sourceId, edge_target = targetId\<rparr>]
          else [])"

definition importEdges ::
  "env \<Rightarrow> jsstring \<Rightarrow> jsstring list \<Rightarrow> (jsstring \<times> jsstring) list \<Rightarrow> jsstring \<Rightarrow> jsstring
   \<Rightarrow> jsstring \<Rightarrow> Edge list" where
  "importEdges E rootDir files fileToNodeId file sourceId importPath =
     concat (map (edgeTo fileToNodeId sourceId)
                 (fst (resolveImport E importPath file rootDir files)))"

text \<open>
  The callback for one file: its edges and its entry of \<open>errors\<close>, \<open>None\<close> when
  \<open>parseImports\<close> does not return. \<open>lang\<close> is \<open>languageId || ''\<close>, which is \<open>languageId!\<close>
  once it has passed the test against the list.
\<close>

definition fileEdges ::
  "env \<Rightarrow> jsstring \<Rightarrow> jsstring list \<Rightarrow> (jsstring \<times> jsstring) list \<Rightarrow> jsstring
   \<Rightarrow> (Edge list \<times> (jsstring \<times> jserror) list) option" where
  "fileEdges E rootDir files fileToNodeId file =
     (let lang = (case languageOf E file of None \<Rightarrow> [] | Some l \<Rightarrow> l) in
      if lang \<notin> set supportedLanguages then Some ([], [])
      else
        case readFile E file of
          None \<Rightarrow> Some ([], [(path_basename E file, ReadError)])
        | Some content \<Rightarrow>
            (case parseImports content lang of
               None \<Rightarrow> None
             | Some (Inl e) \<Rightarrow> Some ([], [(path_basename E file, e)])
             | Some (Inr imports) \<Rightarrow>
                 (case map_of fileToNodeId file of
                    None \<Rightarrow> Some ([], [])
                  | Some sourceId \<Rightarrow>
                      if sourceId = [] then Some ([], [])
                      else Some (concat (map (importEdges E rootDir files fileToNodeId file
                                                 sourceId) imports), []))))"

definition generate :: "env \<Rightarrow> jsstring \<Rightarrow> jsstring list \<Rightarrow> Graph option" where
  "generate E rootDir files =
     (let st = foldl (addFileNode E rootDir) ([], [], 0) files;
          nodes = fst st;
          fileToNodeId = fst (snd st)
      in case those (map (fileEdges E rootDir files fileToNodeId) files) of
           None \<Rightarrow> None
         | Some results \<Rightarrow>
             Some \<lparr>g_nodes = nodes, g_edges = concat (map fst results),
                   g_errors = concat (map snd results)\<rparr>)"


section \<open>Layout.GraphNode and HullGenerator (src/webview/graph)\<close>

text \<open>
  A JavaScript number is modelled as a real number (rounding, \<open>NaN\<close> and the infinities
  are not modelled); an optional field \<open>x?: number\<close> is an \<open>option\<close>, and
  \<open>fx?: number | null\<close> has the three states of \<open>pinned\<close>. \<open>lastClick\<close> is the
  \<open>_lastClick\<close> property that \<open>Renderer.createNodeSprite\<close> stores on the node.
\<close>

datatype pinned = Undefined | Null | Number real

record GraphNode =
  gn_id :: jsstring
  gn_label :: jsstring
  gn_directory :: jsstring
  gn_description :: "jsstring option"
  gn_fullPath :: "jsstring option"
  gn_x :: "real option"
  gn_y :: "real option"
  gn_fx :: pinned
  gn_fy :: pinned
  gn_lastClick :: "int option"

datatype hullType = Plate | Landmass

type_synonym point = "real \<times> real"

record Hull =
  hull_id :: jsstring
  hull_path :: "point list"
  hull_color :: jsstring
  hull_type :: hullType

record cluster =
  cl_x :: real
  cl_y :: real
  cl_count :: nat

record Landforms =
  lf_landmass :: "Hull option"
  lf_plates :: "Hull list"

text \<open>
  The two functions of the d3 libraries that \<open>computeLandforms\<close> calls are parameters:
  \<open>cellPolygon bounds points i\<close> is
  \<open>Delaunay.from(points).voronoi(bounds).cellPolygon(i)\<close> (\<open>None\<close> for \<open>null\<close>), and
  \<open>polygonHull points\<close> is d3-polygon's \<open>polygonHull\<close>.
\<close>

record d3 =
  cellPolygon :: "real \<times> real \<times> real \<times> real \<Rightarrow> point list \<Rightarrow> nat \<Rightarrow> point list option"
  polygonHull :: "point list \<Rightarrow> point list option"

text \<open>\<open>node.x || 0\<close> and \<open>node.directory || 'root'\<close>.\<close>

definition orZero :: "real option \<Rightarrow> real" where
  "orZero v = (case v of None \<Rightarrow> 0 | Some r \<Rightarrow> r)"

definition dirKey :: "GraphNode \<Rightarrow> jsstring" where
  "dirKey node = (if gn_directory node = [] then js ''root'' else gn_directory node)"

text \<open>
  The body of the first \<open>nodes.forEach\<close>:
  \<^verbatim>\<open>
  const dir = node.directory || 'root';
  if (!clusterMap[dir]) clusterMap[dir] = { x: 0, y: 0, count: 0 };
  clusterMap[dir].x += node.x || 0;
  clusterMap[dir].y += node.y || 0;
  clusterMap[dir].count++;
  \<close>
  When \<open>dir\<close> names a property of \<open>Object.prototype\<close>, \<open>clusterMap[dir]\<close> is that inherited
  value: no own property is created and the three updates change the inherited object,
  not \<open>clusterMap\<close>.
\<close>

definition addToCluster :: "cluster jsobject \<Rightarrow> GraphNode \<Rightarrow> cluster jsobject" where
  "addToCluster clusterMap node =
     (let dir = dirKey node in
      if dir \<in> set objectPrototypeKeys then clusterMap
      else
        let created = (if map_of clusterMap dir = None
                       then AList.update dir \<lparr>cl_x = 0, cl_y = 0, cl_count = 0\<rparr> clusterMap
                       else clusterMap)
        in AList.map_entry dir
             (\<lambda>c. c\<lparr>cl_x := cl_x c + orZero (gn_x node),
                    cl_y := cl_y c + orZero (gn_y node),
                    cl_count := cl_count c + 1\<rparr>) created)"

definition clusterMapOf :: "GraphNode list \<Rightarrow> cluster jsobject" where
  "clusterMapOf nodes = foldl addToCluster [] nodes"

definition centroids :: "GraphNode list \<Rightarrow> (jsstring \<times> real \<times> real) list" where
  "centroids nodes =
     map (\<lambda>(dir, d). (dir, cl_x d / real (cl_count d), cl_y d / real (cl_count d)))
       (objectEntries (clusterMapOf nodes))"

definition voronoiBounds :: "real \<times> real \<times> real \<times> real" where
  "voronoiBounds = (-2000, -2000, 4000, 4000)"

definition plateOf ::
  "d3 \<Rightarrow> (jsstring \<Rightarrow> jsstring) \<Rightarrow> point list \<Rightarrow> nat \<times> (jsstring \<times> real \<times> real) \<Rightarrow> Hull option" where
  "plateOf D colorFn points ic =
     (case cellPolygon D voronoiBounds points (fst ic) of
        None \<Rightarrow> None
      | Some cell \<Rightarrow>
          Some \<lparr>hull_id = fst (snd ic), hull_path = cell,
                hull_color = colorFn (fst (snd ic)), hull_type = Plate\<rparr>)"

definition paddedCorners :: "GraphNode \<Rightarrow> point list" where
  "paddedCorners n =
     (let pad = 80 in
      [(orZero (gn_x n) - pad, orZero (gn_y n) - pad),
       (orZero (gn_x n) + pad, orZero (gn_y n) - pad),
       (orZero (gn_x n) + pad, orZero (gn_y n) + pad),
       (orZero (gn_x n) - pad, orZero (gn_y n) + pad)])"

definition computeLandforms ::
  "d3 \<Rightarrow> GraphNode list \<Rightarrow> (jsstring \<Rightarrow> jsstring) \<Rightarrow> Landforms" where
  "computeLandforms D nodes colorFn =
     (if length nodes < 3 then \<lparr>lf_landmass = None, lf_plates = []\<rparr>
      else
        let cs = centroids nodes;
            points = map (\<lambda>c. (fst (snd c), snd (snd c))) cs;
            ps = List.map_filter (plateOf D colorFn points) (enumerate 0 cs);
            allPoints = concat (map paddedCorners nodes);
            land = (case polygonHull D allPoints of
                      None \<Rightarrow> None
                    | Some landPoly \<Rightarrow>
                        Some \<lparr>hull_id = js ''global_landmass'', hull_path = landPoly,
                              hull_color = js ''#111111'', hull_type = Landmass\<rparr>)
        in \<lparr>lf_landmass = land, lf_plates = ps\<rparr>)"

text \<open>Names used to state the properties of \<open>computeLandforms\<close>.\<close>

definition members :: "jsstring \<Rightarrow> GraphNode list \<Rightarrow> GraphNode list" where
  "members k nodes = filter (\<lambda>n. dirKey n = k) nodes"

definition accumulate :: "cluster \<Rightarrow> GraphNode list \<Rightarrow> cluster" where
  "accumulate c ms =
     \<lparr>cl_x = cl_x c + sum_list (map (\<lambda>n. orZero (gn_x n)) ms),
      cl_y = cl_y c + sum_list (map (\<lambda>n. orZero (gn_y n)) ms),
      cl_count = cl_count c + length ms\<rparr>"

definition clusterOr0 :: "cluster option \<Rightarrow> cluster" where
  "clusterOr0 v = (case v of None \<Rightarrow> \<lparr>cl_x = 0, cl_y = 0, cl_count = 0\<rparr> | Some c \<Rightarrow> c)"

definition centroidOf :: "jsstring \<Rightarrow> GraphNode list \<Rightarrow> real \<times> real" where
  "centroidOf k nodes =
     (sum_list (map (\<lambda>n. orZero (gn_x n)) (members k nodes)) / real (length (members k nodes)),
      sum_list (map (\<lambda>n. orZero (gn_y n)) (members k nodes)) / real (length (members k nodes)))"

definition centroidPoints :: "GraphNode list \<Rightarrow> point list" where
  "centroidPoints nodes = map (\<lambda>c. (fst (snd c), snd (snd c))) (centroids nodes)"

section \<open>Layout (drag interaction)\<close>

text \<open>
  Nodes are objects shared between the layout, the links and the sprites of the
  renderer: a node is a reference into a store, and a method that assigns to a field of
  a node updates the store at that reference. \<open>Simulation\<close> holds the part of the d3
  simulation that \<open>Layout\<close> sets: \<open>alphaTarget\<close> and whether the timer runs.
  \<open>d3.forceLink().links\<close> has replaced the ids in every link by the node objects when
  \<open>setData\<close> returns, so a link holds two references.
\<close>

type_synonym ref = nat
type_synonym heap = "ref \<Rightarrow> GraphNode"

record Simulation =
  sim_alpha :: real
  sim_alphaTarget :: real
  sim_running :: bool

record GraphLink =
  link_source :: ref
  link_target :: ref

record Layout =
  lay_simulation :: "Simulation option"
  lay_nodes :: "ref list"
  lay_links :: "GraphLink list"

text \<open>
  \<^verbatim>\<open>
  public dragStart() {
      if (!this.simulation) return;
      this.simulation.alphaTarget(0.3).restart();
  }
  public dragMove(node: GraphNode, x: number, y: number) {
      node.fx = x;
      node.fy = y;
  }
  public dragEnd(node: GraphNode) {
      if (!this.simulation) return;
      this.simulation.alphaTarget(0);
      node.fx = null;
      node.fy = null;
  }
  \<close>
\<close>

definition dragStart :: "Layout \<Rightarrow> Layout" where
  "dragStart l =
     (case lay_simulation l of
        None \<Rightarrow> l
      | Some s \<Rightarrow> l\<lparr>lay_simulation := Some (s\<lparr>sim_alphaTarget := 0.3, sim_running := True\<rparr>)\<rparr>)"

definition dragMove :: "ref \<Rightarrow> real \<Rightarrow> real \<Rightarrow> heap \<Rightarrow> heap" where
  "dragMove node x y h =
     (let h1 = h(node := (h node)\<lparr>gn_fx := Number x\<rparr>)
      in h1(node := (h1 node)\<lparr>gn_fy := Number y\<rparr>))"

definition dragEnd :: "Layout \<Rightarrow> ref \<Rightarrow> heap \<Rightarrow> Layout \<times> heap" where
  "dragEnd l node h =
     (case lay_simulation l of
        None \<Rightarrow> (l, h)
      | Some s \<Rightarrow>
          (let l1 = l\<lparr>lay_simulation := Some (s\<lparr>sim_alphaTarget := 0\<rparr>)\<rparr>;
               h1 = h(node := (h node)\<lparr>gn_fx := Null\<rparr>);
               h2 = h1(node := (h1 node)\<lparr>gn_fy := Null\<rparr>)
           in (l1, h2)))"

text \<open>The constructor: \<open>forceSimulation()...stop()\<close>, no nodes, no links.\<close>

definition newLayout :: Layout where
  "newLayout =
     \<lparr>lay_simulation = Some \<lparr>sim_alpha = 1, sim_alphaTarget = 0, sim_running = False\<rparr>,
      lay_nodes = [], lay_links = []\<rparr>"

section \<open>Renderer, InputManager and GraphEngine (src/webview/graph)\<close>

text \<open>
  The state holds the fields that the click, drag and selection handlers read or write.
  Field \<open>f\<close> of the renderer is \<open>rd_f\<close>, of the engine \<open>ge_f\<close>. What is drawn (PIXI
  graphics, styles, the camera animation frames) and the zoom bound that \<open>update\<close>
  recomputes for the wheel handler are not part of the state.
  \<^item> A node sprite is the container \<open>createNodeSprite\<close> builds, with the closure of its
    handlers: the node object it holds, its variable \<open>isDragging\<close>, and how many times
    \<open>onMove\<close> is registered on the container for \<open>globalpointermove\<close> and \<open>onUp\<close> for
    \<open>pointerup\<close> and for \<open>pointerupoutside\<close>. A PIXI container is an event emitter of the
    \<open>eventemitter3\<close> package: \<open>on\<close> adds a registration, also of a function that is
    registered already; \<open>off\<close> removes every registration of the function; and an emit
    calls, in order, the registrations that are there when it starts. The \<open>pointerdown\<close>
    handler is registered once, when the sprite is built. \<open>rd_nodesMap\<close> is \<open>nodesMap\<close>.
  \<^item> A plate shape is the \<open>PIXI.Graphics\<close> that \<open>render\<close> builds for a plate, with the
    variable \<open>lastClickTime\<close> of its \<open>pointerdown\<close> closure. \<open>render\<close> removes the
    shapes of the previous call and builds new ones; \<open>ps_ref\<close> tells the objects apart.
  \<^item> \<open>rd_stageDownPos\<close> and \<open>rd_lastStageClickTime\<close> are the variables of the closure
    that \<open>init\<close> installs on the stage.
  \<^item> \<open>rd_lookAt\<close> is the target of the last \<open>smoothLookAt\<close> call.
  \<^item> \<open>ge_reported\<close> lists the calls of \<open>callbacks.onClickNode\<close>, \<open>onClickHull\<close> and
    \<open>onClickBackground\<close> in order, and \<open>ge_notices\<close> the calls of \<open>onSelectionChange\<close>.
\<close>

datatype theme = LIGHT | DARK

record Sprite =
  sp_node :: ref
  sp_isDragging :: bool
  sp_globalpointermove :: nat
  sp_pointerup :: nat
  sp_pointerupoutside :: nat

record PlateShape =
  ps_ref :: nat
  ps_plate :: Hull
  ps_lastClickTime :: int

record Renderer =
  rd_currentTheme :: theme
  rd_nodesMap :: "(jsstring \<times> Sprite) list"
  rd_plateShapes :: "PlateShape list"
  rd_nextShape :: nat
  rd_selectedNodeId :: "jsstring option"
  rd_selectedClusterId :: "jsstring option"
  rd_highlightNeighbors :: "jsstring set"
  rd_stageDownPos :: "point option"
  rd_lastStageClickTime :: int
  rd_lookAt :: "(real option \<times> real option \<times> real) option"

record InputManager =
  im_isPanEnabled :: bool
  im_isDragging :: bool

datatype click = ClickNode jsstring nat | ClickHull jsstring nat | ClickBackground nat

datatype selectionData =
  NodeData jsstring jsstring "jsstring option" "jsstring option"
  | ClusterData jsstring jsstring jsstring

record GraphEngine =
  ge_layout :: Layout
  ge_renderer :: Renderer
  ge_inputManager :: InputManager
  ge_isRunning :: bool
  ge_selectedNodeId :: "jsstring option"
  ge_onSelectionChange :: bool
  ge_heap :: heap
  ge_reported :: "click list"
  ge_notices :: "selectionData option list"

subsection \<open>Renderer\<close>

definition newRenderer :: Renderer where
  "newRenderer =
     \<lparr>rd_currentTheme = LIGHT, rd_nodesMap = [], rd_plateShapes = [], rd_nextShape = 0,
      rd_selectedNodeId = None, rd_selectedClusterId = None, rd_highlightNeighbors = {},
      rd_stageDownPos = None, rd_lastStageClickTime = 0, rd_lookAt = None\<rparr>"

definition toggleThemeR :: "Renderer \<Rightarrow> Renderer" where
  "toggleThemeR r = r\<lparr>rd_currentTheme := (if rd_currentTheme r = LIGHT then DARK else LIGHT)\<rparr>"

definition updateSelection ::
  "jsstring option \<Rightarrow> jsstring set \<Rightarrow> jsstring option \<Rightarrow> Renderer \<Rightarrow> Renderer" where
  "updateSelection selectedNodeId neighbors selectedClusterId r =
     r\<lparr>rd_selectedNodeId := selectedNodeId,
       rd_highlightNeighbors := neighbors,
       rd_selectedClusterId := selectedClusterId\<rparr>"

definition smoothLookAt :: "real option \<Rightarrow> real option \<Rightarrow> real \<Rightarrow> Renderer \<Rightarrow> Renderer" where
  "smoothLookAt x y scale r = r\<lparr>rd_lookAt := Some (x, y, scale)\<rparr>"

text \<open>
  \<open>render\<close>: \<open>hullLayer.removeChildren()\<close>; when the landmass is there and its path is
  not empty, one new shape per plate, each with \<open>let lastClickTime = 0\<close>; then one sprite
  for every node whose id has none in \<open>nodesMap\<close>.
\<close>

definition newShapes :: "nat \<Rightarrow> Hull list \<Rightarrow> PlateShape list" where
  "newShapes next ps =
     map (\<lambda>ip. \<lparr>ps_ref = next + fst ip, ps_plate = snd ip, ps_lastClickTime = 0\<rparr>)
       (enumerate 0 ps)"

definition ensureSprite :: "heap \<Rightarrow> (jsstring \<times> Sprite) list \<Rightarrow> ref \<Rightarrow> (jsstring \<times> Sprite) list" where
  "ensureSprite h nodesMap node =
     (case map_of nodesMap (gn_id (h node)) of
        Some sprite \<Rightarrow> nodesMap
      | None \<Rightarrow>
          AList.update (gn_id (h node))
            \<lparr>sp_node = node, sp_isDragging = False, sp_globalpointermove = 0,
             sp_pointerup = 0, sp_pointerupoutside = 0\<rparr> nodesMap)"

definition render :: "heap \<Rightarrow> ref list \<Rightarrow> Hull list \<Rightarrow> Hull option \<Rightarrow> Renderer \<Rightarrow> Renderer" where
  "render h nodes ps land r =
     (let shown = (case land of
                     None \<Rightarrow> []
                   | Some l \<Rightarrow> if 0 < length (hull_path l) then ps else [])
      in r\<lparr>rd_plateShapes := newShapes (rd_nextShape r) shown,
           rd_nextShape := rd_nextShape r + length shown,
           rd_nodesMap := foldl (ensureSprite h) (rd_nodesMap r) nodes\<rparr>)"

subsection \<open>InputManager\<close>

definition setPanEnabled :: "bool \<Rightarrow> InputManager \<Rightarrow> InputManager" where
  "setPanEnabled enabled im =
     (let im1 = im\<lparr>im_isPanEnabled := enabled\<rparr>
      in if \<not> enabled then im1\<lparr>im_isDragging := False\<rparr> else im1)"

subsection \<open>GraphEngine\<close>

definition newGraphEngine :: "heap \<Rightarrow> bool \<Rightarrow> GraphEngine" where
  "newGraphEngine h listening =
     \<lparr>ge_layout = newLayout, ge_renderer = newRenderer,
      ge_inputManager = \<lparr>im_isPanEnabled = True, im_isDragging = False\<rparr>,
      ge_isRunning = False, ge_selectedNodeId = None, ge_onSelectionChange = listening,
      ge_heap = h, ge_reported = [], ge_notices = []\<rparr>"

definition update :: "d3 \<Rightarrow> GraphEngine \<Rightarrow> GraphEngine" where
  "update D e =
     (if \<not> ge_isRunning e then e
      else
        let nodes = lay_nodes (ge_layout e);
            lf = computeLandforms D (map (ge_heap e) nodes) getColor
        in e\<lparr>ge_renderer :=
               render (ge_heap e) nodes (lf_plates lf) (lf_landmass lf) (ge_renderer e)\<rparr>)"

definition notify :: "selectionData option \<Rightarrow> GraphEngine \<Rightarrow> GraphEngine" where
  "notify d e = (if ge_onSelectionChange e then e\<lparr>ge_notices := ge_notices e @ [d]\<rparr> else e)"

definition findNode :: "GraphEngine \<Rightarrow> jsstring \<Rightarrow> ref option" where
  "findNode e i = List.find (\<lambda>n. gn_id (ge_heap e n) = i) (lay_nodes (ge_layout e))"

definition addNeighbors :: "heap \<Rightarrow> jsstring \<Rightarrow> jsstring set \<Rightarrow> GraphLink \<Rightarrow> jsstring set" where
  "addNeighbors h i neighbors link =
     (let s = gn_id (h (link_source link));
          t = gn_id (h (link_target link));
          n1 = (if s = i then insert t neighbors else neighbors)
      in if t = i then insert s n1 else n1)"

definition toggleTheme :: "d3 \<Rightarrow> GraphEngine \<Rightarrow> GraphEngine" where
  "toggleTheme D e = update D (e\<lparr>ge_renderer := toggleThemeR (ge_renderer e)\<rparr>)"

definition resetCamera :: "d3 \<Rightarrow> GraphEngine \<Rightarrow> GraphEngine" where
  "resetCamera D e =
     (let e1 = e\<lparr>ge_selectedNodeId := None\<rparr>;
          e2 = e1\<lparr>ge_renderer := updateSelection None {} None (ge_renderer e1)\<rparr>;
          e3 = update D e2;
          e4 = notify None e3
      in e4\<lparr>ge_renderer := smoothLookAt (Some 0) (Some 0) 1.0 (ge_renderer e4)\<rparr>)"

text \<open>
  \<^verbatim>\<open>
  private handleNodeClick(id: string, clickCount: number) {
      if (clickCount === 2) {
          const node = this.layout.getNodes().find(n => n.id === id);
          if (!node) return;
          this.selectedNodeId = id;
          const neighbors = new Set<string>();
          this.layout.getLinks().forEach(link => { ... });
          this.renderer.updateSelection(id, neighbors, null);
          this.update();
          this.renderer.smoothLookAt(node.x!, node.y!, 1.5);
          if (this.onSelectionChange) { this.onSelectionChange({...}); }
      }
  }
  \<close>
\<close>

definition handleNodeClick :: "d3 \<Rightarrow> jsstring \<Rightarrow> nat \<Rightarrow> GraphEngine \<Rightarrow> GraphEngine" where
  "handleNodeClick D i clickCount e =
     (if clickCount = 2 then
        (case findNode e i of
           None \<Rightarrow> e
         | Some node \<Rightarrow>
             let e1 = e\<lparr>ge_selectedNodeId := Some i\<rparr>;
                 neighbors = foldl (addNeighbors (ge_heap e1) i) {} (lay_links (ge_layout e1));
                 e2 = e1\<lparr>ge_renderer := updateSelection (Some i) neighbors None (ge_renderer e1)\<rparr>;
                 e3 = update D e2;
                 n = ge_heap e3 node;
                 e4 = e3\<lparr>ge_renderer := smoothLookAt (gn_x n) (gn_y n) 1.5 (ge_renderer e3)\<rparr>
             in notify (Some (NodeData (gn_label n) (gn_directory n)
                          (case gn_description n of
                             None \<Rightarrow> None
                           | Some d \<Rightarrow> if d = [] then None else Some d)
                          (gn_fullPath n))) e4)
      else e)"

definition handleHullClick :: "d3 \<Rightarrow> jsstring \<Rightarrow> nat \<Rightarrow> GraphEngine \<Rightarrow> GraphEngine" where
  "handleHullClick D i clickCount e =
     (if clickCount = 2 then
        let e1 = e\<lparr>ge_selectedNodeId := None\<rparr>;
            e2 = e1\<lparr>ge_renderer := updateSelection None {} (Some i) (ge_renderer e1)\<rparr>;
            e3 = update D e2;
            nodes = filter (\<lambda>n. dirKey n = i) (map (ge_heap e3) (lay_nodes (ge_layout e3)));
            e4 = (if 0 < length nodes then
                    let avgX = foldl (\<lambda>s n. s + orZero (gn_x n)) 0 nodes / real (length nodes);
                        avgY = foldl (\<lambda>s n. s + orZero (gn_y n)) 0 nodes / real (length nodes)
                    in e3\<lparr>ge_renderer := smoothLookAt (Some avgX) (Some avgY) 1.5 (ge_renderer e3)\<rparr>
                  else e3)
        in notify (Some (ClusterData (js ''Cluster: '' @ i) i
                     (js ''Contains '' @ toString10 (length nodes) @ js '' nodes.''))) e4
      else e)"

definition handleBackgroundClick :: "d3 \<Rightarrow> nat \<Rightarrow> GraphEngine \<Rightarrow> GraphEngine" where
  "handleBackgroundClick D clickCount e =
     (let e1 = e\<lparr>ge_selectedNodeId := None\<rparr>;
          e2 = e1\<lparr>ge_renderer := updateSelection None {} None (ge_renderer e1)\<rparr>;
          e3 = update D e2;
          e4 = notify None e3
      in if clickCount = 2
         then e4\<lparr>ge_renderer := smoothLookAt (Some 0) (Some 0) 1.0 (ge_renderer e4)\<rparr>
         else e4)"

definition handleDragStart :: "d3 \<Rightarrow> jsstring \<Rightarrow> GraphEngine \<Rightarrow> GraphEngine" where
  "handleDragStart D i e =
     (let e1 = e\<lparr>ge_inputManager := setPanEnabled False (ge_inputManager e)\<rparr>;
          e2 = e1\<lparr>ge_layout := dragStart (ge_layout e1)\<rparr>
      in update D e2)"

definition handleDragMove :: "d3 \<Rightarrow> jsstring \<Rightarrow> real \<Rightarrow> real \<Rightarrow> GraphEngine \<Rightarrow> GraphEngine" where
  "handleDragMove D i x y e =
     (case findNode e i of
        None \<Rightarrow> e
      | Some node \<Rightarrow> update D (e\<lparr>ge_heap := dragMove node x y (ge_heap e)\<rparr>))"

definition handleDragEnd :: "d3 \<Rightarrow> jsstring \<Rightarrow> GraphEngine \<Rightarrow> GraphEngine" where
  "handleDragEnd D i e =
     (let e1 = e\<lparr>ge_inputManager := setPanEnabled True (ge_inputManager e)\<rparr>
      in case findNode e1 i of
           None \<Rightarrow> e1
         | Some node \<Rightarrow>
             (let lh = dragEnd (ge_layout e1) node (ge_heap e1)
              in update D (e1\<lparr>ge_layout := fst lh, ge_heap := snd lh\<rparr>)))"

subsection \<open>The pointer handlers that the renderer installs\<close>

text \<open>
  The callbacks the renderer is constructed with are the engine's handlers
  (\<open>onClickNode: this.handleNodeClick.bind(this)\<close>, ...), so a pointer handler is a
  function on the engine state. \<open>now\<close> is the value \<open>Date.now()\<close> returns in the handler.
  A sprite is named by its key in \<open>nodesMap\<close>, a plate shape by \<open>ps_ref\<close>.
\<close>

definition report :: "click \<Rightarrow> GraphEngine \<Rightarrow> GraphEngine" where
  "report c e = e\<lparr>ge_reported := ge_reported e @ [c]\<rparr>"

definition setSpriteDragging :: "jsstring \<Rightarrow> bool \<Rightarrow> GraphEngine \<Rightarrow> GraphEngine" where
  "setSpriteDragging key b e =
     e\<lparr>ge_renderer := (ge_renderer e)
        \<lparr>rd_nodesMap := AList.map_entry key (\<lambda>sp. sp\<lparr>sp_isDragging := b\<rparr>)
                          (rd_nodesMap (ge_renderer e))\<rparr>\<rparr>"

text \<open>
  \<^verbatim>\<open>
  container.on('pointerdown', (e) => {
      e.stopPropagation();
      dragStartData = e;
      isDragging = false;
      this.callbacks.onDragStart(node.id);
      container.on('globalpointermove', onMove);
      container.on('pointerup', onUp);
      container.on('pointerupoutside', onUp);
  });
  const onMove = (e) => {
      isDragging = true;
      const newPos = this.container.toLocal(e.global);
      this.callbacks.onDragMove(node.id, newPos.x, newPos.y);
  };
  \<close>
  Every press registers \<open>onMove\<close> and \<open>onUp\<close> once more, whether or not they are
  registered already.
\<close>

definition onSpriteListeners :: "jsstring \<Rightarrow> GraphEngine \<Rightarrow> GraphEngine" where
  "onSpriteListeners key e =
     e\<lparr>ge_renderer := (ge_renderer e)
        \<lparr>rd_nodesMap :=
           AList.map_entry key
             (\<lambda>sp. sp\<lparr>sp_globalpointermove := sp_globalpointermove sp + 1,
                       sp_pointerup := sp_pointerup sp + 1,
                       sp_pointerupoutside := sp_pointerupoutside sp + 1\<rparr>)
             (rd_nodesMap (ge_renderer e))\<rparr>\<rparr>"

definition offSpriteListeners :: "jsstring \<Rightarrow> GraphEngine \<Rightarrow> GraphEngine" where
  "offSpriteListeners key e =
     e\<lparr>ge_renderer := (ge_renderer e)
        \<lparr>rd_nodesMap :=
           AList.map_entry key
             (\<lambda>sp. sp\<lparr>sp_globalpointermove := 0, sp_pointerup := 0, sp_pointerupoutside := 0\<rparr>)
             (rd_nodesMap (ge_renderer e))\<rparr>\<rparr>"

definition spritePointerDown :: "d3 \<Rightarrow> jsstring \<Rightarrow> GraphEngine \<Rightarrow> GraphEngine" where
  "spritePointerDown D key e =
     (case map_of (rd_nodesMap (ge_renderer e)) key of
        None \<Rightarrow> e
      | Some sprite \<Rightarrow>
          let e1 = setSpriteDragging key False e;
              e2 = handleDragStart D (gn_id (ge_heap e1 (sp_node sprite))) e1
          in onSpriteListeners key e2)"

definition spriteOnMove :: "d3 \<Rightarrow> jsstring \<Rightarrow> real \<Rightarrow> real \<Rightarrow> GraphEngine \<Rightarrow> GraphEngine" where
  "spriteOnMove D key x y e =
     (case map_of (rd_nodesMap (ge_renderer e)) key of
        None \<Rightarrow> e
      | Some sprite \<Rightarrow>
          let e1 = setSpriteDragging key True e
          in handleDragMove D (gn_id (ge_heap e1 (sp_node sprite))) x y e1)"

text \<open>
  \<^verbatim>\<open>
  const onUp = (e) => {
      container.off('globalpointermove', onMove);
      container.off('pointerup', onUp);
      container.off('pointerupoutside', onUp);
      this.callbacks.onDragEnd(node.id);
      if (!isDragging) {
          const now = Date.now();
          if ((node as any)._lastClick && now - (node as any)._lastClick < 300) {
              this.callbacks.onClickNode(node.id, 2);
          } else {
              this.callbacks.onClickNode(node.id, 1);
          }
          (node as any)._lastClick = now;
      }
  };
  \<close>
  \<open>_lastClick\<close> is truthy when it is set and not \<open>0\<close>.
\<close>

definition nodeClickCount :: "int \<Rightarrow> int option \<Rightarrow> nat" where
  "nodeClickCount now lastClick =
     (case lastClick of
        None \<Rightarrow> 1
      | Some l \<Rightarrow> if l \<noteq> 0 \<and> now - l < 300 then 2 else 1)"

definition spriteOnUp :: "d3 \<Rightarrow> jsstring \<Rightarrow> int \<Rightarrow> GraphEngine \<Rightarrow> GraphEngine" where
  "spriteOnUp D key now e =
     (case map_of (rd_nodesMap (ge_renderer e)) key of
        None \<Rightarrow> e
      | Some sprite \<Rightarrow>
          let node = sp_node sprite;
              e0 = offSpriteListeners key e;
              e1 = handleDragEnd D (gn_id (ge_heap e0 node)) e0
          in if \<not> sp_isDragging sprite then
               let clickCount = nodeClickCount now (gn_lastClick (ge_heap e1 node));
                   e2 = report (ClickNode (gn_id (ge_heap e1 node)) clickCount) e1;
                   e3 = handleNodeClick D (gn_id (ge_heap e2 node)) clickCount e2
               in e3\<lparr>ge_heap := (ge_heap e3)(node := (ge_heap e3 node)\<lparr>gn_lastClick := Some now\<rparr>)\<rparr>
             else e1)"

text \<open>
  \<^verbatim>\<open>
  let lastClickTime = 0;
  gfx.on('pointerdown', (e) => {
      e.stopPropagation();
      const now = Date.now();
      if (now - lastClickTime < 300) {
          this.callbacks.onClickHull(plate.id, 2);
      } else {
          this.callbacks.onClickHull(plate.id, 1);
      }
      lastClickTime = now;
  });
  \<close>
  The last assignment is to the variable of the shape that was pressed; when the
  callback has rendered again, that shape is no longer among the shapes.
\<close>

definition windowClickCount :: "int \<Rightarrow> int \<Rightarrow> nat" where
  "windowClickCount now lastClickTime = (if now - lastClickTime < 300 then 2 else 1)"

definition setLastClickTime :: "nat \<Rightarrow> int \<Rightarrow> GraphEngine \<Rightarrow> GraphEngine" where
  "setLastClickTime g now e =
     e\<lparr>ge_renderer := (ge_renderer e)
        \<lparr>rd_plateShapes :=
           map (\<lambda>s. if ps_ref s = g then s\<lparr>ps_lastClickTime := now\<rparr> else s)
             (rd_plateShapes (ge_renderer e))\<rparr>\<rparr>"

definition platePointerDown :: "d3 \<Rightarrow> nat \<Rightarrow> int \<Rightarrow> GraphEngine \<Rightarrow> GraphEngine" where
  "platePointerDown D g now e =
     (case List.find (\<lambda>s. ps_ref s = g) (rd_plateShapes (ge_renderer e)) of
        None \<Rightarrow> e
      | Some shape \<Rightarrow>
          let i = hull_id (ps_plate shape);
              clickCount = windowClickCount now (ps_lastClickTime shape);
              e1 = report (ClickHull i clickCount) e;
              e2 = handleHullClick D i clickCount e1
          in setLastClickTime g now e2)"

text \<open>
  The stage handlers of \<open>Renderer.init\<close>. \<open>onStage\<close> is \<open>e.target === this.app.stage\<close>, and
  \<open>pos\<close> is \<open>e.global\<close>.
  \<^verbatim>\<open>
  this.app.stage.on('pointerup', (e) => {
      if (stageDownPos && e.target === this.app.stage) {
          const dist = Math.hypot(e.global.x - stageDownPos.x, e.global.y - stageDownPos.y);
          if (dist < 5) {
              const now = Date.now();
              if (now - lastStageClickTime < 300) {
                  this.callbacks.onClickBackground(2);
              } else {
                  this.callbacks.onClickBackground(1);
              }
              lastStageClickTime = now;
          }
      }
      stageDownPos = null;
  });
  \<close>
\<close>

definition setStageDownPos :: "point option \<Rightarrow> GraphEngine \<Rightarrow> GraphEngine" where
  "setStageDownPos v e = e\<lparr>ge_renderer := (ge_renderer e)\<lparr>rd_stageDownPos := v\<rparr>\<rparr>"

definition stagePointerDown :: "bool \<Rightarrow> point \<Rightarrow> GraphEngine \<Rightarrow> GraphEngine" where
  "stagePointerDown onStage pos e = (if onStage then setStageDownPos (Some pos) e else e)"

definition hypot :: "real \<Rightarrow> real \<Rightarrow> real" where
  "hypot a b = sqrt (a * a + b * b)"

definition stagePointerUp :: "d3 \<Rightarrow> bool \<Rightarrow> point \<Rightarrow> int \<Rightarrow> GraphEngine \<Rightarrow> GraphEngine" where
  "stagePointerUp D onStage pos now e =
     (let e1 =
        (case rd_stageDownPos (ge_renderer e) of
           None \<Rightarrow> e
         | Some down \<Rightarrow>
             if onStage then
               let dist = hypot (fst pos - fst down) (snd pos - snd down)
               in if dist < 5 then
                    let clickCount = windowClickCount now (rd_lastStageClickTime (ge_renderer e));
                        e2 = report (ClickBackground clickCount) e;
                        e3 = handleBackgroundClick D clickCount e2
                    in e3\<lparr>ge_renderer := (ge_renderer e3)\<lparr>rd_lastStageClickTime := now\<rparr>\<rparr>
                  else e
             else e)
      in setStageDownPos None e1)"

definition stagePointerUpOutside :: "GraphEngine \<Rightarrow> GraphEngine" where
  "stagePointerUpOutside e = setStageDownPos None e"

subsection \<open>Everything that can happen to an engine\<close>

text \<open>
  \<open>Init\<close> is \<open>GraphEngine.init\<close>: the node objects it creates and the links as d3 has
  resolved them are given by the new store and the references; \<open>setData\<close> stores them
  and restarts the simulation, and \<open>isRunning\<close> becomes true. \<open>Tick\<close> is one step of the
  d3 simulation, which moves nodes (the new store) and calls \<open>onTick\<close>, that is
  \<open>update\<close>.

  \<open>SpriteDown\<close>, \<open>SpriteMove\<close>, \<open>SpriteUp\<close> and \<open>SpriteUpOutside\<close> are the events
  \<open>pointerdown\<close>, \<open>globalpointermove\<close>, \<open>pointerup\<close> and \<open>pointerupoutside\<close> on the
  container of a node sprite. The last three call \<open>onMove\<close> or \<open>onUp\<close> once for every
  registration the container has when the event arrives; \<open>now k\<close> is what \<open>Date.now()\<close>
  returns in call number \<open>k\<close> of \<open>onUp\<close>.
\<close>

definition listenerCount :: "(Sprite \<Rightarrow> nat) \<Rightarrow> jsstring \<Rightarrow> GraphEngine \<Rightarrow> nat" where
  "listenerCount registered key e =
     (case map_of (rd_nodesMap (ge_renderer e)) key of
        None \<Rightarrow> 0
      | Some sprite \<Rightarrow> registered sprite)"

definition emit :: "nat \<Rightarrow> (nat \<Rightarrow> GraphEngine \<Rightarrow> GraphEngine) \<Rightarrow> GraphEngine \<Rightarrow> GraphEngine" where
  "emit n listener e = foldl (\<lambda>s k. listener k s) e [0..<n]"

definition setData :: "ref list \<Rightarrow> GraphLink list \<Rightarrow> Layout \<Rightarrow> Layout" where
  "setData nodes links l =
     l\<lparr>lay_nodes := nodes, lay_links := links,
       lay_simulation :=
         map_option (\<lambda>s. s\<lparr>sim_alpha := 1, sim_running := True\<rparr>) (lay_simulation l)\<rparr>"

definition init :: "ref list \<Rightarrow> GraphLink list \<Rightarrow> heap \<Rightarrow> GraphEngine \<Rightarrow> GraphEngine" where
  "init nodes links h e =
     e\<lparr>ge_heap := h, ge_layout := setData nodes links (ge_layout e), ge_isRunning := True\<rparr>"

definition dispose :: "GraphEngine \<Rightarrow> GraphEngine" where
  "dispose e = e\<lparr>ge_isRunning := False\<rparr>"

datatype event =
  Init "ref list" "GraphLink list" heap
  | Tick heap
  | ToggleTheme
  | ResetCamera
  | SpriteDown jsstring
  | SpriteMove jsstring real real
  | SpriteUp jsstring "nat \<Rightarrow> int"
  | SpriteUpOutside jsstring "nat \<Rightarrow> int"
  | PlateDown nat int
  | StageDown bool point
  | StageUp bool point int
  | StageUpOutside
  | Dispose

fun fire :: "d3 \<Rightarrow> GraphEngine \<Rightarrow> event \<Rightarrow> GraphEngine" where
  "fire D e (Init nodes links h) = init nodes links h e"
| "fire D e (Tick h) = update D (e\<lparr>ge_heap := h\<rparr>)"
| "fire D e ToggleTheme = toggleTheme D e"
| "fire D e ResetCamera = resetCamera D e"
| "fire D e (SpriteDown key) = spritePointerDown D key e"
| "fire D e (SpriteMove key x y) =
     emit (listenerCount sp_globalpointermove key e) (\<lambda>k. spriteOnMove D key x y) e"
| "fire D e (SpriteUp key now) =
     emit (listenerCount sp_pointerup key e) (\<lambda>k. spriteOnUp D key (now k)) e"
| "fire D e (SpriteUpOutside key now) =
     emit (listenerCount sp_pointerupoutside key e) (\<lambda>k. spriteOnUp D key (now k)) e"
| "fire D e (PlateDown g now) = platePointerDown D g now e"
| "fire D e (StageDown onStage pos) = stagePointerDown onStage pos e"
| "fire D e (StageUp onStage pos now) = stagePointerUp D onStage pos now e"
| "fire D e StageUpOutside = stagePointerUpOutside e"
| "fire D e Dispose = dispose e"

definition run :: "d3 \<Rightarrow> GraphEngine \<Rightarrow> event list \<Rightarrow> GraphEngine" where
  "run D e evs = foldl (fire D) e evs"

definition exclusive :: "GraphEngine \<Rightarrow> bool" where
  "exclusive e =
     (rd_selectedNodeId (ge_renderer e) = None \<or> rd_selectedClusterId (ge_renderer e) = None)"

text \<open>Names used to state the properties of the handlers.\<close>

definition selectionOf :: "Renderer \<Rightarrow> jsstring option \<times> jsstring set \<times> jsstring option" where
  "selectionOf r = (rd_selectedNodeId r, rd_highlightNeighbors r, rd_selectedClusterId r)"

definition spriteAt :: "GraphEngine \<Rightarrow> jsstring \<Rightarrow> Sprite option" where
  "spriteAt e key = map_of (rd_nodesMap (ge_renderer e)) key"

definition shapeAt :: "GraphEngine \<Rightarrow> nat \<Rightarrow> PlateShape option" where
  "shapeAt e g = List.find (\<lambda>s. ps_ref s = g) (rd_plateShapes (ge_renderer e))"

text \<open>A sprite after its \<open>pointerdown\<close> handler, and after the three \<open>off\<close> calls of \<open>onUp\<close>.\<close>

definition pressed :: "Sprite \<Rightarrow> Sprite" where
  "pressed sp =
     sp\<lparr>sp_isDragging := False,
        sp_globalpointermove := sp_globalpointermove sp + 1,
        sp_pointerup := sp_pointerup sp + 1,
        sp_pointerupoutside := sp_pointerupoutside sp + 1\<rparr>"

definition released :: "Sprite \<Rightarrow> Sprite" where
  "released sp = sp\<lparr>sp_globalpointermove := 0, sp_pointerup := 0, sp_pointerupoutside := 0\<rparr>"

text \<open>Names used to state the properties of the parser and the resolver.\<close>

fun minLen :: "regex \<Rightarrow> nat" where
  "minLen Eps = 0"
| "minLen (Chr P) = 1"
| "minLen Bol = 0"
| "minLen (Seq a b) = minLen a + minLen b"
| "minLen (Alt a b) = min (minLen a) (minLen b)"
| "minLen (Star a) = 0"
| "minLen (Lazy a) = 0"
| "minLen (Group n a) = minLen a"

definition candidatePaths :: "jsstring \<Rightarrow> jsstring list" where
  "candidatePaths candidate = candidate # map ((@) candidate) extensions"

section \<open>Example data\<close>

text \<open>
  Three nodes in two directories, a stand-in for the d3 functions whose cells are the
  bounding box, and the engine after \<open>init\<close> and one tick.
\<close>

definition mkNode :: "string \<Rightarrow> string \<Rightarrow> real \<Rightarrow> real \<Rightarrow> GraphNode" where
  "mkNode i d x y =
     \<lparr>gn_id = js i, gn_label = js i, gn_directory = js d, gn_description = None,
      gn_fullPath = None, gn_x = Some x, gn_y = Some y, gn_fx = Undefined, gn_fy = Undefined,
      gn_lastClick = None\<rparr>"

definition boxD3 :: d3 where
  "boxD3 =
     \<lparr>cellPolygon = (\<lambda>(x0, y0, x1, y1) pts i. Some [(x0, y0), (x1, y0), (x1, y1), (x0, y1)]),
      polygonHull = (\<lambda>pts. if length pts < 3 then None else Some pts)\<rparr>"

definition threeNodes :: "GraphNode list" where
  "threeNodes = [mkNode ''0'' ''src'' 0 0, mkNode ''1'' ''src'' 30 0, mkNode ''2'' ''lib'' 0 60]"

definition threeHeap :: heap where
  "threeHeap r =
     (if r = 0 then mkNode ''0'' ''src'' 0 0
      else if r = 1 then mkNode ''1'' ''src'' 30 0
      else mkNode ''2'' ''lib'' 0 60)"

definition idleSprite :: "ref \<Rightarrow> Sprite" where
  "idleSprite node =
     \<lparr>sp_node = node, sp_isDragging = False, sp_globalpointermove = 0, sp_pointerup = 0,
      sp_pointerupoutside = 0\<rparr>"

definition demoEngine :: GraphEngine where
  "demoEngine =
     run boxD3 (newGraphEngine threeHeap True)
       [Init [0, 1, 2] [\<lparr>link_source = 0, link_target = 1\<rparr>] threeHeap, Tick threeHeap]"

text \<open>Three nodes in three directories, one of them a directory named \<open>constructor\<close>.\<close>

definition ctorNodes :: "GraphNode list" where
  "ctorNodes =
     [mkNode ''0'' ''constructor'' 0 0, mkNode ''1'' ''src'' 30 0, mkNode ''2'' ''lib'' 0 60]"

definition movedHeap :: heap where
  "movedHeap r =
     (if r = 0 then mkNode ''7'' ''lib'' 5 5
      else if r = 1 then mkNode ''8'' ''src'' (-40) 12
      else mkNode ''9'' ''src'' 11 (-70))"

definition darkEngine :: GraphEngine where
  "darkEngine =
     run boxD3 (newGraphEngine movedHeap False)
       [ToggleTheme, Init [0, 1, 2] [] movedHeap]"

definition movedNodes :: "GraphNode list" where
  "movedNodes = [mkNode ''7'' ''lib'' 5 5, mkNode ''8'' ''src'' (-40) 12, mkNode ''9'' ''src'' 11 (-70)]"

definition srcPlate :: Hull where
  "srcPlate =
     \<lparr>hull_id = js ''src'',
      hull_path = [(-2000, -2000), (4000, -2000), (4000, 4000), (-2000, 4000)],
      hull_color = getColor (js ''src''), hull_type = Plate\<rparr>"

text \<open>
  A workspace of five files, with stand-ins for \<open>path\<close> and the file system, and the
  Go import block of the specification.
\<close>

definition goBlock :: jsstring where
  "goBlock = js ''import ('' @ [10, 9] @ js ''\"fmt\"'' @ [10, 9] @ js ''\"os\"'' @ [10] @ js '')''"

definition demoFiles :: "jsstring list" where
  "demoFiles = map js [''/p/a.ts'', ''/p/b.ts'', ''/p/c.ts'', ''/p/pkg/util.ts'', ''/p/util/x.ts'']"

definition demoDirs :: "jsstring list" where
  "demoDirs = map js [''/p'', ''/p/pkg'', ''/p/util'']"

definition demoBasename :: "jsstring \<Rightarrow> jsstring" where
  "demoBasename p = rev (takeWhile (\<lambda>c. c \<noteq> 47) (rev p))"

definition demoDirname :: "jsstring \<Rightarrow> jsstring" where
  "demoDirname p =
     (if 47 \<in> set p then rev (drop 1 (dropWhile (\<lambda>c. c \<noteq> 47) (rev p))) else js ''.'')"

definition demoExtname :: "jsstring \<Rightarrow> jsstring" where
  "demoExtname p =
     (let b = demoBasename p
      in if 46 \<in> set b then 46 # rev (takeWhile (\<lambda>c. c \<noteq> 46) (rev b)) else [])"

definition demoResolve :: "jsstring list \<Rightarrow> jsstring" where
  "demoResolve parts =
     joinWith (js ''/'') (map (\<lambda>p. if startsWith p (js ''./'') then drop 2 p else p) parts)"

definition demoContent :: "jsstring \<Rightarrow> jsstring option" where
  "demoContent p =
     (if p = js ''/p/a.ts''
      then Some (js ''import { b } from './b';'' @ [10] @ js ''import { a } from './a';'' @ [10]
                 @ js ''import u from 'pkg/util';'')
      else if p \<in> set demoFiles then Some [] else None)"

definition demoEnv :: env where
  "demoEnv =
     \<lparr>path_join = joinWith (js ''/''),
      path_resolve = demoResolve,
      path_dirname = demoDirname,
      path_basename = demoBasename,
      path_extname = demoExtname,
      path_relative = (\<lambda>from to. drop (Suc (length from)) to),
      path_sep = js ''/'',
      toLowerCase = map (\<lambda>c. if 65 \<le> c \<and> c \<le> 90 then c + 32 else c),
      existsSync = (\<lambda>p. p \<in> set demoFiles \<or> p \<in> set demoDirs),
      lstatSync = (\<lambda>p. if p \<in> set demoFiles then File
                         else if p \<in> set demoDirs then Directory else Other),
      readFile = demoContent,
      languageMapping = map_of [(js ''.ts'', js ''TypeScript'')]\<rparr>"

definition demoNode :: "string \<Rightarrow> string \<Rightarrow> string \<Rightarrow> string \<Rightarrow> Node" where
  "demoNode i l p d =
     \<lparr>node_id = js i, node_position = (0, 0),
      node_data = \<lparr>nd_label = js l, nd_fullPath = js p, nd_directory = js d\<rparr>\<rparr>"

definition demoGraph :: Graph where
  "demoGraph =
     \<lparr>g_nodes =
        [demoNode ''0'' ''a.ts'' ''/p/a.ts'' ''root'', demoNode ''1'' ''b.ts'' ''/p/b.ts'' ''root'',
         demoNode ''2'' ''c.ts'' ''/p/c.ts'' ''root'',
         demoNode ''3'' ''util.ts'' ''/p/pkg/util.ts'' ''pkg'',
         demoNode ''4'' ''x.ts'' ''/p/util/x.ts'' ''util''],
      g_edges =
        [\<lparr>edge_id = js ''e0-1'', edge_source = js ''0'', edge_target = js ''1''\<rparr>,
         \<lparr>edge_id = js ''e0-3'', edge_source = js ''0'', edge_target = js ''3''\<rparr>],
      g_errors = []\<rparr>"

section \<open>Properties of getColor\<close>

lemma bitAnd24_less: "bitAnd24 hash < 2 ^ 24"
proof -
  have "toInt32 hash AND 0x00FFFFFF \<le> (0x00FFFFFF :: 32 word)"
    by (rule word_and_le1)
  then have "unat (toInt32 hash AND 0x00FFFFFF) \<le> unat (0x00FFFFFF :: 32 word)"
    by (simp add: word_le_nat_alt)
  then show ?thesis by (simp add: bitAnd24_def)
qed

lemma length_toString16_pos: "1 \<le> length (toString16 n)"
  by (subst toString16.simps) simp

lemma length_toString16_le: "n < 16 ^ k \<Longrightarrow> 0 < k \<Longrightarrow> length (toString16 n) \<le> k"
proof (induction k arbitrary: n)
  case 0
  then show ?case by simp
next
  case (Suc k)
  show ?case
  proof (cases "n < 16")
    case True
    then show ?thesis by (subst toString16.simps) simp
  next
    case False
    then have k: "0 < k" using Suc.prems by (cases k) auto
    have "n div 16 < 16 ^ k" using Suc.prems by (simp add: less_mult_imp_div_less mult.commute)
    then have "length (toString16 (n div 16)) \<le> k" using Suc.IH k by blast
    then show ?thesis using False by (subst toString16.simps) simp
  qed
qed

lemma hexDigit_cases:
  "hexDigit d \<in> set (js ''0123456789abcdef'')"
proof -
  have "d mod 16 < length (js ''0123456789abcdef'')" by (simp add: js_def)
  then show ?thesis unfolding hexDigit_def by (rule nth_mem)
qed

lemma upper_hexDigit:
  "isUpperHexDigit (if 97 \<le> hexDigit d \<and> hexDigit d \<le> 122 then hexDigit d - 32 else hexDigit d)"
  using hexDigit_cases [of d] by (auto simp: isUpperHexDigit_def js_def)

lemma toString16_upper: "list_all isUpperHexDigit (toUpperCase (toString16 n))"
proof (induction n rule: toString16.induct)
  case (1 n)
  show ?case
  proof (cases "n < 16")
    case True
    then show ?thesis
      by (subst toString16.simps) (simp add: toUpperCase_def upper_hexDigit)
  next
    case False
    then show ?thesis using "1.IH"
      by (subst toString16.simps) (simp add: toUpperCase_def upper_hexDigit)
  qed
qed

lemma length_toUpperCase: "length (toUpperCase s) = length s"
  by (simp add: toUpperCase_def)

lemma zero_is_upper_hex: "list_all isUpperHexDigit (take k (js ''00000''))"
proof -
  have "list_all isUpperHexDigit (js ''00000'')" by (simp add: isUpperHexDigit_def js_def)
  then show ?thesis by (auto simp: list_all_iff dest: in_set_takeD)
qed

lemma colorOfHash_wellformed:
  "length (colorOfHash h) = 7 \<and> take 1 (colorOfHash h) = js ''#''
   \<and> list_all isUpperHexDigit (drop 1 (colorOfHash h))"
proof -
  define c where "c = toUpperCase (toString16 (bitAnd24 h))"
  have "bitAnd24 h < 16 ^ 6" using bitAnd24_less [of h] by simp
  then have le: "length c \<le> 6"
    unfolding c_def length_toUpperCase by (rule length_toString16_le) simp
  have pos: "1 \<le> length c"
    unfolding c_def length_toUpperCase by (rule length_toString16_pos)
  have hex: "list_all isUpperHexDigit c" unfolding c_def by (rule toString16_upper)
  have five: "length (js ''00000'') = 5" by (simp add: js_def)
  have "nat (6 - int (length c)) = 6 - length c" by simp
  then have "length (substring0 (js ''00000'') (6 - int (length c))) = min 5 (6 - length c)"
    by (simp only: substring0_def length_take five)
  then have pad: "length (substring0 (js ''00000'') (6 - int (length c))) = 6 - length c"
    using pos by arith
  have eq: "colorOfHash h = js ''#'' @ substring0 (js ''00000'') (6 - int (length c)) @ c"
    by (simp add: colorOfHash_def c_def Let_def)
  have "length (colorOfHash h) = 7" using pad le by (simp add: eq js_def)
  moreover have "take 1 (colorOfHash h) = js ''#''" by (simp add: eq js_def)
  moreover have "list_all isUpperHexDigit (drop 1 (colorOfHash h))"
    using hex zero_is_upper_hex by (simp add: eq js_def substring0_def)
  ultimately show ?thesis by blast
qed

text \<open>
  C10. For every input string (the empty string and strings whose hash is negative as
  a 32-bit value included) \<open>getColor\<close> returns seven code units: \<open>#\<close> followed by exactly
  six upper-case hexadecimal digits. The masked hash is below \<open>2^24\<close>, so its hexadecimal
  form has between one and six digits, and the padding restores the width to six.
\<close>

theorem getColor_wellformed:
  "length (getColor str) = 7 \<and> take 1 (getColor str) = js ''#''
   \<and> list_all isUpperHexDigit (drop 1 (getColor str))
   \<and> bitAnd24 (hashLoop str) < 2 ^ 24
   \<and> 1 \<le> length (toString16 (bitAnd24 (hashLoop str)))
   \<and> length (toString16 (bitAnd24 (hashLoop str))) \<le> 6"
proof -
  have "bitAnd24 (hashLoop str) < 16 ^ 6" using bitAnd24_less [of "hashLoop str"] by simp
  then have "length (toString16 (bitAnd24 (hashLoop str))) \<le> 6"
    by (rule length_toString16_le) simp
  moreover note length_toString16_pos [of "bitAnd24 (hashLoop str)"]
    colorOfHash_wellformed [of "hashLoop str"] bitAnd24_less [of "hashLoop str"]
  ultimately show ?thesis
    unfolding getColor_def by blast
qed

section \<open>Properties of computeLandforms, the layout and the handlers\<close>

lemma keys_addToCluster:
  "fst ` set (addToCluster m n) =
     fst ` set m \<union> (if dirKey n \<in> set objectPrototypeKeys then {} else {dirKey n})"
  by (auto simp: addToCluster_def Let_def dom_map_entry dom_update map_of_eq_None_iff)

lemma distinct_addToCluster:
  "distinct (map fst m) \<Longrightarrow> distinct (map fst (addToCluster m n))"
  by (simp add: addToCluster_def Let_def distinct_map_entry distinct_update)

lemma map_of_addToCluster:
  "map_of (addToCluster m n) k =
     (if k = dirKey n \<and> k \<notin> set objectPrototypeKeys
      then Some (accumulate (clusterOr0 (map_of m k)) [n])
      else map_of m k)"
  by (auto simp: addToCluster_def Let_def map_of_map_entry update_conv' accumulate_def
      clusterOr0_def split: option.splits)

lemma keys_foldl_addToCluster:
  "fst ` set (foldl addToCluster m ns) =
     fst ` set m \<union> (dirKey ` set ns - set objectPrototypeKeys)"
  by (induction ns arbitrary: m) (auto simp: keys_addToCluster split: if_splits)

lemma distinct_foldl_addToCluster:
  "distinct (map fst m) \<Longrightarrow> distinct (map fst (foldl addToCluster m ns))"
  by (induction ns arbitrary: m) (auto simp: distinct_addToCluster)

lemma accumulate_accumulate:
  "accumulate (accumulate c [n]) ms = accumulate c (n # ms)"
  by (simp add: accumulate_def)

lemma map_of_foldl_addToCluster:
  "map_of (foldl addToCluster m ns) k =
     (if k \<in> set objectPrototypeKeys \<or> members k ns = [] then map_of m k
      else Some (accumulate (clusterOr0 (map_of m k)) (members k ns)))"
proof (induction ns arbitrary: m)
  case Nil
  then show ?case by (simp add: members_def)
next
  case (Cons n ns)
  show ?case
    by (simp add: Cons.IH map_of_addToCluster members_def clusterOr0_def accumulate_accumulate)
      
qed

lemma set_objectEntries: "set (objectEntries m) = set m"
  by (auto simp: objectEntries_def)

lemma length_objectEntries: "length (objectEntries m) = length m"
  by (simp add: objectEntries_def sum_length_filter_compl)

lemma distinct_objectEntries:
  assumes "distinct (map fst m)"
  shows "distinct (map fst (objectEntries m))"
proof -
  have d: "distinct m" and inj: "inj_on fst (set m)"
    using assms by (simp_all add: distinct_map)
  have "distinct (objectEntries m)"
    using d by (auto simp: objectEntries_def)
  then show ?thesis
    using inj by (simp add: distinct_map set_objectEntries)
qed

lemma map_fst_centroids: "map fst (centroids nodes) = map fst (objectEntries (clusterMapOf nodes))"
  by (simp add: centroids_def case_prod_unfold)

lemma distinct_clusterMapOf: "distinct (map fst (clusterMapOf nodes))"
  unfolding clusterMapOf_def by (rule distinct_foldl_addToCluster) simp

lemma keys_clusterMapOf:
  "fst ` set (clusterMapOf nodes) = dirKey ` set nodes - set objectPrototypeKeys"
  unfolding clusterMapOf_def by (simp add: keys_foldl_addToCluster)

lemma distinct_centroids: "distinct (map fst (centroids nodes))"
  by (simp add: map_fst_centroids distinct_objectEntries distinct_clusterMapOf)

lemma keys_centroids:
  "set (map fst (centroids nodes)) = dirKey ` set nodes - set objectPrototypeKeys"
  by (simp add: map_fst_centroids set_objectEntries keys_clusterMapOf)

lemma length_centroids:
  "length (centroids nodes) = card (dirKey ` set nodes - set objectPrototypeKeys)"
proof -
  have "length (centroids nodes) = length (map fst (centroids nodes))" by simp
  also have "\<dots> = card (set (map fst (centroids nodes)))"
    using distinct_centroids by (simp only: distinct_card)
  finally show ?thesis by (simp only: keys_centroids)
qed

lemma clusterMapOf_entry:
  assumes "(k, d) \<in> set (clusterMapOf nodes)"
  shows "d = accumulate \<lparr>cl_x = 0, cl_y = 0, cl_count = 0\<rparr> (members k nodes)"
proof -
  have m: "map_of (clusterMapOf nodes) k = Some d"
    using assms distinct_clusterMapOf by simp
  have "k \<in> fst ` set (clusterMapOf nodes)" using assms by force
  then have k: "k \<in> dirKey ` set nodes" "k \<notin> set objectPrototypeKeys"
    by (simp_all add: keys_clusterMapOf)
  then have "members k nodes \<noteq> []" by (auto simp: members_def filter_empty_conv)
  then show ?thesis
    using m k(2) by (simp add: clusterMapOf_def map_of_foldl_addToCluster clusterOr0_def)
qed

lemma centroids_entry:
  assumes "c \<in> set (centroids nodes)"
  shows "c = (fst c, centroidOf (fst c) nodes)"
proof -
  obtain k d where kd: "(k, d) \<in> set (clusterMapOf nodes)"
    and c: "c = (k, cl_x d / real (cl_count d), cl_y d / real (cl_count d))"
    using assms by (auto simp: centroids_def set_objectEntries)
  show ?thesis
    using clusterMapOf_entry [OF kd] by (simp add: c centroidOf_def accumulate_def)
qed

lemma plates_computeLandforms:
  "3 \<le> length nodes \<Longrightarrow>
   lf_plates (computeLandforms D nodes colorFn) =
     List.map_filter (plateOf D colorFn (centroidPoints nodes)) (enumerate 0 (centroids nodes))"
  by (simp add: computeLandforms_def Let_def centroidPoints_def)

lemma hull_id_plateOf: "plateOf D colorFn pts ic = Some p \<Longrightarrow> hull_id p = fst (snd ic)"
  by (auto simp: plateOf_def split: option.splits)

lemma plate_ids:
  "map hull_id (List.map_filter (plateOf D colorFn pts) ics) =
   map (\<lambda>ic. fst (snd ic)) (filter (\<lambda>ic. plateOf D colorFn pts ic \<noteq> None) ics)"
  by (induction ics) (auto simp: List.map_filter_simps hull_id_plateOf split: option.splits)

lemma enumerate_keys: "map (\<lambda>ic. fst (snd ic)) (enumerate n cs) = map fst cs"
  by (simp add: map_snd_enumerate flip: map_map [unfolded comp_def])

lemma distinct_plate_ids:
  assumes "3 \<le> length nodes"
  shows "distinct (map hull_id (lf_plates (computeLandforms D nodes colorFn)))"
proof -
  have "distinct (map (\<lambda>ic. fst (snd ic)) (enumerate 0 (centroids nodes)))"
    by (simp only: enumerate_keys distinct_centroids)
  then show ?thesis
    unfolding plates_computeLandforms [OF assms] plate_ids by (rule distinct_map_filter)
qed

lemma plate_ids_subset:
  assumes "3 \<le> length nodes"
  shows "set (map hull_id (lf_plates (computeLandforms D nodes colorFn))) \<subseteq> dirKey ` set nodes"
proof -
  have "set (map hull_id (lf_plates (computeLandforms D nodes colorFn)))
        \<subseteq> (\<lambda>ic. fst (snd ic)) ` set (enumerate 0 (centroids nodes))"
    unfolding plates_computeLandforms [OF assms] plate_ids by auto
  also have "\<dots> = set (map fst (centroids nodes))"
    by (simp only: enumerate_keys flip: set_map)
  also have "\<dots> \<subseteq> dirKey ` set nodes"
    by (simp only: keys_centroids) blast
  finally show ?thesis .
qed

lemma plate_is_cell:
  assumes "3 \<le> length nodes" and "p \<in> set (lf_plates (computeLandforms D nodes colorFn))"
  shows "\<exists>i<length (centroids nodes).
           centroids nodes ! i = (hull_id p, centroidOf (hull_id p) nodes)
           \<and> cellPolygon D voronoiBounds (centroidPoints nodes) i = Some (hull_path p)
           \<and> hull_color p = colorFn (hull_id p) \<and> hull_type p = Plate"
proof -
  obtain ic where ic: "ic \<in> set (enumerate 0 (centroids nodes))"
    and p: "plateOf D colorFn (centroidPoints nodes) ic = Some p"
    using assms by (auto simp: plates_computeLandforms List.map_filter_def)
  have i: "fst ic < length (centroids nodes)" and c: "snd ic = centroids nodes ! fst ic"
    using ic by (auto simp: in_set_enumerate_eq)
  have "snd ic \<in> set (centroids nodes)" using i c by simp
  then have "snd ic = (fst (snd ic), centroidOf (fst (snd ic)) nodes)" by (rule centroids_entry)
  then have "centroids nodes ! fst ic = (hull_id p, centroidOf (hull_id p) nodes)"
    using c hull_id_plateOf [OF p] by simp
  moreover have "cellPolygon D voronoiBounds (centroidPoints nodes) (fst ic) = Some (hull_path p)
      \<and> hull_color p = colorFn (hull_id p) \<and> hull_type p = Plate"
    using p by (auto simp: plateOf_def split: option.splits)
  ultimately show ?thesis using i by blast
qed

lemma all_cells_plate_ids:
  assumes "3 \<le> length nodes"
    and "\<forall>i<length (centroids nodes). cellPolygon D voronoiBounds (centroidPoints nodes) i \<noteq> None"
  shows "map hull_id (lf_plates (computeLandforms D nodes colorFn)) = map fst (centroids nodes)"
proof -
  have "filter (\<lambda>ic. plateOf D colorFn (centroidPoints nodes) ic \<noteq> None) (enumerate 0 (centroids nodes))
        = enumerate 0 (centroids nodes)"
    using assms(2) by (auto simp: filter_id_conv in_set_enumerate_eq plateOf_def split: option.splits)
  then show ?thesis
    unfolding plates_computeLandforms [OF assms(1)] plate_ids
    by (simp only: enumerate_keys)
qed

lemma plate_ids_own:
  assumes "3 \<le> length nodes"
  shows "set (map hull_id (lf_plates (computeLandforms D nodes colorFn)))
           \<subseteq> dirKey ` set nodes - set objectPrototypeKeys"
proof -
  have "set (map hull_id (lf_plates (computeLandforms D nodes colorFn)))
        \<subseteq> (\<lambda>ic. fst (snd ic)) ` set (enumerate 0 (centroids nodes))"
    unfolding plates_computeLandforms [OF assms] plate_ids by auto
  also have "\<dots> = set (map fst (centroids nodes))"
    by (simp only: enumerate_keys flip: set_map)
  finally show ?thesis by (simp only: keys_centroids)
qed

lemma dirKey_directory: "gn_directory n \<noteq> [] \<Longrightarrow> dirKey n = gn_directory n"
  by (simp add: dirKey_def)

text \<open>
  What \<open>computeLandforms\<close> does for every node list. With fewer than three nodes it
  returns no landmass and no plates. With three or more, the plates have distinct ids,
  each the directory of a node; every plate is the cell that the Voronoi function returns
  for the centroid of its directory (the mean of the members' positions) within the
  fixed bounds, coloured by the colour function. When no directory is empty or named
  like a property of \<open>Object.prototype\<close>, and the Voronoi function returns a cell for
  every centroid, there is exactly one plate per distinct directory value.
\<close>

lemma computeLandforms_plates:
  "(length nodes < 3 \<longrightarrow>
      computeLandforms D nodes colorFn = \<lparr>lf_landmass = None, lf_plates = []\<rparr>)
   \<and> (3 \<le> length nodes \<longrightarrow>
        distinct (map hull_id (lf_plates (computeLandforms D nodes colorFn)))
      \<and> set (map hull_id (lf_plates (computeLandforms D nodes colorFn))) \<subseteq> dirKey ` set nodes
      \<and> (\<forall>p \<in> set (lf_plates (computeLandforms D nodes colorFn)).
            \<exists>i<length (centroids nodes).
              centroids nodes ! i = (hull_id p, centroidOf (hull_id p) nodes)
              \<and> cellPolygon D voronoiBounds (centroidPoints nodes) i = Some (hull_path p)
              \<and> hull_color p = colorFn (hull_id p) \<and> hull_type p = Plate)
      \<and> ((\<forall>i<length (centroids nodes).
              cellPolygon D voronoiBounds (centroidPoints nodes) i \<noteq> None)
           \<and> (\<forall>n \<in> set nodes. gn_directory n \<noteq> [] \<and> gn_directory n \<notin> set objectPrototypeKeys)
           \<longrightarrow>
             set (map hull_id (lf_plates (computeLandforms D nodes colorFn)))
               = gn_directory ` set nodes
           \<and> length (lf_plates (computeLandforms D nodes colorFn))
               = card (gn_directory ` set nodes)))"
proof (intro conjI impI)
  assume "length nodes < 3"
  then show "computeLandforms D nodes colorFn = \<lparr>lf_landmass = None, lf_plates = []\<rparr>"
    by (simp add: computeLandforms_def)
next
  assume "3 \<le> length nodes"
  then show "distinct (map hull_id (lf_plates (computeLandforms D nodes colorFn)))"
    by (rule distinct_plate_ids)
next
  assume "3 \<le> length nodes"
  then show "set (map hull_id (lf_plates (computeLandforms D nodes colorFn))) \<subseteq> dirKey ` set nodes"
    by (rule plate_ids_subset)
next
  assume "3 \<le> length nodes"
  then show "\<forall>p \<in> set (lf_plates (computeLandforms D nodes colorFn)).
            \<exists>i<length (centroids nodes).
              centroids nodes ! i = (hull_id p, centroidOf (hull_id p) nodes)
              \<and> cellPolygon D voronoiBounds (centroidPoints nodes) i = Some (hull_path p)
              \<and> hull_color p = colorFn (hull_id p) \<and> hull_type p = Plate"
    using plate_is_cell by blast
next
  assume n: "3 \<le> length nodes"
    and h: "(\<forall>i<length (centroids nodes).
              cellPolygon D voronoiBounds (centroidPoints nodes) i \<noteq> None)
           \<and> (\<forall>n \<in> set nodes. gn_directory n \<noteq> [] \<and> gn_directory n \<notin> set objectPrototypeKeys)"
  have ids: "map hull_id (lf_plates (computeLandforms D nodes colorFn)) = map fst (centroids nodes)"
    using n h by (intro all_cells_plate_ids) blast+
  have dirs: "dirKey ` set nodes = gn_directory ` set nodes"
    using h by (auto simp: dirKey_directory intro!: image_cong)
  have keys: "dirKey ` set nodes - set objectPrototypeKeys = gn_directory ` set nodes"
    unfolding dirs using h by blast
  show "set (map hull_id (lf_plates (computeLandforms D nodes colorFn))) = gn_directory ` set nodes"
    by (simp only: ids keys_centroids keys)
  have "length (lf_plates (computeLandforms D nodes colorFn))
        = length (map hull_id (lf_plates (computeLandforms D nodes colorFn)))" by simp
  also have "\<dots> = length (centroids nodes)" by (simp only: ids length_map)
  finally show "length (lf_plates (computeLandforms D nodes colorFn))
                  = card (gn_directory ` set nodes)"
    by (simp only: length_centroids keys)
qed

lemma centroids_threeNodes:
  "centroids threeNodes = [(js ''src'', 15, 0), (js ''lib'', 0, 60)]"
  by (simp add: centroids_def clusterMapOf_def threeNodes_def mkNode_def addToCluster_def
      dirKey_def js_def objectPrototypeKeys_def orZero_def objectEntries_def isArrayIndex_def
      isDigit_def)

lemma centroids_ctorNodes:
  "centroids ctorNodes = [(js ''src'', 30, 0), (js ''lib'', 0, 60)]"
  by (simp add: centroids_def clusterMapOf_def ctorNodes_def mkNode_def addToCluster_def
      dirKey_def js_def objectPrototypeKeys_def orZero_def objectEntries_def isArrayIndex_def
      isDigit_def)

lemma constructor_is_prototype_key: "js ''constructor'' \<in> set objectPrototypeKeys"
  by (simp add: objectPrototypeKeys_def)

text \<open>
  C4. The specification asks, for three or more nodes, for exactly one plate per distinct
  directory value. The three nodes of \<open>ctorNodes\<close> lie in the three directories
  \<open>constructor\<close>, \<open>src\<close> and \<open>lib\<close>, and \<open>boxD3\<close> returns a cell for every centroid, yet
  \<open>computeLandforms\<close> returns two plates, for \<open>src\<close> and \<open>lib\<close>: \<open>clusterMap\<close> is a plain object, so
  \<open>clusterMap['constructor']\<close> is the inherited \<open>Object\<close> function, no cluster is created
  and \<open>Object.entries\<close> never lists the directory. Whatever the Voronoi function and the
  colour function are, no plate of these nodes has the id \<open>constructor\<close>.
\<close>

theorem computeLandforms_no_plate_for_constructor:
  "length ctorNodes = 3
   \<and> map gn_directory ctorNodes = [js ''constructor'', js ''src'', js ''lib'']
   \<and> distinct (map gn_directory ctorNodes)
   \<and> map hull_id (lf_plates (computeLandforms boxD3 ctorNodes getColor)) = [js ''src'', js ''lib'']
   \<and> js ''constructor'' \<notin> set (map hull_id (lf_plates (computeLandforms D ctorNodes colorFn)))"
proof -
  have n: "length ctorNodes = 3" by (simp add: ctorNodes_def)
  have d: "map gn_directory ctorNodes = [js ''constructor'', js ''src'', js ''lib'']"
    by (simp add: ctorNodes_def mkNode_def)
  have dd: "distinct [js ''constructor'', js ''src'', js ''lib'']"
    by (simp add: js_def)
  have p: "map hull_id (lf_plates (computeLandforms boxD3 ctorNodes getColor))
             = [js ''src'', js ''lib'']"
    by (simp add: plates_computeLandforms n centroids_ctorNodes List.map_filter_simps plateOf_def
        boxD3_def voronoiBounds_def)
  have "set (map hull_id (lf_plates (computeLandforms D ctorNodes colorFn)))
          \<subseteq> dirKey ` set ctorNodes - set objectPrototypeKeys"
    by (rule plate_ids_own) (simp add: n)
  then have c: "js ''constructor'' \<notin> set (map hull_id (lf_plates (computeLandforms D ctorNodes colorFn)))"
    using constructor_is_prototype_key by blast
  show ?thesis using n d dd p c by (simp only: simp_thms)
qed

lemma dragMove_node:
  "dragMove node x y h node = (h node)\<lparr>gn_fx := Number x, gn_fy := Number y\<rparr>"
  by (simp add: dragMove_def Let_def)

lemma dragMove_other: "r \<noteq> node \<Longrightarrow> dragMove node x y h r = h r"
  by (simp add: dragMove_def Let_def)

lemma dragEnd_Some:
  "lay_simulation l = Some s \<Longrightarrow>
   dragEnd l node h =
     (l\<lparr>lay_simulation := Some (s\<lparr>sim_alphaTarget := 0\<rparr>)\<rparr>,
      h(node := (h node)\<lparr>gn_fx := Null, gn_fy := Null\<rparr>))"
  by (simp add: dragEnd_def Let_def)

text \<open>
  C9. \<open>dragMove(node, x, y)\<close> sets \<open>fx\<close> and \<open>fy\<close> of the given node to \<open>x\<close> and \<open>y\<close> and
  changes nothing else of that node and nothing of any other node; \<open>dragEnd(node)\<close>, on
  a layout that has its simulation, resets \<open>fx\<close> and \<open>fy\<close> of that node to \<open>null\<close>, leaves
  every other node as it was and sets the simulation's \<open>alphaTarget\<close> to 0.
\<close>

theorem drag_pins_only_the_given_node:
  "dragMove node x y h node = (h node)\<lparr>gn_fx := Number x, gn_fy := Number y\<rparr>
   \<and> (\<forall>r. r \<noteq> node \<longrightarrow> dragMove node x y h r = h r)
   \<and> (lay_simulation l = Some s \<longrightarrow>
        snd (dragEnd l node h) node = (h node)\<lparr>gn_fx := Null, gn_fy := Null\<rparr>
      \<and> (\<forall>r. r \<noteq> node \<longrightarrow> snd (dragEnd l node h) r = h r)
      \<and> fst (dragEnd l node h) = l\<lparr>lay_simulation := Some (s\<lparr>sim_alphaTarget := 0\<rparr>)\<rparr>)"
  by (simp add: dragMove_node dragMove_other dragEnd_Some)

text \<open>A drag of node 0 to (3, 4) and its release, between \<open>dragStart\<close> and \<open>dragEnd\<close>.\<close>

theorem drag_pins_only_the_given_node_witness:
  "gn_fx (dragMove 0 3 4 threeHeap 0) = Number 3
   \<and> gn_fy (dragMove 0 3 4 threeHeap 0) = Number 4
   \<and> gn_x (dragMove 0 3 4 threeHeap 0) = Some 0
   \<and> dragMove 0 3 4 threeHeap 1 = threeHeap 1
   \<and> lay_simulation (dragStart newLayout)
       = Some \<lparr>sim_alpha = 1, sim_alphaTarget = 0.3, sim_running = True\<rparr>
   \<and> gn_fx (snd (dragEnd (dragStart newLayout) 0 (dragMove 0 3 4 threeHeap)) 0) = Null
   \<and> gn_fy (snd (dragEnd (dragStart newLayout) 0 (dragMove 0 3 4 threeHeap)) 0) = Null
   \<and> snd (dragEnd (dragStart newLayout) 0 (dragMove 0 3 4 threeHeap)) 1 = threeHeap 1
   \<and> lay_simulation (fst (dragEnd (dragStart newLayout) 0 (dragMove 0 3 4 threeHeap)))
       = Some \<lparr>sim_alpha = 1, sim_alphaTarget = 0, sim_running = True\<rparr>"
proof -
  have s: "lay_simulation (dragStart newLayout)
       = Some \<lparr>sim_alpha = 1, sim_alphaTarget = 0.3, sim_running = True\<rparr>"
    by (simp add: dragStart_def newLayout_def)
  have n: "(1::nat) \<noteq> 0" by simp
  show ?thesis
    using drag_pins_only_the_given_node [of 0 3 4 threeHeap "dragStart newLayout"
        "\<lparr>sim_alpha = 1, sim_alphaTarget = 0.3, sim_running = True\<rparr>"]
      drag_pins_only_the_given_node [of 0 3 4 "dragMove 0 3 4 threeHeap" "dragStart newLayout"
        "\<lparr>sim_alpha = 1, sim_alphaTarget = 0.3, sim_running = True\<rparr>"]
      s n
    by (simp add: threeHeap_def mkNode_def)
qed

named_theorems frame

lemma selectionOf_simps [frame]:
  "selectionOf (smoothLookAt x y s r) = selectionOf r"
  "selectionOf (updateSelection a n c r) = (a, n, c)"
  "selectionOf (render h ns ps l r) = selectionOf r"
  "selectionOf (toggleThemeR r) = selectionOf r"
  "selectionOf (r\<lparr>rd_stageDownPos := v\<rparr>) = selectionOf r"
  "selectionOf (r\<lparr>rd_lastStageClickTime := t\<rparr>) = selectionOf r"
  "selectionOf (r\<lparr>rd_nodesMap := m\<rparr>) = selectionOf r"
  "selectionOf (r\<lparr>rd_plateShapes := q\<rparr>) = selectionOf r"
  by (simp_all add: selectionOf_def smoothLookAt_def updateSelection_def render_def Let_def
      toggleThemeR_def)

lemma map_of_ensureSprite:
  "map_of m k = Some sp \<Longrightarrow> map_of (ensureSprite h m n) k = Some sp"
  by (auto simp: ensureSprite_def update_conv' split: option.splits)

lemma map_of_foldl_ensureSprite:
  "map_of m k = Some sp \<Longrightarrow> map_of (foldl (ensureSprite h) m ns) k = Some sp"
  by (induction ns arbitrary: m) (simp_all add: map_of_ensureSprite)

lemma nodesMap_simps [frame]:
  "rd_nodesMap (smoothLookAt x y s r) = rd_nodesMap r"
  "rd_nodesMap (updateSelection a n c r) = rd_nodesMap r"
  "rd_nodesMap (toggleThemeR r) = rd_nodesMap r"
  "rd_plateShapes (smoothLookAt x y s r) = rd_plateShapes r"
  "rd_plateShapes (updateSelection a n c r) = rd_plateShapes r"
  "rd_plateShapes (toggleThemeR r) = rd_plateShapes r"
  "rd_stageDownPos (smoothLookAt x y s r) = rd_stageDownPos r"
  "rd_stageDownPos (updateSelection a n c r) = rd_stageDownPos r"
  "rd_lastStageClickTime (smoothLookAt x y s r) = rd_lastStageClickTime r"
  "rd_lastStageClickTime (updateSelection a n c r) = rd_lastStageClickTime r"
  by (simp_all add: smoothLookAt_def updateSelection_def toggleThemeR_def)

lemma update_frame [frame]:
  "ge_heap (update D e) = ge_heap e" "ge_layout (update D e) = ge_layout e"
  "ge_reported (update D e) = ge_reported e" "ge_notices (update D e) = ge_notices e"
  "ge_isRunning (update D e) = ge_isRunning e"
  "ge_onSelectionChange (update D e) = ge_onSelectionChange e"
  "ge_selectedNodeId (update D e) = ge_selectedNodeId e"
  "ge_inputManager (update D e) = ge_inputManager e"
  "selectionOf (ge_renderer (update D e)) = selectionOf (ge_renderer e)"
  "rd_stageDownPos (ge_renderer (update D e)) = rd_stageDownPos (ge_renderer e)"
  "rd_lastStageClickTime (ge_renderer (update D e)) = rd_lastStageClickTime (ge_renderer e)"
  by (simp_all add: update_def Let_def render_def selectionOf_def)

lemma spriteAt_update:
  "spriteAt e k = Some sp \<Longrightarrow> spriteAt (update D e) k = Some sp"
  by (simp add: spriteAt_def update_def Let_def render_def map_of_foldl_ensureSprite)

lemma findNode_cong:
  "lay_nodes (ge_layout e') = lay_nodes (ge_layout e) \<Longrightarrow>
   (\<And>r. gn_id (ge_heap e' r) = gn_id (ge_heap e r)) \<Longrightarrow> findNode e' i = findNode e i"
  by (simp add: findNode_def)

lemma findNode_update [frame]: "findNode (update D e) i = findNode e i"
  by (simp add: findNode_def update_frame)

lemma notify_frame [frame]:
  "ge_heap (notify d e) = ge_heap e" "ge_layout (notify d e) = ge_layout e"
  "ge_reported (notify d e) = ge_reported e" "ge_renderer (notify d e) = ge_renderer e"
  "ge_isRunning (notify d e) = ge_isRunning e"
  "ge_onSelectionChange (notify d e) = ge_onSelectionChange e"
  by (simp_all add: notify_def)

lemma spriteAt_notify [frame]: "spriteAt (notify d e) k = spriteAt e k"
  by (simp add: spriteAt_def notify_frame)

text \<open>The engine's click handlers.\<close>

lemma handleNodeClick_frame [frame]:
  "ge_heap (handleNodeClick D i c e) = ge_heap e"
  "ge_reported (handleNodeClick D i c e) = ge_reported e"
  "ge_layout (handleNodeClick D i c e) = ge_layout e"
  "ge_isRunning (handleNodeClick D i c e) = ge_isRunning e"
  "rd_stageDownPos (ge_renderer (handleNodeClick D i c e)) = rd_stageDownPos (ge_renderer e)"
  "rd_lastStageClickTime (ge_renderer (handleNodeClick D i c e)) = rd_lastStageClickTime (ge_renderer e)"
  by (simp_all add: handleNodeClick_def Let_def frame split: option.splits)

lemma selection_handleNodeClick:
  "selectionOf (ge_renderer (handleNodeClick D i c e)) =
     (if c = 2 \<and> findNode e i \<noteq> None
      then (Some i, foldl (addNeighbors (ge_heap e) i) {} (lay_links (ge_layout e)), None)
      else selectionOf (ge_renderer e))"
  by (auto simp: handleNodeClick_def Let_def frame split: option.splits)

lemma spriteAt_handleNodeClick:
  "spriteAt e k = Some sp \<Longrightarrow> spriteAt (handleNodeClick D i c e) k = Some sp"
proof -
  assume a: "spriteAt e k = Some sp"
  have "\<And>e'. spriteAt e' k = Some sp \<Longrightarrow> spriteAt (update D e') k = Some sp"
    by (rule spriteAt_update)
  show ?thesis
    using a
    by (auto simp: handleNodeClick_def Let_def frame spriteAt_def split: option.splits
        intro!: spriteAt_update [unfolded spriteAt_def])
qed

lemma handleHullClick_frame [frame]:
  "ge_heap (handleHullClick D i c e) = ge_heap e"
  "ge_reported (handleHullClick D i c e) = ge_reported e"
  "ge_layout (handleHullClick D i c e) = ge_layout e"
  "ge_isRunning (handleHullClick D i c e) = ge_isRunning e"
  "rd_stageDownPos (ge_renderer (handleHullClick D i c e)) = rd_stageDownPos (ge_renderer e)"
  "rd_lastStageClickTime (ge_renderer (handleHullClick D i c e)) = rd_lastStageClickTime (ge_renderer e)"
  by (simp_all add: handleHullClick_def Let_def frame)

lemma selection_handleHullClick:
  "selectionOf (ge_renderer (handleHullClick D i c e)) =
     (if c = 2 then (None, {}, Some i) else selectionOf (ge_renderer e))"
  by (simp add: handleHullClick_def Let_def frame)

lemma handleHullClick_single: "c \<noteq> 2 \<Longrightarrow> handleHullClick D i c e = e"
  by (simp add: handleHullClick_def)

lemma handleNodeClick_single: "c \<noteq> 2 \<Longrightarrow> handleNodeClick D i c e = e"
  by (simp add: handleNodeClick_def)

lemma handleBackgroundClick_frame [frame]:
  "ge_heap (handleBackgroundClick D c e) = ge_heap e"
  "ge_reported (handleBackgroundClick D c e) = ge_reported e"
  "ge_layout (handleBackgroundClick D c e) = ge_layout e"
  "ge_isRunning (handleBackgroundClick D c e) = ge_isRunning e"
  "rd_stageDownPos (ge_renderer (handleBackgroundClick D c e)) = rd_stageDownPos (ge_renderer e)"
  "rd_lastStageClickTime (ge_renderer (handleBackgroundClick D c e)) = rd_lastStageClickTime (ge_renderer e)"
  by (simp_all add: handleBackgroundClick_def Let_def frame)

lemma selection_handleBackgroundClick:
  "selectionOf (ge_renderer (handleBackgroundClick D c e)) = (None, {}, None)"
  by (simp add: handleBackgroundClick_def Let_def frame)

lemma selection_resetCamera: "selectionOf (ge_renderer (resetCamera D e)) = (None, {}, None)"
  by (simp add: resetCamera_def Let_def frame)

lemma selection_toggleTheme:
  "selectionOf (ge_renderer (toggleTheme D e)) = selectionOf (ge_renderer e)"
  by (simp add: toggleTheme_def frame)

text \<open>The drag handlers change no click time, no id and no selection.\<close>

lemma dragMove_lastClick [frame]:
  "gn_lastClick (dragMove node x y h r) = gn_lastClick (h r)"
  "gn_id (dragMove node x y h r) = gn_id (h r)"
  by (simp_all add: dragMove_def Let_def)

lemma dragEnd_lastClick [frame]:
  "gn_lastClick (snd (dragEnd l node h) r) = gn_lastClick (h r)"
  "gn_id (snd (dragEnd l node h) r) = gn_id (h r)"
  "lay_nodes (fst (dragEnd l node h)) = lay_nodes l"
  "lay_links (fst (dragEnd l node h)) = lay_links l"
  by (simp_all add: dragEnd_def Let_def split: option.splits)

lemma dragStart_frame [frame]:
  "lay_nodes (dragStart l) = lay_nodes l" "lay_links (dragStart l) = lay_links l"
  by (simp_all add: dragStart_def split: option.splits)

lemma handleDragStart_frame [frame]:
  "ge_heap (handleDragStart D i e) = ge_heap e"
  "ge_reported (handleDragStart D i e) = ge_reported e"
  "ge_isRunning (handleDragStart D i e) = ge_isRunning e"
  "lay_nodes (ge_layout (handleDragStart D i e)) = lay_nodes (ge_layout e)"
  "lay_links (ge_layout (handleDragStart D i e)) = lay_links (ge_layout e)"
  "selectionOf (ge_renderer (handleDragStart D i e)) = selectionOf (ge_renderer e)"
  "rd_stageDownPos (ge_renderer (handleDragStart D i e)) = rd_stageDownPos (ge_renderer e)"
  "rd_lastStageClickTime (ge_renderer (handleDragStart D i e)) = rd_lastStageClickTime (ge_renderer e)"
  by (simp_all add: handleDragStart_def Let_def frame)

lemma handleDragMove_frame [frame]:
  "gn_lastClick (ge_heap (handleDragMove D i x y e) r) = gn_lastClick (ge_heap e r)"
  "gn_id (ge_heap (handleDragMove D i x y e) r) = gn_id (ge_heap e r)"
  "ge_reported (handleDragMove D i x y e) = ge_reported e"
  "ge_isRunning (handleDragMove D i x y e) = ge_isRunning e"
  "ge_layout (handleDragMove D i x y e) = ge_layout e"
  "selectionOf (ge_renderer (handleDragMove D i x y e)) = selectionOf (ge_renderer e)"
  "rd_stageDownPos (ge_renderer (handleDragMove D i x y e)) = rd_stageDownPos (ge_renderer e)"
  "rd_lastStageClickTime (ge_renderer (handleDragMove D i x y e)) = rd_lastStageClickTime (ge_renderer e)"
  by (simp_all add: handleDragMove_def Let_def frame split: option.splits)

lemma handleDragEnd_frame [frame]:
  "gn_lastClick (ge_heap (handleDragEnd D i e) r) = gn_lastClick (ge_heap e r)"
  "gn_id (ge_heap (handleDragEnd D i e) r) = gn_id (ge_heap e r)"
  "ge_reported (handleDragEnd D i e) = ge_reported e"
  "ge_isRunning (handleDragEnd D i e) = ge_isRunning e"
  "lay_nodes (ge_layout (handleDragEnd D i e)) = lay_nodes (ge_layout e)"
  "lay_links (ge_layout (handleDragEnd D i e)) = lay_links (ge_layout e)"
  "selectionOf (ge_renderer (handleDragEnd D i e)) = selectionOf (ge_renderer e)"
  "rd_stageDownPos (ge_renderer (handleDragEnd D i e)) = rd_stageDownPos (ge_renderer e)"
  "rd_lastStageClickTime (ge_renderer (handleDragEnd D i e)) = rd_lastStageClickTime (ge_renderer e)"
  by (simp_all add: handleDragEnd_def Let_def frame split: option.splits)

lemma spriteAt_record [frame]:
  "spriteAt (e\<lparr>ge_heap := h\<rparr>) k = spriteAt e k"
  "spriteAt (e\<lparr>ge_layout := l\<rparr>) k = spriteAt e k"
  "spriteAt (e\<lparr>ge_inputManager := im\<rparr>) k = spriteAt e k"
  "spriteAt (e\<lparr>ge_selectedNodeId := s\<rparr>) k = spriteAt e k"
  "spriteAt (e\<lparr>ge_reported := c\<rparr>) k = spriteAt e k"
  "spriteAt (e\<lparr>ge_renderer := smoothLookAt x y sc r\<rparr>) k = map_of (rd_nodesMap r) k"
  "spriteAt (e\<lparr>ge_renderer := updateSelection a n c' r\<rparr>) k = map_of (rd_nodesMap r) k"
  by (simp_all add: spriteAt_def frame)

lemma spriteAt_handleDragStart:
  "spriteAt e k = Some sp \<Longrightarrow> spriteAt (handleDragStart D i e) k = Some sp"
  by (simp add: handleDragStart_def Let_def spriteAt_update frame)

lemma spriteAt_handleDragMove:
  "spriteAt e k = Some sp \<Longrightarrow> spriteAt (handleDragMove D i x y e) k = Some sp"
  by (simp add: handleDragMove_def Let_def spriteAt_update frame split: option.splits)

lemma spriteAt_handleDragEnd:
  "spriteAt e k = Some sp \<Longrightarrow> spriteAt (handleDragEnd D i e) k = Some sp"
  by (simp add: handleDragEnd_def Let_def spriteAt_update frame split: option.splits)

lemma exclusive_selectionOf:
  "exclusive e = (fst (selectionOf (ge_renderer e)) = None \<or> snd (snd (selectionOf (ge_renderer e))) = None)"
  by (simp add: exclusive_def selectionOf_def)

lemma selection_record [frame]:
  "selectionOf (ge_renderer (report c e)) = selectionOf (ge_renderer e)"
  "selectionOf (ge_renderer (setSpriteDragging k b e)) = selectionOf (ge_renderer e)"
  "selectionOf (ge_renderer (setLastClickTime g t e)) = selectionOf (ge_renderer e)"
  "selectionOf (ge_renderer (setStageDownPos v e)) = selectionOf (ge_renderer e)"
  "selectionOf (ge_renderer (init ns ls h e)) = selectionOf (ge_renderer e)"
  "selectionOf (ge_renderer (dispose e)) = selectionOf (ge_renderer e)"
  "selectionOf (ge_renderer (onSpriteListeners k e)) = selectionOf (ge_renderer e)"
  "selectionOf (ge_renderer (offSpriteListeners k e)) = selectionOf (ge_renderer e)"
  by (simp_all add: report_def setSpriteDragging_def setLastClickTime_def setStageDownPos_def
      init_def dispose_def onSpriteListeners_def offSpriteListeners_def frame)

lemma spriteListeners_frame [frame]:
  "ge_heap (onSpriteListeners k e) = ge_heap e"
  "ge_reported (onSpriteListeners k e) = ge_reported e"
  "ge_layout (onSpriteListeners k e) = ge_layout e"
  "ge_isRunning (onSpriteListeners k e) = ge_isRunning e"
  "ge_heap (offSpriteListeners k e) = ge_heap e"
  "ge_reported (offSpriteListeners k e) = ge_reported e"
  "ge_layout (offSpriteListeners k e) = ge_layout e"
  "ge_isRunning (offSpriteListeners k e) = ge_isRunning e"
  by (simp_all add: onSpriteListeners_def offSpriteListeners_def)

lemma selection_spritePointerDown:
  "selectionOf (ge_renderer (spritePointerDown D k e)) = selectionOf (ge_renderer e)"
  by (simp add: spritePointerDown_def Let_def frame split: option.splits)

lemma selection_spriteOnMove:
  "selectionOf (ge_renderer (spriteOnMove D k x y e)) = selectionOf (ge_renderer e)"
  by (simp add: spriteOnMove_def Let_def frame split: option.splits)

lemma exclusive_spriteOnUp: "exclusive e \<Longrightarrow> exclusive (spriteOnUp D k now e)"
  by (simp add: exclusive_selectionOf spriteOnUp_def Let_def frame selection_handleNodeClick
      split: option.splits)

lemma exclusive_platePointerDown: "exclusive e \<Longrightarrow> exclusive (platePointerDown D g now e)"
  by (simp add: exclusive_selectionOf platePointerDown_def Let_def frame selection_handleHullClick
      split: option.splits)

lemma exclusive_stagePointerUp: "exclusive e \<Longrightarrow> exclusive (stagePointerUp D b pos now e)"
  by (simp add: exclusive_selectionOf stagePointerUp_def Let_def frame
      selection_handleBackgroundClick split: option.splits)

lemma exclusive_spriteOnMove: "exclusive e \<Longrightarrow> exclusive (spriteOnMove D k x y e)"
  by (simp add: exclusive_selectionOf selection_spriteOnMove)

lemma exclusive_foldl:
  assumes "\<And>k s. exclusive s \<Longrightarrow> exclusive (f k s)" and "exclusive e"
  shows "exclusive (foldl (\<lambda>s k. f k s) e ks)"
  using assms(2) by (induction ks arbitrary: e) (simp_all add: assms(1))

lemma exclusive_emit:
  "exclusive e \<Longrightarrow> (\<And>k s. exclusive s \<Longrightarrow> exclusive (f k s)) \<Longrightarrow> exclusive (emit n f e)"
  unfolding emit_def by (rule exclusive_foldl)

lemma exclusive_fire: "exclusive e \<Longrightarrow> exclusive (fire D e ev)"
proof (cases ev)
  case (SpriteMove k x y)
  assume "exclusive e"
  then show ?thesis
    unfolding SpriteMove fire.simps by (rule exclusive_emit) (rule exclusive_spriteOnMove)
next
  case (SpriteUp k now)
  assume "exclusive e"
  then show ?thesis
    unfolding SpriteUp fire.simps by (rule exclusive_emit) (rule exclusive_spriteOnUp)
next
  case (SpriteUpOutside k now)
  assume "exclusive e"
  then show ?thesis
    unfolding SpriteUpOutside fire.simps by (rule exclusive_emit) (rule exclusive_spriteOnUp)
next
  case (PlateDown g now)
  assume "exclusive e"
  then show ?thesis unfolding PlateDown fire.simps by (rule exclusive_platePointerDown)
next
  case (StageUp b pos now)
  assume "exclusive e"
  then show ?thesis unfolding StageUp fire.simps by (rule exclusive_stagePointerUp)
qed (simp_all add: exclusive_selectionOf frame selection_spritePointerDown
      selection_toggleTheme selection_resetCamera
      stagePointerDown_def stagePointerUpOutside_def)

lemma exclusive_run: "exclusive e \<Longrightarrow> exclusive (run D e evs)"
  unfolding run_def by (induction evs arbitrary: e) (simp_all add: exclusive_fire)

lemma exclusive_new: "exclusive (newGraphEngine h b)"
  by (simp add: exclusive_def newGraphEngine_def newRenderer_def)

text \<open>
  C7. A double click on a node of the layout selects it and clears the cluster
  selection; a double click on a plate selects the cluster and clears the node selection
  and the neighbour set; a background click clears all three. No event leads from a
  state with at most one of the two selections to a state with both, so after every
  sequence of events on a new engine the selection is exclusive.
\<close>

theorem selection_is_exclusive:
  "(findNode e i \<noteq> None \<longrightarrow>
      rd_selectedNodeId (ge_renderer (handleNodeClick D i 2 e)) = Some i
    \<and> rd_selectedClusterId (ge_renderer (handleNodeClick D i 2 e)) = None)
   \<and> rd_selectedClusterId (ge_renderer (handleHullClick D c 2 e)) = Some c
   \<and> rd_selectedNodeId (ge_renderer (handleHullClick D c 2 e)) = None
   \<and> rd_highlightNeighbors (ge_renderer (handleHullClick D c 2 e)) = {}
   \<and> rd_selectedNodeId (ge_renderer (handleBackgroundClick D k e)) = None
   \<and> rd_selectedClusterId (ge_renderer (handleBackgroundClick D k e)) = None
   \<and> rd_highlightNeighbors (ge_renderer (handleBackgroundClick D k e)) = {}
   \<and> (exclusive e \<longrightarrow> exclusive (fire D e ev))
   \<and> exclusive (run D (newGraphEngine h listening) evs)"
  using selection_handleNodeClick [of D i 2 e] selection_handleHullClick [of D c 2 e]
    selection_handleBackgroundClick [of D k e] exclusive_fire [of e D ev]
    exclusive_run [OF exclusive_new, of D h listening evs]
  by (auto simp: selectionOf_def split: if_splits)

lemma spriteAt_setSpriteDragging:
  "spriteAt (setSpriteDragging k b e) k' =
     (if k' = k then map_option (\<lambda>sp. sp\<lparr>sp_isDragging := b\<rparr>) (spriteAt e k) else spriteAt e k')"
  by (auto simp: spriteAt_def setSpriteDragging_def map_of_map_entry split: option.splits)

lemma setSpriteDragging_frame [frame]:
  "ge_heap (setSpriteDragging k b e) = ge_heap e"
  "ge_reported (setSpriteDragging k b e) = ge_reported e"
  "ge_layout (setSpriteDragging k b e) = ge_layout e"
  "ge_isRunning (setSpriteDragging k b e) = ge_isRunning e"
  by (simp_all add: setSpriteDragging_def)

lemma report_frame [frame]:
  "ge_heap (report c e) = ge_heap e"
  "ge_reported (report c e) = ge_reported e @ [c]"
  "ge_layout (report c e) = ge_layout e"
  "ge_renderer (report c e) = ge_renderer e"
  "ge_isRunning (report c e) = ge_isRunning e"
  "spriteAt (report c e) k = spriteAt e k"
  "findNode (report c e) i = findNode e i"
  by (simp_all add: report_def spriteAt_def findNode_def)

lemma spriteAt_onSpriteListeners:
  "spriteAt (onSpriteListeners k e) k' =
     (if k' = k
      then map_option
             (\<lambda>sp. sp\<lparr>sp_globalpointermove := sp_globalpointermove sp + 1,
                       sp_pointerup := sp_pointerup sp + 1,
                       sp_pointerupoutside := sp_pointerupoutside sp + 1\<rparr>) (spriteAt e k)
      else spriteAt e k')"
  by (auto simp: spriteAt_def onSpriteListeners_def map_of_map_entry split: option.splits)

lemma spriteAt_offSpriteListeners:
  "spriteAt (offSpriteListeners k e) k' =
     (if k' = k then map_option released (spriteAt e k) else spriteAt e k')"
  by (auto simp: spriteAt_def offSpriteListeners_def map_of_map_entry released_def
      split: option.splits)

lemma findNode_frame [frame]:
  "findNode (onSpriteListeners k e) i = findNode e i"
  "findNode (offSpriteListeners k e) i = findNode e i"
  "findNode (setSpriteDragging k b e) i = findNode e i"
  "findNode (handleDragStart D j e) i = findNode e i"
  "findNode (handleDragEnd D j e) i = findNode e i"
  "findNode (handleNodeClick D j c e) i = findNode e i"
  by (simp_all add: findNode_def frame)

lemma spritePointerDown_frame:
  "ge_heap (spritePointerDown D k e) = ge_heap e"
  "ge_reported (spritePointerDown D k e) = ge_reported e"
  "findNode (spritePointerDown D k e) i = findNode e i"
  "rd_selectedNodeId (ge_renderer (spritePointerDown D k e)) = rd_selectedNodeId (ge_renderer e)"
  using selection_spritePointerDown [of D k e]
  by (simp_all add: spritePointerDown_def Let_def frame selectionOf_def split: option.splits)

lemma spriteAt_spritePointerDown:
  assumes "spriteAt e k' = Some sp"
  shows "spriteAt (spritePointerDown D k e) k' = Some (if k' = k then pressed sp else sp)"
proof (cases "spriteAt e k")
  case None
  then have "k' \<noteq> k" using assms by auto
  then show ?thesis
    using None assms by (simp add: spritePointerDown_def spriteAt_def [symmetric])
next
  case (Some s)
  define e1 where "e1 = setSpriteDragging k False e"
  define e2 where "e2 = handleDragStart D (gn_id (ge_heap e1 (sp_node s))) e1"
  have 1: "spriteAt e1 k' = Some (if k' = k then sp\<lparr>sp_isDragging := False\<rparr> else sp)"
    unfolding e1_def using assms by (auto simp: spriteAt_setSpriteDragging)
  have 2: "spriteAt e2 k' = Some (if k' = k then sp\<lparr>sp_isDragging := False\<rparr> else sp)"
    unfolding e2_def using 1 by (rule spriteAt_handleDragStart)
  have 3: "spriteAt e2 k = Some (sp\<lparr>sp_isDragging := False\<rparr>)" if "k' = k"
    using 2 that by simp
  have "spriteAt (onSpriteListeners k e2) k' = Some (if k' = k then pressed sp else sp)"
    using 2 3 by (auto simp: spriteAt_onSpriteListeners pressed_def)
  then show ?thesis
    using Some
    by (simp add: spritePointerDown_def spriteAt_def [symmetric] Let_def e2_def e1_def
        del: if_split)
qed

lemma reported_spriteOnUp:
  assumes "spriteAt e k = Some sp" and "\<not> sp_isDragging sp"
  shows "ge_reported (spriteOnUp D k now e) =
           ge_reported e @ [ClickNode (gn_id (ge_heap e (sp_node sp)))
                             (nodeClickCount now (gn_lastClick (ge_heap e (sp_node sp))))]"
  using assms by (simp add: spriteOnUp_def spriteAt_def [symmetric] Let_def frame)

lemma lastClick_spriteOnUp:
  assumes "spriteAt e k = Some sp" and "\<not> sp_isDragging sp"
  shows "gn_lastClick (ge_heap (spriteOnUp D k now e) r) =
           (if r = sp_node sp then Some now else gn_lastClick (ge_heap e r))"
    and "gn_id (ge_heap (spriteOnUp D k now e) r) = gn_id (ge_heap e r)"
  using assms by (simp_all add: spriteOnUp_def spriteAt_def [symmetric] Let_def frame)

lemma findNode_spriteOnUp: "findNode (spriteOnUp D k now e) i = findNode e i"
proof (rule findNode_cong)
  show "lay_nodes (ge_layout (spriteOnUp D k now e)) = lay_nodes (ge_layout e)"
    by (simp add: spriteOnUp_def Let_def frame split: option.splits)
  show "gn_id (ge_heap (spriteOnUp D k now e) r) = gn_id (ge_heap e r)" for r
    by (simp add: spriteOnUp_def Let_def frame split: option.splits)
qed

lemma selectedNode_spriteOnUp:
  assumes "spriteAt e k = Some sp" and "\<not> sp_isDragging sp"
  shows "rd_selectedNodeId (ge_renderer (spriteOnUp D k now e)) =
           (if nodeClickCount now (gn_lastClick (ge_heap e (sp_node sp))) = 2
               \<and> findNode e (gn_id (ge_heap e (sp_node sp))) \<noteq> None
            then Some (gn_id (ge_heap e (sp_node sp)))
            else rd_selectedNodeId (ge_renderer e))"
proof -
  have sel: "rd_selectedNodeId r = fst (selectionOf r)" for r
    by (simp add: selectionOf_def)
  show ?thesis
    unfolding sel using assms
    by (auto simp: spriteOnUp_def spriteAt_def [symmetric] Let_def frame selection_handleNodeClick)
qed

lemma spriteAt_spriteOnUp:
  assumes "spriteAt e k' = Some sp'"
  shows "spriteAt (spriteOnUp D k now e) k' = Some (if k' = k then released sp' else sp')"
proof (cases "spriteAt e k")
  case None
  then have "k' \<noteq> k" using assms by auto
  then show ?thesis using None assms by (simp add: spriteOnUp_def spriteAt_def [symmetric])
next
  case (Some sp)
  define e0 where "e0 = offSpriteListeners k e"
  define r where "r = (if k' = k then released sp' else sp')"
  have 0: "spriteAt e0 k' = Some r"
    unfolding e0_def r_def using assms by (auto simp: spriteAt_offSpriteListeners)
  have 1: "spriteAt (handleDragEnd D (gn_id (ge_heap e0 (sp_node sp))) e0) k' = Some r"
    using 0 by (rule spriteAt_handleDragEnd)
  have "spriteAt (spriteOnUp D k now e) k' = Some r"
    using Some 1
    by (simp add: spriteOnUp_def spriteAt_def [symmetric] Let_def frame spriteAt_handleNodeClick
        e0_def)
  then show ?thesis by (simp only: r_def)
qed

lemma nodeClickCount_double:
  "(nodeClickCount now lastClick = 2) = (\<exists>l. lastClick = Some l \<and> l \<noteq> 0 \<and> now - l < 300)"
  by (simp add: nodeClickCount_def split: option.splits)

lemma nodeClickCount_single:
  "(nodeClickCount now lastClick = 1) = (\<not> (\<exists>l. lastClick = Some l \<and> l \<noteq> 0 \<and> now - l < 300))"
  by (simp add: nodeClickCount_def split: option.splits)

text \<open>The calls an event on a sprite makes.\<close>

lemma emit_simps:
  "emit 0 f e = e" "emit (Suc 0) f e = f 0 e" "emit 2 f e = f (Suc 0) (f 0 e)"
  by (simp_all add: emit_def numeral_2_eq_2)

lemma listenerCount_spriteAt: "spriteAt e k = Some sp \<Longrightarrow> listenerCount r k e = r sp"
  by (simp add: listenerCount_def spriteAt_def)

lemma pressed_simps:
  "sp_node (pressed sp) = sp_node sp" "\<not> sp_isDragging (pressed sp)"
  "sp_pointerup (pressed sp) = sp_pointerup sp + 1"
  "sp_pointerupoutside (pressed sp) = sp_pointerupoutside sp + 1"
  "sp_node (released sp) = sp_node sp" "sp_isDragging (released sp) = sp_isDragging sp"
  "sp_pointerup (released sp) = 0" "sp_pointerupoutside (released sp) = 0"
  by (simp_all add: pressed_def released_def)

lemma press_and_release:
  assumes "spriteAt e k = Some sp" and "sp_pointerup sp = 0"
  shows "run D e [SpriteDown k, SpriteUp k now] = spriteOnUp D k (now 0) (spritePointerDown D k e)"
proof -
  have "spriteAt (spritePointerDown D k e) k = Some (pressed sp)"
    using spriteAt_spritePointerDown [OF assms(1), of D k] by simp
  then have "listenerCount sp_pointerup k (spritePointerDown D k e) = Suc 0"
    using assms(2) by (simp add: listenerCount_spriteAt pressed_simps)
  then show ?thesis by (simp add: run_def emit_simps)
qed

lemma two_presses_and_release:
  assumes "spriteAt e k = Some sp" and "sp_pointerup sp = 0"
  shows "run D e [SpriteDown k, SpriteDown k, SpriteUp k now] =
           spriteOnUp D k (now (Suc 0))
             (spriteOnUp D k (now 0) (spritePointerDown D k (spritePointerDown D k e)))"
proof -
  have 1: "spriteAt (spritePointerDown D k e) k = Some (pressed sp)"
    using spriteAt_spritePointerDown [OF assms(1), of D k] by simp
  have "spriteAt (spritePointerDown D k (spritePointerDown D k e)) k = Some (pressed (pressed sp))"
    using spriteAt_spritePointerDown [OF 1, of D k] by simp
  then have "listenerCount sp_pointerup k (spritePointerDown D k (spritePointerDown D k e)) = 2"
    using assms(2) by (simp add: listenerCount_spriteAt pressed_simps)
  then show ?thesis by (simp add: run_def emit_simps)
qed

lemma two_clicks_on_sprites:
  assumes a: "spriteAt e ka = Some spa" and b: "spriteAt e kb = Some spb"
    and za: "sp_pointerup spa = 0" and zb: "sp_pointerup spb = 0"
  shows "ge_reported (run D e [SpriteDown ka, SpriteUp ka now1, SpriteDown kb, SpriteUp kb now2]) =
           ge_reported e @
             [ClickNode (gn_id (ge_heap e (sp_node spa)))
                (nodeClickCount (now1 0) (gn_lastClick (ge_heap e (sp_node spa)))),
              ClickNode (gn_id (ge_heap e (sp_node spb)))
                (nodeClickCount (now2 0) (if sp_node spb = sp_node spa then Some (now1 0)
                                          else gn_lastClick (ge_heap e (sp_node spb))))]"
proof -
  define e1 where "e1 = spritePointerDown D ka e"
  define e2 where "e2 = spriteOnUp D ka (now1 0) e1"
  define e3 where "e3 = spritePointerDown D kb e2"
  define e4 where "e4 = spriteOnUp D kb (now2 0) e3"
  have s2: "run D e [SpriteDown ka, SpriteUp ka now1] = e2"
    unfolding e2_def e1_def using a za by (rule press_and_release)
  have a1: "spriteAt e1 ka = Some (pressed spa)"
    unfolding e1_def using spriteAt_spritePointerDown [OF a, of D ka] by simp
  obtain sb1 where b1: "spriteAt e1 kb = Some sb1" and nb1: "sp_node sb1 = sp_node spb"
    unfolding e1_def using spriteAt_spritePointerDown [OF b, of D ka]
    by (cases "kb = ka") (simp_all add: pressed_simps)
  have r1: "ge_reported e1 = ge_reported e" and h1: "ge_heap e1 = ge_heap e"
    unfolding e1_def by (simp_all add: spritePointerDown_frame)
  have r2: "ge_reported e2 = ge_reported e @
       [ClickNode (gn_id (ge_heap e (sp_node spa)))
          (nodeClickCount (now1 0) (gn_lastClick (ge_heap e (sp_node spa))))]"
    unfolding e2_def using reported_spriteOnUp [OF a1, of D "now1 0"]
    by (simp add: r1 h1 pressed_simps)
  have l2: "gn_lastClick (ge_heap e2 r) =
              (if r = sp_node spa then Some (now1 0) else gn_lastClick (ge_heap e r))"
    and i2: "gn_id (ge_heap e2 r) = gn_id (ge_heap e r)" for r
    unfolding e2_def using lastClick_spriteOnUp [OF a1, of D "now1 0" r]
    by (simp_all add: h1 pressed_simps)
  obtain sb2 where b2: "spriteAt e2 kb = Some sb2" and nb2: "sp_node sb2 = sp_node spb"
    and zb2: "sp_pointerup sb2 = 0"
  proof (cases "kb = ka")
    case True
    then have "spriteAt e2 kb = Some (released (pressed spa))"
      unfolding e2_def using spriteAt_spriteOnUp [OF a1, of D ka "now1 0"] by simp
    moreover have "spa = spb" using True a b by simp
    ultimately show ?thesis using that by (simp add: pressed_simps)
  next
    case False
    then have "sb1 = spb"
      using b1 spriteAt_spritePointerDown [OF b, of D ka] by (simp add: e1_def)
    moreover have "spriteAt e2 kb = Some sb1"
      unfolding e2_def using spriteAt_spriteOnUp [OF b1, of D ka "now1 0"] False by simp
    ultimately show ?thesis using that zb by simp
  qed
  have s4: "run D e2 [SpriteDown kb, SpriteUp kb now2] = e4"
    unfolding e4_def e3_def using b2 zb2 by (rule press_and_release)
  have b3: "spriteAt e3 kb = Some (pressed sb2)"
    unfolding e3_def using spriteAt_spritePointerDown [OF b2, of D kb] by simp
  have r3: "ge_reported e3 = ge_reported e2" and h3: "ge_heap e3 = ge_heap e2"
    unfolding e3_def by (simp_all add: spritePointerDown_frame)
  have "ge_reported e4 = ge_reported e3 @
       [ClickNode (gn_id (ge_heap e3 (sp_node spb)))
          (nodeClickCount (now2 0) (gn_lastClick (ge_heap e3 (sp_node spb))))]"
    unfolding e4_def using reported_spriteOnUp [OF b3, of D "now2 0"]
    by (simp add: nb2 pressed_simps)
  then have "ge_reported e4 = ge_reported e @
             [ClickNode (gn_id (ge_heap e (sp_node spa)))
                (nodeClickCount (now1 0) (gn_lastClick (ge_heap e (sp_node spa)))),
              ClickNode (gn_id (ge_heap e (sp_node spb)))
                (nodeClickCount (now2 0) (if sp_node spb = sp_node spa then Some (now1 0)
                                          else gn_lastClick (ge_heap e (sp_node spb))))]"
    by (simp add: r3 h3 r2 l2 i2)
  moreover have "run D e [SpriteDown ka, SpriteUp ka now1, SpriteDown kb, SpriteUp kb now2] = e4"
    using s2 s4 by (simp add: run_def)
  ultimately show ?thesis by simp
qed

lemma release_after_two_presses:
  assumes a: "spriteAt e k = Some sp" and z: "sp_pointerup sp = 0"
  shows "ge_reported (run D e [SpriteDown k, SpriteDown k, SpriteUp k now]) =
           ge_reported e @
             [ClickNode (gn_id (ge_heap e (sp_node sp)))
                (nodeClickCount (now 0) (gn_lastClick (ge_heap e (sp_node sp)))),
              ClickNode (gn_id (ge_heap e (sp_node sp)))
                (nodeClickCount (now (Suc 0)) (Some (now 0)))]"
    and "nodeClickCount (now (Suc 0)) (Some (now 0)) = 2 \<Longrightarrow>
         findNode e (gn_id (ge_heap e (sp_node sp))) \<noteq> None \<Longrightarrow>
         rd_selectedNodeId (ge_renderer (run D e [SpriteDown k, SpriteDown k, SpriteUp k now]))
           = Some (gn_id (ge_heap e (sp_node sp)))"
proof -
  define e2 where "e2 = spritePointerDown D k (spritePointerDown D k e)"
  define e3 where "e3 = spriteOnUp D k (now 0) e2"
  define e4 where "e4 = spriteOnUp D k (now (Suc 0)) e3"
  have s: "run D e [SpriteDown k, SpriteDown k, SpriteUp k now] = e4"
    unfolding e4_def e3_def e2_def using a z by (rule two_presses_and_release)
  have 1: "spriteAt (spritePointerDown D k e) k = Some (pressed sp)"
    using spriteAt_spritePointerDown [OF a, of D k] by simp
  have a2: "spriteAt e2 k = Some (pressed (pressed sp))"
    unfolding e2_def using spriteAt_spritePointerDown [OF 1, of D k] by simp
  have r2: "ge_reported e2 = ge_reported e" and h2: "ge_heap e2 = ge_heap e"
    and f2: "findNode e2 i = findNode e i" for i
    unfolding e2_def by (simp_all add: spritePointerDown_frame)
  have a3: "spriteAt e3 k = Some (released (pressed (pressed sp)))"
    unfolding e3_def using spriteAt_spriteOnUp [OF a2, of D k "now 0"] by simp
  have r3: "ge_reported e3 = ge_reported e @
       [ClickNode (gn_id (ge_heap e (sp_node sp)))
          (nodeClickCount (now 0) (gn_lastClick (ge_heap e (sp_node sp))))]"
    unfolding e3_def using reported_spriteOnUp [OF a2, of D "now 0"]
    by (simp add: r2 h2 pressed_simps)
  have l3: "gn_lastClick (ge_heap e3 (sp_node sp)) = Some (now 0)"
    and i3: "gn_id (ge_heap e3 r) = gn_id (ge_heap e r)" for r
    unfolding e3_def using lastClick_spriteOnUp [OF a2, of D "now 0"]
    by (simp_all add: h2 pressed_simps)
  have f3: "findNode e3 i = findNode e i" for i
    unfolding e3_def by (simp add: findNode_spriteOnUp f2)
  have "ge_reported e4 = ge_reported e3 @
       [ClickNode (gn_id (ge_heap e3 (sp_node sp)))
          (nodeClickCount (now (Suc 0)) (gn_lastClick (ge_heap e3 (sp_node sp))))]"
    unfolding e4_def using reported_spriteOnUp [OF a3, of D "now (Suc 0)"]
    by (simp add: pressed_simps)
  then show "ge_reported (run D e [SpriteDown k, SpriteDown k, SpriteUp k now]) =
           ge_reported e @
             [ClickNode (gn_id (ge_heap e (sp_node sp)))
                (nodeClickCount (now 0) (gn_lastClick (ge_heap e (sp_node sp)))),
              ClickNode (gn_id (ge_heap e (sp_node sp)))
                (nodeClickCount (now (Suc 0)) (Some (now 0)))]"
    by (simp add: s r3 l3 i3)
  assume "nodeClickCount (now (Suc 0)) (Some (now 0)) = 2"
    and "findNode e (gn_id (ge_heap e (sp_node sp))) \<noteq> None"
  then show "rd_selectedNodeId (ge_renderer (run D e [SpriteDown k, SpriteDown k, SpriteUp k now]))
           = Some (gn_id (ge_heap e (sp_node sp)))"
    unfolding s e4_def using selectedNode_spriteOnUp [OF a3, of D "now (Suc 0)"]
    by (simp add: pressed_simps l3 i3 f3)
qed

text \<open>Plate shapes.\<close>

lemma find_map_update:
  "List.find (\<lambda>s. ps_ref s = g) (map (\<lambda>s. if ps_ref s = g then s\<lparr>ps_lastClickTime := t\<rparr> else s) xs)
     = map_option (\<lambda>s. s\<lparr>ps_lastClickTime := t\<rparr>) (List.find (\<lambda>s. ps_ref s = g) xs)"
  by (induction xs) simp_all

lemma shapeAt_setLastClickTime:
  "shapeAt (setLastClickTime g t e) g = map_option (\<lambda>s. s\<lparr>ps_lastClickTime := t\<rparr>) (shapeAt e g)"
  by (simp add: shapeAt_def setLastClickTime_def find_map_update)

lemma setLastClickTime_frame [frame]:
  "ge_heap (setLastClickTime g t e) = ge_heap e"
  "ge_reported (setLastClickTime g t e) = ge_reported e"
  "ge_layout (setLastClickTime g t e) = ge_layout e"
  by (simp_all add: setLastClickTime_def)

lemma reported_platePointerDown:
  assumes "shapeAt e g = Some sh"
  shows "ge_reported (platePointerDown D g now e) =
           ge_reported e @ [ClickHull (hull_id (ps_plate sh))
                             (windowClickCount now (ps_lastClickTime sh))]"
  using assms by (simp add: platePointerDown_def shapeAt_def [symmetric] Let_def frame)

lemma platePointerDown_single:
  assumes "shapeAt e g = Some sh" and "\<not> now - ps_lastClickTime sh < 300"
  shows "platePointerDown D g now e
           = setLastClickTime g now (report (ClickHull (hull_id (ps_plate sh)) 1) e)"
  using assms
  by (simp add: platePointerDown_def shapeAt_def [symmetric] Let_def windowClickCount_def
      handleHullClick_single)

lemma shapeAt_report [frame]: "shapeAt (report c e) g = shapeAt e g"
  by (simp add: shapeAt_def report_def)

lemma two_presses_on_plate:
  assumes s: "shapeAt e g = Some sh" and t1: "\<not> t1 - ps_lastClickTime sh < 300"
    and t2: "t2 - t1 < 300"
  shows "ge_reported (run D e [PlateDown g t1, PlateDown g t2]) =
           ge_reported e @ [ClickHull (hull_id (ps_plate sh)) 1, ClickHull (hull_id (ps_plate sh)) 2]"
proof -
  define e1 where "e1 = platePointerDown D g t1 e"
  have e1: "e1 = setLastClickTime g t1 (report (ClickHull (hull_id (ps_plate sh)) 1) e)"
    unfolding e1_def using s t1 by (rule platePointerDown_single)
  have s1: "shapeAt e1 g = Some (sh\<lparr>ps_lastClickTime := t1\<rparr>)"
    by (simp add: e1 shapeAt_setLastClickTime frame s)
  have "ge_reported (platePointerDown D g t2 e1) =
          ge_reported e1 @ [ClickHull (hull_id (ps_plate sh)) 2]"
    using reported_platePointerDown [OF s1, of D t2] t2 by (simp add: windowClickCount_def)
  then show ?thesis
    by (simp add: run_def e1_def [symmetric]) (simp add: e1 frame)
qed

text \<open>The stage.\<close>

lemma stagePointerUp_click:
  assumes "rd_stageDownPos (ge_renderer e) = Some down"
    and "hypot (fst pos - fst down) (snd pos - snd down) < 5"
  shows "ge_reported (stagePointerUp D True pos now e) =
           ge_reported e @ [ClickBackground
                             (windowClickCount now (rd_lastStageClickTime (ge_renderer e)))]"
    and "rd_lastStageClickTime (ge_renderer (stagePointerUp D True pos now e)) = now"
  using assms by (simp_all add: stagePointerUp_def Let_def setStageDownPos_def frame)

lemma hypot_zero [simp]: "hypot 0 0 = 0"
  by (simp add: hypot_def)

lemma two_clicks_on_stage:
  "ge_reported (run D e [StageDown True p, StageUp True p t1, StageDown True p, StageUp True p t2]) =
     ge_reported e @
       [ClickBackground (windowClickCount t1 (rd_lastStageClickTime (ge_renderer e))),
        ClickBackground (windowClickCount t2 t1)]"
proof -
  define e1 where "e1 = stagePointerDown True p e"
  define e2 where "e2 = stagePointerUp D True p t1 e1"
  define e3 where "e3 = stagePointerDown True p e2"
  have d1: "rd_stageDownPos (ge_renderer e1) = Some p"
    and r1: "ge_reported e1 = ge_reported e"
    and l1: "rd_lastStageClickTime (ge_renderer e1) = rd_lastStageClickTime (ge_renderer e)"
    by (simp_all add: e1_def stagePointerDown_def setStageDownPos_def)
  have r2: "ge_reported e2 = ge_reported e @
       [ClickBackground (windowClickCount t1 (rd_lastStageClickTime (ge_renderer e)))]"
    and l2: "rd_lastStageClickTime (ge_renderer e2) = t1"
    unfolding e2_def using stagePointerUp_click [OF d1, of p D t1] by (simp_all add: r1 l1)
  have d3: "rd_stageDownPos (ge_renderer e3) = Some p"
    and r3: "ge_reported e3 = ge_reported e2"
    and l3: "rd_lastStageClickTime (ge_renderer e3) = rd_lastStageClickTime (ge_renderer e2)"
    by (simp_all add: e3_def stagePointerDown_def setStageDownPos_def)
  have "ge_reported (stagePointerUp D True p t2 e3) =
          ge_reported e3 @ [ClickBackground (windowClickCount t2 t1)]"
    using stagePointerUp_click(1) [OF d3, of p D t2] by (simp add: l3 l2)
  then show ?thesis
    by (simp add: run_def e3_def [symmetric] e2_def [symmetric] e1_def [symmetric] r3 r2)
qed

text \<open>
  Each shape compares the time of a click with its own recorded click time.
  \<^item> One call of \<open>onUp\<close> for a node that was not dragged reports a click on it with count
    \<open>nodeClickCount\<close>: 2 exactly when the node has a recorded click time other than 0 and
    \<open>now\<close> is less than 300 ms after it; the node's click time becomes \<open>now\<close>, and no
    other node's click time changes.
  \<^item> Pressing a plate shape reports count 2 exactly when \<open>now\<close> is less than 300 ms after
    the click time of that shape, and a background click likewise with the stage's own
    click time.
  \<^item> When \<open>onUp\<close> is not registered on a sprite and the sprite is pressed and released
    twice, the first time at a time other than 0 and the second less than 300 ms later,
    the second release reports a double click; a press and release on each of two
    sprites of different nodes, neither with \<open>onUp\<close> registered, report for each node
    the count its own click time gives (two single clicks when neither was clicked
    before), however close together they are. Two presses on one plate shape and two
    clicks on the background report a single and then a double click likewise.
  \<^item> A click on a node or a plate with a count other than 2 leaves the whole engine
    state, the selection included, as it was.
\<close>

lemma click_counts:
  "(spriteAt e k = Some sp \<and> \<not> sp_isDragging sp \<longrightarrow>
      ge_reported (spriteOnUp D k now e) =
        ge_reported e @ [ClickNode (gn_id (ge_heap e (sp_node sp)))
                          (nodeClickCount now (gn_lastClick (ge_heap e (sp_node sp))))]
    \<and> gn_lastClick (ge_heap (spriteOnUp D k now e) (sp_node sp)) = Some now
    \<and> (\<forall>r. r \<noteq> sp_node sp \<longrightarrow>
          gn_lastClick (ge_heap (spriteOnUp D k now e) r) = gn_lastClick (ge_heap e r)))
   \<and> (nodeClickCount now lastClick = 2) = (\<exists>l. lastClick = Some l \<and> l \<noteq> 0 \<and> now - l < 300)
   \<and> (nodeClickCount now lastClick = 1) = (\<not> (\<exists>l. lastClick = Some l \<and> l \<noteq> 0 \<and> now - l < 300))
   \<and> (shapeAt e g = Some sh \<longrightarrow>
        ge_reported (platePointerDown D g now e) =
          ge_reported e @ [ClickHull (hull_id (ps_plate sh))
                            (if now - ps_lastClickTime sh < 300 then 2 else 1)])
   \<and> (rd_stageDownPos (ge_renderer e) = Some down
        \<and> hypot (fst pos - fst down) (snd pos - snd down) < 5 \<longrightarrow>
        ge_reported (stagePointerUp D True pos now e) =
          ge_reported e @ [ClickBackground
                            (if now - rd_lastStageClickTime (ge_renderer e) < 300 then 2 else 1)]
      \<and> rd_lastStageClickTime (ge_renderer (stagePointerUp D True pos now e)) = now)
   \<and> (spriteAt e ka = Some spa \<and> sp_pointerup spa = 0 \<and> t1 \<noteq> 0 \<and> t2 - t1 < 300 \<longrightarrow>
        ge_reported (run D e [SpriteDown ka, SpriteUp ka (\<lambda>k. t1),
                              SpriteDown ka, SpriteUp ka (\<lambda>k. t2)]) =
          ge_reported e @
            [ClickNode (gn_id (ge_heap e (sp_node spa)))
               (nodeClickCount t1 (gn_lastClick (ge_heap e (sp_node spa)))),
             ClickNode (gn_id (ge_heap e (sp_node spa))) 2])
   \<and> (spriteAt e ka = Some spa \<and> spriteAt e kb = Some spb \<and> sp_node spa \<noteq> sp_node spb
        \<and> sp_pointerup spa = 0 \<and> sp_pointerup spb = 0 \<longrightarrow>
        ge_reported (run D e [SpriteDown ka, SpriteUp ka (\<lambda>k. t1),
                              SpriteDown kb, SpriteUp kb (\<lambda>k. t2)]) =
          ge_reported e @
            [ClickNode (gn_id (ge_heap e (sp_node spa)))
               (nodeClickCount t1 (gn_lastClick (ge_heap e (sp_node spa)))),
             ClickNode (gn_id (ge_heap e (sp_node spb)))
               (nodeClickCount t2 (gn_lastClick (ge_heap e (sp_node spb))))])
   \<and> (shapeAt e g = Some sh \<and> \<not> t1 - ps_lastClickTime sh < 300 \<and> t2 - t1 < 300 \<longrightarrow>
        ge_reported (run D e [PlateDown g t1, PlateDown g t2]) =
          ge_reported e @ [ClickHull (hull_id (ps_plate sh)) 1, ClickHull (hull_id (ps_plate sh)) 2])
   \<and> (t2 - t1 < 300 \<longrightarrow>
        ge_reported (run D e [StageDown True p, StageUp True p t1,
                              StageDown True p, StageUp True p t2]) =
          ge_reported e @
            [ClickBackground (if t1 - rd_lastStageClickTime (ge_renderer e) < 300 then 2 else 1),
             ClickBackground 2])
   \<and> (c \<noteq> 2 \<longrightarrow> handleNodeClick D i c e = e \<and> handleHullClick D i c e = e)"
proof (intro conjI impI allI; (elim conjE)?)
  show "(nodeClickCount now lastClick = 2) = (\<exists>l. lastClick = Some l \<and> l \<noteq> 0 \<and> now - l < 300)"
    by (rule nodeClickCount_double)
  show "(nodeClickCount now lastClick = 1) = (\<not> (\<exists>l. lastClick = Some l \<and> l \<noteq> 0 \<and> now - l < 300))"
    by (rule nodeClickCount_single)
next
  assume "spriteAt e k = Some sp" "\<not> sp_isDragging sp"
  then show "ge_reported (spriteOnUp D k now e) =
        ge_reported e @ [ClickNode (gn_id (ge_heap e (sp_node sp)))
                          (nodeClickCount now (gn_lastClick (ge_heap e (sp_node sp))))]"
    by (rule reported_spriteOnUp)
next
  assume "spriteAt e k = Some sp" "\<not> sp_isDragging sp"
  then show "gn_lastClick (ge_heap (spriteOnUp D k now e) (sp_node sp)) = Some now"
    by (simp add: lastClick_spriteOnUp)
next
  fix r
  assume "spriteAt e k = Some sp" "\<not> sp_isDragging sp" "r \<noteq> sp_node sp"
  then show "gn_lastClick (ge_heap (spriteOnUp D k now e) r) = gn_lastClick (ge_heap e r)"
    by (simp add: lastClick_spriteOnUp)
next
  assume "shapeAt e g = Some sh"
  then show "ge_reported (platePointerDown D g now e) =
          ge_reported e @ [ClickHull (hull_id (ps_plate sh))
                            (if now - ps_lastClickTime sh < 300 then 2 else 1)]"
    by (simp add: reported_platePointerDown windowClickCount_def)
next
  assume "rd_stageDownPos (ge_renderer e) = Some down"
    "hypot (fst pos - fst down) (snd pos - snd down) < 5"
  then show "ge_reported (stagePointerUp D True pos now e) =
          ge_reported e @ [ClickBackground
                            (if now - rd_lastStageClickTime (ge_renderer e) < 300 then 2 else 1)]"
    by (simp add: stagePointerUp_click windowClickCount_def)
next
  assume "rd_stageDownPos (ge_renderer e) = Some down"
    "hypot (fst pos - fst down) (snd pos - snd down) < 5"
  then show "rd_lastStageClickTime (ge_renderer (stagePointerUp D True pos now e)) = now"
    by (rule stagePointerUp_click)
next
  assume "spriteAt e ka = Some spa" "sp_pointerup spa = 0" "t1 \<noteq> 0" "t2 - t1 < 300"
  then show "ge_reported (run D e [SpriteDown ka, SpriteUp ka (\<lambda>k. t1),
                              SpriteDown ka, SpriteUp ka (\<lambda>k. t2)]) =
          ge_reported e @
            [ClickNode (gn_id (ge_heap e (sp_node spa)))
               (nodeClickCount t1 (gn_lastClick (ge_heap e (sp_node spa)))),
             ClickNode (gn_id (ge_heap e (sp_node spa))) 2]"
    using two_clicks_on_sprites [of e ka spa ka spa D "\<lambda>k. t1" "\<lambda>k. t2"]
    by (simp add: nodeClickCount_def)
next
  assume "spriteAt e ka = Some spa" "spriteAt e kb = Some spb" "sp_node spa \<noteq> sp_node spb"
    "sp_pointerup spa = 0" "sp_pointerup spb = 0"
  then show "ge_reported (run D e [SpriteDown ka, SpriteUp ka (\<lambda>k. t1),
                              SpriteDown kb, SpriteUp kb (\<lambda>k. t2)]) =
          ge_reported e @
            [ClickNode (gn_id (ge_heap e (sp_node spa)))
               (nodeClickCount t1 (gn_lastClick (ge_heap e (sp_node spa)))),
             ClickNode (gn_id (ge_heap e (sp_node spb)))
               (nodeClickCount t2 (gn_lastClick (ge_heap e (sp_node spb))))]"
    using two_clicks_on_sprites [of e ka spa kb spb D "\<lambda>k. t1" "\<lambda>k. t2"] by auto
next
  assume "shapeAt e g = Some sh" "\<not> t1 - ps_lastClickTime sh < 300" "t2 - t1 < 300"
  then show "ge_reported (run D e [PlateDown g t1, PlateDown g t2]) =
          ge_reported e @ [ClickHull (hull_id (ps_plate sh)) 1, ClickHull (hull_id (ps_plate sh)) 2]"
    by (rule two_presses_on_plate)
next
  assume "t2 - t1 < 300"
  then show "ge_reported (run D e [StageDown True p, StageUp True p t1,
                              StageDown True p, StageUp True p t2]) =
          ge_reported e @
            [ClickBackground (if t1 - rd_lastStageClickTime (ge_renderer e) < 300 then 2 else 1),
             ClickBackground 2]"
    by (simp add: two_clicks_on_stage windowClickCount_def)
next
  assume "c \<noteq> 2"
  then show "handleNodeClick D i c e = e" by (rule handleNodeClick_single)
next
  assume "c \<noteq> 2"
  then show "handleHullClick D i c e = e" by (rule handleHullClick_single)
qed

lemma map_threeHeap: "[threeHeap 0, threeHeap (Suc 0), threeHeap 2] = threeNodes"
  by (simp add: threeHeap_def threeNodes_def)

lemma plates_threeNodes:
  "lf_plates (computeLandforms boxD3 threeNodes colorFn) =
     [\<lparr>hull_id = js ''src'', hull_path = [(-2000, -2000), (4000, -2000), (4000, 4000), (-2000, 4000)],
       hull_color = colorFn (js ''src''), hull_type = Plate\<rparr>,
      \<lparr>hull_id = js ''lib'', hull_path = [(-2000, -2000), (4000, -2000), (4000, 4000), (-2000, 4000)],
       hull_color = colorFn (js ''lib''), hull_type = Plate\<rparr>]"
  apply (simp add: computeLandforms_def centroids_threeNodes List.map_filter_simps plateOf_def
      boxD3_def voronoiBounds_def Let_def)
  apply (simp add: threeNodes_def)
  done

lemma landmass_threeNodes:
  "lf_landmass (computeLandforms boxD3 threeNodes colorFn) =
     Some \<lparr>hull_id = js ''global_landmass'',
           hull_path = concat (map paddedCorners threeNodes),
           hull_color = js ''#111111'', hull_type = Landmass\<rparr>"
  by (simp add: computeLandforms_def boxD3_def Let_def threeNodes_def paddedCorners_def)

lemma landmass_path_threeNodes: "\<not> (\<forall>n\<in>set threeNodes. paddedCorners n = [])"
  by (auto simp: threeNodes_def paddedCorners_def)

lemma threeHeap_ids:
  "gn_id (threeHeap 0) = js ''0''" "gn_id (threeHeap (Suc 0)) = js ''1''"
  "gn_id (threeHeap 2) = js ''2''"
  by (simp_all add: threeHeap_def mkNode_def)

lemma js_digits_distinct:
  "js ''1'' \<noteq> js ''0''" "js ''2'' \<noteq> js ''0''" "js ''2'' \<noteq> js ''1''"
  "js ''0'' \<noteq> js ''1''" "js ''0'' \<noteq> js ''2''" "js ''1'' \<noteq> js ''2''"
  by (simp_all add: js_def)

lemma demoEngine_facts:
  "ge_heap demoEngine = threeHeap"
  "ge_reported demoEngine = []"
  "lay_nodes (ge_layout demoEngine) = [0, 1, 2]"
  "rd_nodesMap (ge_renderer demoEngine) =
     [(js ''0'', idleSprite 0), (js ''1'', idleSprite 1), (js ''2'', idleSprite 2)]"
  "rd_plateShapes (ge_renderer demoEngine) =
     newShapes 0 (lf_plates (computeLandforms boxD3 threeNodes getColor))"
  "rd_selectedNodeId (ge_renderer demoEngine) = None"
  "rd_selectedClusterId (ge_renderer demoEngine) = None"
  "rd_lastStageClickTime (ge_renderer demoEngine) = 0"
  by (simp_all add: demoEngine_def run_def init_def update_def Let_def newGraphEngine_def
      setData_def newLayout_def map_threeHeap render_def newRenderer_def landmass_threeNodes
      landmass_path_threeNodes ensureSprite_def threeHeap_ids js_digits_distinct idleSprite_def)

lemma dirKeys_threeNodes: "dirKey ` set threeNodes = {js ''src'', js ''lib''}"
  by (auto simp: threeNodes_def mkNode_def dirKey_def js_def)

text \<open>Three nodes in two directories get two plates; two nodes get none.\<close>

lemma computeLandforms_plates_example:
  "3 \<le> length threeNodes
   \<and> gn_directory ` set threeNodes = {js ''src'', js ''lib''}
   \<and> set (map hull_id (lf_plates (computeLandforms boxD3 threeNodes getColor)))
       = gn_directory ` set threeNodes
   \<and> length (lf_plates (computeLandforms boxD3 threeNodes getColor))
       = card (gn_directory ` set threeNodes)
   \<and> length (take 2 threeNodes) < 3
   \<and> computeLandforms boxD3 (take 2 threeNodes) getColor = \<lparr>lf_landmass = None, lf_plates = []\<rparr>"
proof -
  have n: "3 \<le> length threeNodes" by (simp add: threeNodes_def)
  have d: "gn_directory ` set threeNodes = {js ''src'', js ''lib''}"
    by (auto simp: threeNodes_def mkNode_def)
  have k: "\<forall>n \<in> set threeNodes. gn_directory n \<noteq> [] \<and> gn_directory n \<notin> set objectPrototypeKeys"
    by (simp add: threeNodes_def mkNode_def objectPrototypeKeys_def js_def)
  have c: "\<forall>i<length (centroids threeNodes).
             cellPolygon boxD3 voronoiBounds (centroidPoints threeNodes) i \<noteq> None"
    by (simp add: boxD3_def voronoiBounds_def)
  have s: "length (take 2 threeNodes) < 3" by simp
  show ?thesis
    using computeLandforms_plates [of threeNodes boxD3 getColor]
      computeLandforms_plates [of "take 2 threeNodes" boxD3 getColor] n d k c s
    by blast
qed

lemma findNode_demoEngine: "findNode demoEngine (js ''1'') = Some 1"
  by (simp add: findNode_def demoEngine_facts threeHeap_ids js_digits_distinct)

lemma exclusive_demoEngine: "exclusive demoEngine"
  by (simp add: exclusive_def demoEngine_facts)

text \<open>A double click on node 1 and on the plate of \<open>src\<close> in the example engine.\<close>

theorem selection_is_exclusive_witness:
  "findNode demoEngine (js ''1'') = Some 1
   \<and> rd_selectedNodeId (ge_renderer (handleNodeClick boxD3 (js ''1'') 2 demoEngine)) = Some (js ''1'')
   \<and> rd_selectedClusterId (ge_renderer (handleNodeClick boxD3 (js ''1'') 2 demoEngine)) = None
   \<and> rd_selectedClusterId (ge_renderer (handleHullClick boxD3 (js ''src'') 2 demoEngine))
       = Some (js ''src'')
   \<and> exclusive demoEngine
   \<and> exclusive (fire boxD3 demoEngine (PlateDown 0 1000))"
  using selection_is_exclusive [of demoEngine "js ''1''" boxD3 "js ''src''" 1 "PlateDown 0 1000"]
    findNode_demoEngine exclusive_demoEngine
  by simp

lemma sprites_demoEngine:
  "spriteAt demoEngine (js ''0'') = Some (idleSprite 0)"
  "spriteAt demoEngine (js ''1'') = Some (idleSprite 1)"
  by (simp_all add: spriteAt_def demoEngine_facts js_digits_distinct)

lemma idleSprite_simps:
  "sp_node (idleSprite r) = r" "\<not> sp_isDragging (idleSprite r)" "sp_pointerup (idleSprite r) = 0"
  by (simp_all add: idleSprite_def)

lemma findNode_demoEngine_0: "findNode demoEngine (js ''0'') = Some 0"
  by (simp add: findNode_def demoEngine_facts threeHeap_ids js_digits_distinct)

lemma lastClick_demoEngine:
  "gn_lastClick (ge_heap demoEngine r) = None" "gn_lastClick (threeHeap r) = None"
  by (simp_all add: demoEngine_facts threeHeap_def mkNode_def)

lemma shape_demoEngine:
  "shapeAt demoEngine 0 =
     Some \<lparr>ps_ref = 0,
           ps_plate = \<lparr>hull_id = js ''src'',
                       hull_path = [(-2000, -2000), (4000, -2000), (4000, 4000), (-2000, 4000)],
                       hull_color = getColor (js ''src''), hull_type = Plate\<rparr>,
           ps_lastClickTime = 0\<rparr>"
  by (simp add: shapeAt_def demoEngine_facts plates_threeNodes newShapes_def)

text \<open>Clicks at 1000 ms and 1200 ms in the example engine.\<close>

lemma click_counts_example:
  "spriteAt demoEngine (js ''0'') = Some (idleSprite 0)
   \<and> spriteAt demoEngine (js ''1'') = Some (idleSprite 1)
   \<and> ge_reported (spriteOnUp boxD3 (js ''0'') 1000 demoEngine) = [ClickNode (js ''0'') 1]
   \<and> ge_reported (run boxD3 demoEngine
        [SpriteDown (js ''0''), SpriteUp (js ''0'') (\<lambda>k. 1000),
         SpriteDown (js ''0''), SpriteUp (js ''0'') (\<lambda>k. 1200)])
       = [ClickNode (js ''0'') 1, ClickNode (js ''0'') 2]
   \<and> ge_reported (run boxD3 demoEngine
        [SpriteDown (js ''0''), SpriteUp (js ''0'') (\<lambda>k. 1000),
         SpriteDown (js ''1''), SpriteUp (js ''1'') (\<lambda>k. 1200)])
       = [ClickNode (js ''0'') 1, ClickNode (js ''1'') 1]
   \<and> ge_reported (run boxD3 demoEngine [PlateDown 0 1000, PlateDown 0 1200])
       = [ClickHull (js ''src'') 1, ClickHull (js ''src'') 2]
   \<and> ge_reported (run boxD3 demoEngine
        [StageDown True (0, 0), StageUp True (0, 0) 1000,
         StageDown True (0, 0), StageUp True (0, 0) 1200])
       = [ClickBackground 1, ClickBackground 2]
   \<and> handleNodeClick boxD3 (js ''0'') 1 demoEngine = demoEngine
   \<and> handleHullClick boxD3 (js ''0'') 1 demoEngine = demoEngine"
  using click_counts [where e = demoEngine and D = boxD3
      and k = "js ''0''" and sp = "idleSprite 0" and now = 1000
      and ka = "js ''0''" and spa = "idleSprite 0"
      and kb = "js ''1''" and spb = "idleSprite 1"
      and ?t1.0 = 1000 and ?t2.0 = 1200 and g = 0
      and sh = "\<lparr>ps_ref = 0,
           ps_plate = \<lparr>hull_id = js ''src'',
                       hull_path = [(-2000, -2000), (4000, -2000), (4000, 4000), (-2000, 4000)],
                       hull_color = getColor (js ''src''), hull_type = Plate\<rparr>,
           ps_lastClickTime = 0\<rparr>"
      and p = "(0, 0)" and c = 1 and i = "js ''0''"]
    sprites_demoEngine shape_demoEngine
  by (simp add: demoEngine_facts threeHeap_ids nodeClickCount_def lastClick_demoEngine
      idleSprite_simps)

text \<open>
  C6. The specification asks that a click on a shape is reported as a double click when
  it comes within 300 ms of the click time recorded for that shape and as a single click
  otherwise, and that only double clicks on a node or plate change the selection. In the
  example engine no click time is recorded for node \<open>0\<close> and no node is selected. A press
  and a release of its sprite report one single click. Two presses without a release
  between them (a second pointer on the same node) followed by one release report a
  single click and then a double click, and node \<open>0\<close> becomes the selected node: every
  \<open>pointerdown\<close> registers \<open>onUp\<close> once more, so the one \<open>pointerup\<close> calls \<open>onUp\<close> twice,
  and the second call finds the click time that the first has just recorded. The clock
  reads 1000 in the first call and 1001 in the second.
\<close>

theorem release_after_two_presses_is_double_click:
  "gn_lastClick (ge_heap demoEngine 0) = None
   \<and> rd_selectedNodeId (ge_renderer demoEngine) = None
   \<and> spriteAt demoEngine (js ''0'') = Some (idleSprite 0)
   \<and> ge_reported (run boxD3 demoEngine
        [SpriteDown (js ''0''), SpriteUp (js ''0'') (\<lambda>k. 1000 + int k)])
       = [ClickNode (js ''0'') 1]
   \<and> ge_reported (run boxD3 demoEngine
        [SpriteDown (js ''0''), SpriteDown (js ''0''), SpriteUp (js ''0'') (\<lambda>k. 1000 + int k)])
       = [ClickNode (js ''0'') 1, ClickNode (js ''0'') 2]
   \<and> rd_selectedNodeId (ge_renderer (run boxD3 demoEngine
        [SpriteDown (js ''0''), SpriteDown (js ''0''), SpriteUp (js ''0'') (\<lambda>k. 1000 + int k)]))
       = Some (js ''0'')"
proof -
  have a: "spriteAt demoEngine (js ''0'') = Some (idleSprite 0)"
    by (rule sprites_demoEngine)
  have z: "sp_pointerup (idleSprite 0) = 0" by (rule idleSprite_simps)
  have one: "ge_reported (run boxD3 demoEngine
        [SpriteDown (js ''0''), SpriteUp (js ''0'') (\<lambda>k. 1000 + int k)])
       = [ClickNode (js ''0'') 1]"
  proof -
    have p: "spriteAt (spritePointerDown boxD3 (js ''0'') demoEngine) (js ''0'')
               = Some (pressed (idleSprite 0))"
      using spriteAt_spritePointerDown [OF a, of boxD3 "js ''0''"] by simp
    show ?thesis
      unfolding press_and_release [OF a z]
      using reported_spriteOnUp [OF p, of boxD3 1000]
      by (simp add: pressed_simps idleSprite_simps spritePointerDown_frame demoEngine_facts
          threeHeap_ids lastClick_demoEngine nodeClickCount_def)
  qed
  have c: "nodeClickCount (1000 + int (Suc 0)) (Some (1000 + int 0)) = 2"
    by (simp add: nodeClickCount_def)
  have two: "ge_reported (run boxD3 demoEngine
        [SpriteDown (js ''0''), SpriteDown (js ''0''), SpriteUp (js ''0'') (\<lambda>k. 1000 + int k)])
       = [ClickNode (js ''0'') 1, ClickNode (js ''0'') 2]"
    using release_after_two_presses(1) [OF a z, where D = boxD3 and now = "\<lambda>k. 1000 + int k"] c
    by (simp add: idleSprite_simps demoEngine_facts threeHeap_ids lastClick_demoEngine
        nodeClickCount_def)
  have sel: "rd_selectedNodeId (ge_renderer (run boxD3 demoEngine
        [SpriteDown (js ''0''), SpriteDown (js ''0''), SpriteUp (js ''0'') (\<lambda>k. 1000 + int k)]))
       = Some (js ''0'')"
    using release_after_two_presses(2) [OF a z, where D = boxD3 and now = "\<lambda>k. 1000 + int k"] c
    by (simp add: idleSprite_simps demoEngine_facts threeHeap_ids findNode_demoEngine_0)
  show ?thesis
    using a one two sel by (simp add: lastClick_demoEngine demoEngine_facts)
qed

lemma plate_color:
  assumes "p \<in> set (lf_plates (computeLandforms D nodes colorFn))"
  shows "hull_color p = colorFn (hull_id p)"
proof (cases "3 \<le> length nodes")
  case True
  then show ?thesis using plate_is_cell [OF True assms] by blast
next
  case False
  then show ?thesis using assms by (simp add: computeLandforms_def)
qed

lemma shapes_after_update:
  assumes "ge_isRunning e" and "s \<in> set (rd_plateShapes (ge_renderer (update D e)))"
  shows "ps_plate s \<in> set (lf_plates (computeLandforms D
           (map (ge_heap e) (lay_nodes (ge_layout e))) getColor))"
  using assms
  by (auto simp: update_def Let_def render_def newShapes_def in_set_enumerate_eq
      split: option.splits if_splits)

text \<open>
  C8. The colour of a plate is \<open>getColor\<close> of its directory name, a function of the code
  units of the name alone (the string hash, then \<open>colorOfHash\<close>): two plates with the
  same name have the same colour, whichever node lists, d3 results and engine states
  (themes included) they were computed from.
\<close>

theorem plate_color_depends_on_name_only:
  "(p1 \<in> set (lf_plates (computeLandforms D1 nodes1 getColor))
      \<and> p2 \<in> set (lf_plates (computeLandforms D2 nodes2 getColor))
      \<and> hull_id p1 = hull_id p2 \<longrightarrow> hull_color p1 = hull_color p2)
   \<and> (ge_isRunning e1 \<and> ge_isRunning e2
      \<and> s1 \<in> set (rd_plateShapes (ge_renderer (update D1 e1)))
      \<and> s2 \<in> set (rd_plateShapes (ge_renderer (update D2 e2)))
      \<and> hull_id (ps_plate s1) = hull_id (ps_plate s2) \<longrightarrow>
        hull_color (ps_plate s1) = hull_color (ps_plate s2))
   \<and> (ge_isRunning e1 \<and> s1 \<in> set (rd_plateShapes (ge_renderer (update D1 e1))) \<longrightarrow>
        hull_color (ps_plate s1) = getColor (hull_id (ps_plate s1)))
   \<and> getColor name = colorOfHash (foldl hashStep 0 name)"
proof (intro conjI impI; (elim conjE)?)
  assume "p1 \<in> set (lf_plates (computeLandforms D1 nodes1 getColor))"
    "p2 \<in> set (lf_plates (computeLandforms D2 nodes2 getColor))" "hull_id p1 = hull_id p2"
  then show "hull_color p1 = hull_color p2" by (simp add: plate_color)
next
  assume "ge_isRunning e1" "ge_isRunning e2"
    "s1 \<in> set (rd_plateShapes (ge_renderer (update D1 e1)))"
    "s2 \<in> set (rd_plateShapes (ge_renderer (update D2 e2)))"
    "hull_id (ps_plate s1) = hull_id (ps_plate s2)"
  then show "hull_color (ps_plate s1) = hull_color (ps_plate s2)"
    using shapes_after_update [of e1 s1 D1] shapes_after_update [of e2 s2 D2]
    by (simp add: plate_color)
next
  assume "ge_isRunning e1" "s1 \<in> set (rd_plateShapes (ge_renderer (update D1 e1)))"
  then show "hull_color (ps_plate s1) = getColor (hull_id (ps_plate s1))"
    using shapes_after_update [of e1 s1 D1] by (simp add: plate_color)
next
  show "getColor name = colorOfHash (foldl hashStep 0 name)"
    by (simp add: getColor_def hashLoop_def)
qed

lemma darkEngine_facts:
  "ge_isRunning darkEngine" "rd_currentTheme (ge_renderer darkEngine) = DARK"
  "ge_heap darkEngine = movedHeap" "lay_nodes (ge_layout darkEngine) = [0, 1, 2]"
  "rd_nextShape (ge_renderer darkEngine) = 0"
  by (simp_all add: darkEngine_def run_def newGraphEngine_def toggleTheme_def update_def
      toggleThemeR_def newRenderer_def init_def setData_def newLayout_def)

lemma map_movedHeap: "[movedHeap 0, movedHeap (Suc 0), movedHeap 2] = movedNodes"
  by (simp add: movedHeap_def movedNodes_def)

lemma centroids_movedNodes:
  "centroids movedNodes = [(js ''lib'', 5, 5), (js ''src'', - 29 / 2, -29)]"
  by (simp add: centroids_def clusterMapOf_def movedNodes_def mkNode_def addToCluster_def
      dirKey_def js_def objectPrototypeKeys_def orZero_def objectEntries_def isArrayIndex_def
      isDigit_def)

lemma plates_movedNodes:
  "lf_plates (computeLandforms boxD3 movedNodes colorFn) =
     [\<lparr>hull_id = js ''lib'', hull_path = [(-2000, -2000), (4000, -2000), (4000, 4000), (-2000, 4000)],
       hull_color = colorFn (js ''lib''), hull_type = Plate\<rparr>,
      \<lparr>hull_id = js ''src'', hull_path = [(-2000, -2000), (4000, -2000), (4000, 4000), (-2000, 4000)],
       hull_color = colorFn (js ''src''), hull_type = Plate\<rparr>]"
  apply (simp add: computeLandforms_def centroids_movedNodes List.map_filter_simps plateOf_def
      boxD3_def voronoiBounds_def Let_def)
  apply (simp add: movedNodes_def)
  done

lemma landmass_movedNodes:
  "lf_landmass (computeLandforms boxD3 movedNodes colorFn) =
     Some \<lparr>hull_id = js ''global_landmass'',
           hull_path = concat (map paddedCorners movedNodes),
           hull_color = js ''#111111'', hull_type = Landmass\<rparr>"
  by (simp add: computeLandforms_def boxD3_def Let_def movedNodes_def paddedCorners_def)

lemma landmass_path_movedNodes: "\<not> (\<forall>n\<in>set movedNodes. paddedCorners n = [])"
  by (auto simp: movedNodes_def paddedCorners_def)

lemma shapes_update_darkEngine:
  "rd_plateShapes (ge_renderer (update boxD3 darkEngine)) =
     newShapes 0 (lf_plates (computeLandforms boxD3 movedNodes getColor))"
  by (simp add: update_def darkEngine_facts Let_def render_def map_movedHeap
      landmass_movedNodes landmass_path_movedNodes)

lemma demoEngine_running:
  "ge_isRunning demoEngine" "rd_nextShape (ge_renderer demoEngine) = 2"
  "rd_currentTheme (ge_renderer demoEngine) = LIGHT"
  by (simp_all add: demoEngine_def run_def init_def update_def Let_def newGraphEngine_def
      setData_def newLayout_def map_threeHeap render_def newRenderer_def landmass_threeNodes
      landmass_path_threeNodes plates_threeNodes)

lemma shapes_update_demoEngine:
  "rd_plateShapes (ge_renderer (update boxD3 demoEngine)) =
     newShapes 2 (lf_plates (computeLandforms boxD3 threeNodes getColor))"
  by (simp add: update_def demoEngine_running demoEngine_facts Let_def render_def map_threeHeap
      landmass_threeNodes landmass_path_threeNodes)

text \<open>The plate of \<open>src\<close> in a light engine and in a dark engine with other nodes.\<close>

theorem plate_color_depends_on_name_only_witness:
  "ge_isRunning demoEngine \<and> ge_isRunning darkEngine
   \<and> rd_currentTheme (ge_renderer demoEngine) = LIGHT
   \<and> rd_currentTheme (ge_renderer darkEngine) = DARK
   \<and> \<lparr>ps_ref = 2, ps_plate = srcPlate, ps_lastClickTime = 0\<rparr>
       \<in> set (rd_plateShapes (ge_renderer (update boxD3 demoEngine)))
   \<and> \<lparr>ps_ref = 1, ps_plate = srcPlate, ps_lastClickTime = 0\<rparr>
       \<in> set (rd_plateShapes (ge_renderer (update boxD3 darkEngine)))
   \<and> srcPlate \<in> set (lf_plates (computeLandforms boxD3 threeNodes getColor))
   \<and> srcPlate \<in> set (lf_plates (computeLandforms boxD3 movedNodes getColor))
   \<and> hull_color srcPlate = getColor (hull_id srcPlate)"
proof -
  have 1: "\<lparr>ps_ref = 2, ps_plate = srcPlate, ps_lastClickTime = 0\<rparr>
       \<in> set (rd_plateShapes (ge_renderer (update boxD3 demoEngine)))"
    by (simp add: shapes_update_demoEngine plates_threeNodes newShapes_def srcPlate_def)
  have 2: "\<lparr>ps_ref = 1, ps_plate = srcPlate, ps_lastClickTime = 0\<rparr>
       \<in> set (rd_plateShapes (ge_renderer (update boxD3 darkEngine)))"
    by (simp add: shapes_update_darkEngine plates_movedNodes newShapes_def srcPlate_def)
  have 3: "srcPlate \<in> set (lf_plates (computeLandforms boxD3 threeNodes getColor))"
    "srcPlate \<in> set (lf_plates (computeLandforms boxD3 movedNodes getColor))"
    by (simp_all add: plates_threeNodes plates_movedNodes srcPlate_def)
  show ?thesis
    using plate_color_depends_on_name_only [where ?p1.0 = srcPlate and ?p2.0 = srcPlate
        and ?D1.0 = boxD3 and ?D2.0 = boxD3 and ?nodes1.0 = threeNodes and ?nodes2.0 = movedNodes
        and ?e1.0 = demoEngine and ?e2.0 = darkEngine
        and ?s1.0 = "\<lparr>ps_ref = 2, ps_plate = srcPlate, ps_lastClickTime = 0\<rparr>"
        and ?s2.0 = "\<lparr>ps_ref = 1, ps_plate = srcPlate, ps_lastClickTime = 0\<rparr>"
        and name = "js ''src''"]
      1 2 3 demoEngine_running darkEngine_facts
    by simp
qed

section \<open>Properties of the parser, the resolver and the graph build\<close>

lemma matches_minLen:
  "st' \<in> set (matches r s st) \<Longrightarrow> fst st + minLen r \<le> fst st'"
proof (induction r s st arbitrary: st' rule: matches.induct)
  case (4 a b s st)
  then obtain m where m: "m \<in> set (matches a s st)" and st': "st' \<in> set (matches b s m)"
    by auto
  have "fst st + minLen a \<le> fst m" using "4.IH"(1) m by blast
  moreover have "fst m + minLen b \<le> fst st'" using "4.IH"(2) m st' by blast
  ultimately show ?case by simp
next
  case (6 a s st)
  show ?case
  proof (cases "st' = st")
    case True
    then show ?thesis by simp
  next
    case False
    then obtain m where m: "m \<in> set (matches a s st)"
      and g: "fst st < fst m \<and> fst m \<le> length s" and st': "st' \<in> set (matches (Star a) s m)"
      using "6.prems" by (subst (asm) matches.simps) (auto split: if_splits)
    have "fst m + minLen (Star a) \<le> fst st'" using "6.IH"(2) m g st' by blast
    then show ?thesis using g by simp
  qed
next
  case (7 a s st)
  show ?case
  proof (cases "st' = st")
    case True
    then show ?thesis by simp
  next
    case False
    then obtain m where m: "m \<in> set (matches a s st)"
      and g: "fst st < fst m \<and> fst m \<le> length s" and st': "st' \<in> set (matches (Lazy a) s m)"
      using "7.prems" by (subst (asm) matches.simps) (auto split: if_splits)
    have "fst m + minLen (Lazy a) \<le> fst st'" using "7.IH"(2) m g st' by blast
    then show ?thesis using g by simp
  qed
next
  case (1 s st)
  then show ?case by simp
next
  case (2 P s st)
  then show ?case by (simp split: if_splits)
next
  case (3 s st)
  then show ?case by (simp split: if_splits)
next
  case (5 a b s st)
  then show ?case by (fastforce simp: min_def)
next
  case (8 n a s st)
  then show ?case by fastforce
qed

lemma execFrom_match:
  "execFrom r s i = Some (start, m) \<Longrightarrow> m \<in> set (matches r s (start, []))"
proof (induction r s i rule: execFrom.induct)
  case (1 r s i)
  show ?case
  proof (cases "matches r s (i, [])")
    case Nil
    then show ?thesis
      using "1.prems" "1.IH" by (subst (asm) execFrom.simps) (auto split: if_splits)
  next
    case (Cons a list)
    then show ?thesis
      using "1.prems" by (subst (asm) execFrom.simps) (auto split: if_splits)
  qed
qed

lemma execAll_total:
  "0 < minLen r \<Longrightarrow> \<exists>ms. execAll r s i = Some ms"
proof (induction r s i rule: execAll.induct)
  case (1 r s i)
  show ?case
  proof (cases "execFrom r s i")
    case None
    then show ?thesis by (subst execAll.simps) simp
  next
    case (Some sm)
    obtain start m where sm: "sm = (start, m)" by (cases sm)
    have "m \<in> set (matches r s (start, []))" using Some sm by (simp add: execFrom_match)
    then have "fst (start, []::captures) + minLen r \<le> fst m" by (rule matches_minLen)
    then have gt: "\<not> fst m \<le> start" using "1.prems" by simp
    have "\<exists>ms. execAll r s (fst m) = Some ms"
      using Some sm [symmetric] gt "1.prems" by (rule "1.IH")
    then obtain ms where "execAll r s (fst m) = Some ms" ..
    then show ?thesis using Some sm gt by (subst execAll.simps) simp
  qed
qed

lemma minLen_seqs: "minLen (seqs rs) = sum_list (map minLen rs)"
  by (induction rs) (simp_all add: seqs_def)

lemma minLen_lit: "minLen (lit str) = length str"
  by (induction str) (simp_all add: lit_def seqs_def)

lemma minLen_table:
  "0 < minLen fromRegex" "0 < minLen pythonRegex" "0 < minLen goTableRegex"
  "0 < minLen javaRegex" "0 < minLen includeRegex" "0 < minLen requireRegex"
  "0 < minLen singleLine" "0 < minLen blockRegex"
  by (simp_all add: fromRegex_def pythonRegex_def goTableRegex_def javaRegex_def
      includeRegex_def requireRegex_def singleLine_def blockRegex_def minLen_seqs minLen_lit
      plus_def ws_def dquote_def anyQuote_def)

lemma regexes_minLen: "map_of regexes l = Some r \<Longrightarrow> 0 < minLen r"
  by (auto simp: regexes_def minLen_table split: if_splits)

lemma parseImports_total: "\<exists>v. parseImports content languageId = Some v"
proof (cases "languageId = js ''go''")
  case True
  obtain singles blocks where "execAll singleLine content 0 = Some singles"
    "execAll blockRegex content 0 = Some blocks"
    using execAll_total [OF minLen_table(7)] execAll_total [OF minLen_table(8)] by blast
  then show ?thesis using True by (simp add: parseImports_def)
next
  case False
  obtain reqs where reqs: "execAll requireRegex content 0 = Some reqs"
    using execAll_total [OF minLen_table(6)] by blast
  show ?thesis
  proof (cases "map_of regexes languageId")
    case None
    then show ?thesis using False reqs by (simp add: parseImports_def)
  next
    case (Some r)
    then obtain ms where "execAll r content 0 = Some ms"
      using execAll_total [OF regexes_minLen] by blast
    then show ?thesis using False reqs Some by (simp add: parseImports_def)
  qed
qed

lemma fileEdges_total: "\<exists>v. fileEdges E rootDir files f2n file = Some v"
proof -
  define lang where "lang = (case languageOf E file of None \<Rightarrow> [] | Some l \<Rightarrow> l)"
  show ?thesis
  proof (cases "readFile E file")
    case None
    then show ?thesis by (simp add: fileEdges_def Let_def)
  next
    case (Some content)
    obtain v where "parseImports content lang = Some v" using parseImports_total by blast
    then show ?thesis
      using Some by (cases v) (simp_all add: fileEdges_def Let_def lang_def split: option.splits)
  qed
qed

lemma those_Some: "(\<And>x. x \<in> set xs \<Longrightarrow> \<exists>v. x = Some v) \<Longrightarrow> \<exists>vs. those xs = Some vs \<and> length vs = length xs \<and> (\<forall>i<length xs. xs ! i = Some (vs ! i))"
proof (induction xs)
  case Nil
  then show ?case by simp
next
  case (Cons x xs)
  then obtain v where v: "x = Some v" by auto
  obtain vs where vs: "those xs = Some vs" "length vs = length xs"
    "\<forall>i<length xs. xs ! i = Some (vs ! i)" using Cons by auto
  have "those (x # xs) = Some (v # vs)" by (simp add: v vs)
  moreover have "\<forall>i<length (x # xs). (x # xs) ! i = Some ((v # vs) ! i)"
    using v vs by (auto simp: nth_Cons split: nat.splits)
  ultimately show ?case using vs(2) by auto
qed

lemma those_elem:
  "those xs = Some vs \<Longrightarrow> v \<in> set vs \<Longrightarrow> Some v \<in> set xs"
proof (induction xs arbitrary: vs)
  case Nil
  then show ?case by simp
next
  case (Cons x xs)
  then show ?case by (auto split: option.splits)
qed

lemma generate_total: "\<exists>g. generate E rootDir files = Some g"
proof -
  define f2n where "f2n = fst (snd (foldl (addFileNode E rootDir) ([], [], 0) files))"
  have "\<exists>vs. those (map (fileEdges E rootDir files f2n) files) = Some vs \<and>
       length vs = length (map (fileEdges E rootDir files f2n) files) \<and>
       (\<forall>i<length (map (fileEdges E rootDir files f2n) files).
          map (fileEdges E rootDir files f2n) files ! i = Some (vs ! i))"
    by (rule those_Some) (use fileEdges_total in auto)
  then show ?thesis by (auto simp: generate_def Let_def f2n_def)
qed

text \<open>The first pass: every id in the map is the id of a node.\<close>

lemma addFileNode_ids:
  assumes "\<And>p i. map_of (fst (snd st)) p = Some i \<Longrightarrow> i \<in> node_id ` set (fst st)"
    and "map_of (fst (snd (addFileNode E rootDir st file))) p = Some i"
  shows "i \<in> node_id ` set (fst (addFileNode E rootDir st file))"
  using assms by (auto simp: addFileNode_def Let_def update_conv' split: if_splits)

lemma foldl_addFileNode_ids:
  assumes "\<And>p i. map_of (fst (snd st)) p = Some i \<Longrightarrow> i \<in> node_id ` set (fst st)"
    and "map_of (fst (snd (foldl (addFileNode E rootDir) st files))) p = Some i"
  shows "i \<in> node_id ` set (fst (foldl (addFileNode E rootDir) st files))"
  using assms
proof (induction files arbitrary: st)
  case Nil
  then show ?case by simp
next
  case (Cons f files)
  show ?case
    unfolding foldl_Cons
  proof (rule Cons.IH)
    fix p i
    assume "map_of (fst (snd (addFileNode E rootDir st f))) p = Some i"
    then show "i \<in> node_id ` set (fst (addFileNode E rootDir st f))"
      using Cons.prems(1) by (rule addFileNode_ids [rotated])
  next
    show "map_of (fst (snd (foldl (addFileNode E rootDir) (addFileNode E rootDir st f) files))) p = Some i"
      using Cons.prems(2) by simp
  qed
qed

lemma edgeTo_edge:
  assumes "e \<in> set (edgeTo f2n sourceId resolvedPath)"
  shows "edge_source e = sourceId" and "map_of f2n resolvedPath = Some (edge_target e)"
    and "edge_source e \<noteq> edge_target e"
  using assms by (auto simp: edgeTo_def split: option.splits if_splits)

lemma importEdges_edge:
  assumes "e \<in> set (importEdges E rootDir files f2n file sourceId importPath)"
  shows "edge_source e = sourceId" and "\<exists>p. map_of f2n p = Some (edge_target e)"
    and "edge_source e \<noteq> edge_target e"
proof -
  obtain p where "e \<in> set (edgeTo f2n sourceId p)"
    using assms by (auto simp: importEdges_def)
  then show "edge_source e = sourceId" "\<exists>p. map_of f2n p = Some (edge_target e)"
    "edge_source e \<noteq> edge_target e"
    using edgeTo_edge by blast+
qed

lemma fileEdges_edge:
  assumes "fileEdges E rootDir files f2n file = Some v" and "e \<in> set (fst v)"
  shows "map_of f2n file = Some (edge_source e)"
    and "\<exists>p. map_of f2n p = Some (edge_target e)"
    and "edge_source e \<noteq> edge_target e"
proof -
  obtain sourceId imps where s: "map_of f2n file = Some sourceId"
    and v: "fst v = concat (map (importEdges E rootDir files f2n file sourceId) imps)"
    using assms
    by (auto simp: fileEdges_def Let_def split: option.splits sum.splits if_splits)
  obtain importPath where "e \<in> set (importEdges E rootDir files f2n file sourceId importPath)"
    using assms(2) v by auto
  then show "map_of f2n file = Some (edge_source e)"
    "\<exists>p. map_of f2n p = Some (edge_target e)" "edge_source e \<noteq> edge_target e"
    using importEdges_edge [of e E rootDir files f2n "file" sourceId importPath] s by simp_all
qed

lemma generate_edge:
  assumes "generate E rootDir files = Some g" and "e \<in> set (g_edges g)"
  shows "\<exists>f v. fileEdges E rootDir files
                 (fst (snd (foldl (addFileNode E rootDir) ([], [], 0) files))) f = Some v
           \<and> e \<in> set (fst v)"
    and "g_nodes g = fst (foldl (addFileNode E rootDir) ([], [], 0) files)"
proof -
  define f2n where "f2n = fst (snd (foldl (addFileNode E rootDir) ([], [], 0) files))"
  obtain results where r: "those (map (fileEdges E rootDir files f2n) files) = Some results"
    and g: "g = \<lparr>g_nodes = fst (foldl (addFileNode E rootDir) ([], [], 0) files),
                 g_edges = concat (map fst results), g_errors = concat (map snd results)\<rparr>"
    using assms(1) by (auto simp: generate_def Let_def f2n_def split: option.splits)
  show "g_nodes g = fst (foldl (addFileNode E rootDir) ([], [], 0) files)" by (simp add: g)
  obtain v where v: "v \<in> set results" "e \<in> set (fst v)" using assms(2) g by auto
  have "Some v \<in> set (map (fileEdges E rootDir files f2n) files)"
    using r v(1) by (rule those_elem)
  then obtain f where "fileEdges E rootDir files f2n f = Some v" by auto
  then show "\<exists>f v. fileEdges E rootDir files
                 (fst (snd (foldl (addFileNode E rootDir) ([], [], 0) files))) f = Some v
           \<and> e \<in> set (fst v)"
    using v(2) unfolding f2n_def by blast
qed

text \<open>
  C1. For every list of files (and every file system, configuration and \<open>path\<close>
  module) the graph build returns, and in the graph it returns the source id and the
  target id of every edge are ids of nodes: both are values of \<open>fileToNodeId\<close>, which
  holds only ids given to nodes.
\<close>

theorem generate_edges_reference_nodes:
  "(\<exists>g. generate E rootDir files = Some g)
   \<and> (\<forall>g. generate E rootDir files = Some g \<longrightarrow>
        (\<forall>e \<in> set (g_edges g).
           edge_source e \<in> node_id ` set (g_nodes g)
         \<and> edge_target e \<in> node_id ` set (g_nodes g)))"
proof (intro conjI allI impI ballI)
  show "\<exists>g. generate E rootDir files = Some g" by (rule generate_total)
next
  fix g e
  assume g: "generate E rootDir files = Some g" and e: "e \<in> set (g_edges g)"
  define st where "st = foldl (addFileNode E rootDir) ([], [], 0) files"
  obtain f v where v: "fileEdges E rootDir files (fst (snd st)) f = Some v" "e \<in> set (fst v)"
    using generate_edge(1) [OF g e] unfolding st_def by blast
  have nodes: "g_nodes g = fst st" using generate_edge(2) [OF g e] by (simp add: st_def)
  have ids: "map_of (fst (snd st)) p = Some i \<Longrightarrow> i \<in> node_id ` set (fst st)" for p i
    unfolding st_def by (rule foldl_addFileNode_ids [where st = "([], [], 0)"]) simp_all
  show "edge_source e \<in> node_id ` set (g_nodes g)"
    using fileEdges_edge(1) [OF v] ids by (simp add: nodes)
  show "edge_target e \<in> node_id ` set (g_nodes g)"
    using fileEdges_edge(2) [OF v] ids by (auto simp: nodes)
qed

text \<open>
  C2. The graph build returns, and no edge of the graph it returns has its source id
  equal to its target id.
\<close>

theorem generate_has_no_self_loop:
  "(\<exists>g. generate E rootDir files = Some g)
   \<and> (\<forall>g. generate E rootDir files = Some g \<longrightarrow>
        (\<forall>e \<in> set (g_edges g). edge_source e \<noteq> edge_target e))"
proof (intro conjI allI impI ballI)
  show "\<exists>g. generate E rootDir files = Some g" by (rule generate_total)
next
  fix g e
  assume g: "generate E rootDir files = Some g" and e: "e \<in> set (g_edges g)"
  obtain f v where
    "fileEdges E rootDir files (fst (snd (foldl (addFileNode E rootDir) ([], [], 0) files))) f
       = Some v" "e \<in> set (fst v)"
    using generate_edge(1) [OF g e] by blast
  then show "edge_source e \<noteq> edge_target e" by (rule fileEdges_edge(3))
qed

lemma pushAll_empty [simp]: "pushAll ([], []) h = h"
  by (simp add: pushAll_def)

lemma fuzzyLoop_log:
  "fst h = [] \<Longrightarrow>
   fuzzyLoop E rootPath allFiles parts h =
     (fst (fuzzyLoop E rootPath allFiles parts ([], [])),
      snd h @ snd (fuzzyLoop E rootPath allFiles parts ([], [])))"
proof (induction parts arbitrary: h)
  case Nil
  then show ?case by (cases h) simp
next
  case (Cons part parts)
  define suffix where "suffix = joinWith (path_sep E) (part # parts)"
  define found where "found = fuzzyProbe E allFiles (path_join E [rootPath, suffix])"
  define base where "base = fuzzyLoop E rootPath allFiles parts ([], [])"
  have step: "fuzzyLoop E rootPath allFiles (part # parts) g =
      (if suffix = [] then fuzzyLoop E rootPath allFiles parts g
       else if 0 < length (fst (pushAll g found)) then pushAll g found
       else fuzzyLoop E rootPath allFiles parts (pushAll g found))" for g
    by (simp only: fuzzyLoop.simps Let_def suffix_def found_def)
  have ih: "fst g = [] \<Longrightarrow> fuzzyLoop E rootPath allFiles parts g = (fst base, snd g @ snd base)"
    for g unfolding base_def by (rule Cons.IH)
  show ?case
  proof (cases "suffix = []")
    case True
    have "fuzzyLoop E rootPath allFiles (part # parts) h = (fst base, snd h @ snd base)"
      using True Cons.prems by (subst step) (simp add: ih)
    moreover have "fuzzyLoop E rootPath allFiles (part # parts) ([], []) = base"
      using True by (subst step) (simp add: base_def)
    ultimately show ?thesis by simp
  next
    case False
    show ?thesis
    proof (cases "fst found = []")
      case True
      have e1: "fst (pushAll h found) = []" "fst (pushAll ([], []) found) = []"
        using True Cons.prems by (simp_all add: pushAll_def)
      have "fuzzyLoop E rootPath allFiles (part # parts) h
              = (fst base, snd (pushAll h found) @ snd base)"
        using False e1(1) by (subst step) (simp add: ih)
      moreover have "fuzzyLoop E rootPath allFiles (part # parts) ([], [])
              = (fst base, snd (pushAll ([], []) found) @ snd base)"
        using False e1(2) by (subst step) (simp add: ih)
      ultimately show ?thesis by (simp add: pushAll_def)
    next
      case nonempty: False
      have "fuzzyLoop E rootPath allFiles (part # parts) h = pushAll h found"
        using False nonempty by (subst step) (simp add: pushAll_def)
      moreover have "fuzzyLoop E rootPath allFiles (part # parts) ([], []) = found"
        using False nonempty by (subst step) (simp add: pushAll_def)
      ultimately show ?thesis using Cons.prems by (simp add: pushAll_def)
    qed
  qed
qed

lemma resolveImport_absolute:
  assumes "\<not> startsWith importPath (js ''.'')"
  shows "resolveImport E importPath sourceFile rootPath allFiles =
     (if fst (rootRelative E importPath rootPath allFiles) \<noteq> []
      then rootRelative E importPath rootPath allFiles
      else if fst (srcRelative E importPath rootPath allFiles) \<noteq> []
      then (fst (srcRelative E importPath rootPath allFiles),
            snd (rootRelative E importPath rootPath allFiles)
            @ snd (srcRelative E importPath rootPath allFiles))
      else (fst (fuzzySuffix E importPath rootPath allFiles),
            snd (rootRelative E importPath rootPath allFiles)
            @ snd (srcRelative E importPath rootPath allFiles)
            @ snd (fuzzySuffix E importPath rootPath allFiles)))"
proof -
  define root where "root = probeAt E allFiles (path_join E [rootPath, importPath])"
  define src where "src = probeAt E allFiles (path_join E [rootPath, js ''src'', importPath])"
  have r: "resolveImport E importPath sourceFile rootPath allFiles =
        (let hits3 = (if fst root = [] then pushAll root src else root)
         in if fst hits3 = [] then fuzzyLoop E rootPath allFiles (split 47 importPath) hits3
            else hits3)"
    using assms
    by (simp add: resolveImport_def Let_def root_def src_def probeAt_def pushAll_def
        split: if_splits)
  define fuzzy where "fuzzy = fuzzyLoop E rootPath allFiles (split 47 importPath) ([], [])"
  have f: "fuzzyLoop E rootPath allFiles (split 47 importPath) (pushAll root src) =
          (fst fuzzy, snd (pushAll root src) @ snd fuzzy)" if "fst (pushAll root src) = []"
    unfolding fuzzy_def using that by (rule fuzzyLoop_log)
  have "resolveImport E importPath sourceFile rootPath allFiles =
     (if fst root \<noteq> [] then root
      else if fst src \<noteq> [] then (fst src, snd root @ snd src)
      else (fst fuzzy, snd root @ snd src @ snd fuzzy))"
  proof (cases "fst root = []")
    case False
    then show ?thesis by (simp add: r)
  next
    case True
    show ?thesis
    proof (cases "fst src = []")
      case False
      then show ?thesis using True by (simp add: r pushAll_def)
    next
      case srcEmpty: True
      have "fst (pushAll root src) = []" using True srcEmpty by (simp add: pushAll_def)
      then show ?thesis using True srcEmpty f by (simp add: r pushAll_def)
    qed
  qed
  then show ?thesis
    by (simp only: rootRelative_def srcRelative_def fuzzySuffix_def root_def src_def fuzzy_def)
qed

lemma isFileAt_log: "c \<in> set (snd (isFileAt E p)) \<Longrightarrow> fsopPath c = p"
  by (auto simp: isFileAt_def fsopPath_def split: if_splits)

lemma isDirectoryAt_log: "c \<in> set (snd (isDirectoryAt E p)) \<Longrightarrow> fsopPath c = p"
  by (auto simp: isDirectoryAt_def fsopPath_def split: if_splits)

lemma checkFileExts_log:
  assumes "c \<in> set (snd (foldl (checkFileExt E candidate) h exts))"
  shows "c \<in> set (snd h) \<or> fsopPath c \<in> set (map ((@) candidate) exts)"
  using assms
proof (induction exts arbitrary: h)
  case Nil
  then show ?case by simp
next
  case (Cons ext exts)
  from Cons.IH [OF Cons.prems [simplified]]
  show ?case by (auto simp: checkFileExt_def Let_def dest: isFileAt_log)
qed

lemma checkFile_log:
  "c \<in> set (snd (checkFile E candidate)) \<Longrightarrow> fsopPath c \<in> set (candidatePaths candidate)"
  unfolding checkFile_def Let_def candidatePaths_def
  by (drule checkFileExts_log) (auto dest: isFileAt_log)

lemma probeAt_log:
  "c \<in> set (snd (probeAt E allFiles candidate)) \<Longrightarrow> fsopPath c \<in> set (candidatePaths candidate)"
  by (auto simp: probeAt_def Let_def pushAll_def checkDir_def candidatePaths_def
      dest: checkFile_log [unfolded candidatePaths_def] isDirectoryAt_log split: if_splits)

text \<open>
  C3. For an import string that does not start with \<open>.\<close>, \<open>resolveImport\<close> returns the
  hits of the first of root-relative, src-relative and fuzzy suffix match that has any,
  and has called the file system for just the strategies up to that one, in this order.
  When the root-relative probe has a hit, every call of \<open>existsSync\<close> and \<open>lstatSync\<close> is
  on the root-relative candidate or the candidate with one of the suffixes: the fuzzy
  match has not run.
\<close>

theorem resolveImport_strategy_order:
  "\<not> startsWith importPath (js ''.'') \<longrightarrow>
     resolveImport E importPath sourceFile rootPath allFiles =
       (if fst (rootRelative E importPath rootPath allFiles) \<noteq> []
        then rootRelative E importPath rootPath allFiles
        else if fst (srcRelative E importPath rootPath allFiles) \<noteq> []
        then (fst (srcRelative E importPath rootPath allFiles),
              snd (rootRelative E importPath rootPath allFiles)
              @ snd (srcRelative E importPath rootPath allFiles))
        else (fst (fuzzySuffix E importPath rootPath allFiles),
              snd (rootRelative E importPath rootPath allFiles)
              @ snd (srcRelative E importPath rootPath allFiles)
              @ snd (fuzzySuffix E importPath rootPath allFiles)))
   \<and> (fst (rootRelative E importPath rootPath allFiles) \<noteq> [] \<longrightarrow>
        list_all (\<lambda>c. fsopPath c \<in> set (candidatePaths (path_join E [rootPath, importPath])))
          (snd (resolveImport E importPath sourceFile rootPath allFiles)))"
proof (intro impI conjI)
  assume a: "\<not> startsWith importPath (js ''.'')"
  then show "resolveImport E importPath sourceFile rootPath allFiles =
       (if fst (rootRelative E importPath rootPath allFiles) \<noteq> []
        then rootRelative E importPath rootPath allFiles
        else if fst (srcRelative E importPath rootPath allFiles) \<noteq> []
        then (fst (srcRelative E importPath rootPath allFiles),
              snd (rootRelative E importPath rootPath allFiles)
              @ snd (srcRelative E importPath rootPath allFiles))
        else (fst (fuzzySuffix E importPath rootPath allFiles),
              snd (rootRelative E importPath rootPath allFiles)
              @ snd (srcRelative E importPath rootPath allFiles)
              @ snd (fuzzySuffix E importPath rootPath allFiles)))"
    by (rule resolveImport_absolute)
  assume "fst (rootRelative E importPath rootPath allFiles) \<noteq> []"
  then have "resolveImport E importPath sourceFile rootPath allFiles
               = rootRelative E importPath rootPath allFiles"
    using resolveImport_absolute [OF a] by simp
  then show "list_all (\<lambda>c. fsopPath c \<in> set (candidatePaths (path_join E [rootPath, importPath])))
          (snd (resolveImport E importPath sourceFile rootPath allFiles))"
    by (auto simp: list_all_iff rootRelative_def dest: probeAt_log)
qed

lemma generate_demo: "generate demoEnv (js ''/p'') demoFiles = Some demoGraph"
  by code_simp

lemma demo_self_import:
  "fst (resolveImport demoEnv (js ''./a'') (js ''/p/a.ts'') (js ''/p'') demoFiles) = [js ''/p/a.ts'']"
  by code_simp

lemma demo_strategies:
  "\<not> startsWith (js ''pkg/util'') (js ''.'')"
  "fst (rootRelative demoEnv (js ''pkg/util'') (js ''/p'') demoFiles) = [js ''/p/pkg/util.ts'']"
  "fst (fuzzySuffix demoEnv (js ''pkg/util'') (js ''/p'') demoFiles) = [js ''/p/util/x.ts'']"
  by code_simp+

text \<open>The example workspace: \<open>a.ts\<close> imports \<open>./b\<close>, itself and \<open>pkg/util\<close>; five nodes, two edges.\<close>

theorem generate_edges_reference_nodes_witness:
  "generate demoEnv (js ''/p'') demoFiles = Some demoGraph
   \<and> map node_id (g_nodes demoGraph) = map js [''0'', ''1'', ''2'', ''3'', ''4'']
   \<and> map (\<lambda>e. (edge_source e, edge_target e)) (g_edges demoGraph)
       = [(js ''0'', js ''1''), (js ''0'', js ''3'')]
   \<and> list_all (\<lambda>e. edge_source e \<in> node_id ` set (g_nodes demoGraph)
                  \<and> edge_target e \<in> node_id ` set (g_nodes demoGraph)) (g_edges demoGraph)"
proof -
  have "list_all (\<lambda>e. edge_source e \<in> node_id ` set (g_nodes demoGraph)
                  \<and> edge_target e \<in> node_id ` set (g_nodes demoGraph)) (g_edges demoGraph)"
    using generate_edges_reference_nodes [of demoEnv "js ''/p''" demoFiles] generate_demo
    by (simp add: list_all_iff)
  moreover have "map node_id (g_nodes demoGraph) = map js [''0'', ''1'', ''2'', ''3'', ''4'']"
    "map (\<lambda>e. (edge_source e, edge_target e)) (g_edges demoGraph)
       = [(js ''0'', js ''1''), (js ''0'', js ''3'')]"
    by (simp_all add: demoGraph_def demoNode_def)
  ultimately show ?thesis using generate_demo by simp
qed

text \<open>In the example workspace \<open>./a\<close> resolves to \<open>a.ts\<close> itself, and the graph has no edge from node 0 to node 0.\<close>

theorem generate_has_no_self_loop_witness:
  "generate demoEnv (js ''/p'') demoFiles = Some demoGraph
   \<and> fst (resolveImport demoEnv (js ''./a'') (js ''/p/a.ts'') (js ''/p'') demoFiles)
       = [js ''/p/a.ts'']
   \<and> list_all (\<lambda>e. edge_source e \<noteq> edge_target e) (g_edges demoGraph)
   \<and> map edge_id (g_edges demoGraph) = [js ''e0-1'', js ''e0-3'']"
proof -
  have "list_all (\<lambda>e. edge_source e \<noteq> edge_target e) (g_edges demoGraph)"
    using generate_has_no_self_loop [of demoEnv "js ''/p''" demoFiles] generate_demo
    by (simp add: list_all_iff)
  moreover have "map edge_id (g_edges demoGraph) = [js ''e0-1'', js ''e0-3'']"
    by (simp add: demoGraph_def)
  ultimately show ?thesis using generate_demo demo_self_import by simp
qed

text \<open>In the example workspace \<open>pkg/util\<close> has the root-relative hit \<open>/p/pkg/util.ts\<close>, while the fuzzy suffix \<open>util\<close> would give \<open>/p/util/x.ts\<close>.\<close>

theorem resolveImport_strategy_order_witness:
  "\<not> startsWith (js ''pkg/util'') (js ''.'')
   \<and> fst (rootRelative demoEnv (js ''pkg/util'') (js ''/p'') demoFiles) = [js ''/p/pkg/util.ts'']
   \<and> fst (fuzzySuffix demoEnv (js ''pkg/util'') (js ''/p'') demoFiles) = [js ''/p/util/x.ts'']
   \<and> resolveImport demoEnv (js ''pkg/util'') (js ''/p/a.ts'') (js ''/p'') demoFiles
       = rootRelative demoEnv (js ''pkg/util'') (js ''/p'') demoFiles
   \<and> fst (resolveImport demoEnv (js ''pkg/util'') (js ''/p/a.ts'') (js ''/p'') demoFiles)
       = [js ''/p/pkg/util.ts'']
   \<and> list_all (\<lambda>c. fsopPath c \<in> set (candidatePaths (path_join demoEnv [js ''/p'', js ''pkg/util''])))
        (snd (resolveImport demoEnv (js ''pkg/util'') (js ''/p/a.ts'') (js ''/p'') demoFiles))"
proof -
  have ne: "fst (rootRelative demoEnv (js ''pkg/util'') (js ''/p'') demoFiles) \<noteq> []"
    by (simp add: demo_strategies(2))
  note t = resolveImport_strategy_order [of "js ''pkg/util''" demoEnv "js ''/p/a.ts''" "js ''/p''"
        demoFiles, rule_format, OF demo_strategies(1)]
  have eq: "resolveImport demoEnv (js ''pkg/util'') (js ''/p/a.ts'') (js ''/p'') demoFiles
       = rootRelative demoEnv (js ''pkg/util'') (js ''/p'') demoFiles"
    using t ne by simp
  have la: "list_all (\<lambda>c. fsopPath c \<in> set (candidatePaths (path_join demoEnv [js ''/p'', js ''pkg/util''])))
        (snd (resolveImport demoEnv (js ''pkg/util'') (js ''/p/a.ts'') (js ''/p'') demoFiles))"
    using t ne by blast
  have "fst (resolveImport demoEnv (js ''pkg/util'') (js ''/p/a.ts'') (js ''/p'') demoFiles)
       = [js ''/p/pkg/util.ts'']"
    by (simp only: eq demo_strategies(2))
  then show ?thesis using eq la demo_strategies by blast
qed

text \<open>
  C5. For the text \<open>import (\<close>, newline, tab, \<open>"fmt"\<close>, newline, tab, \<open>"os"\<close>, newline, \<open>)\<close>
  and the language id \<open>go\<close>, \<open>parseImports\<close> returns \<open>fmt\<close> and \<open>os\<close>, each once, and
  nothing else.
\<close>

theorem parseImports_go_block:
  "goBlock = js ''import ('' @ [10, 9, 34] @ js ''fmt'' @ [34, 10, 9, 34] @ js ''os'' @ [34, 10] @ js '')''
   \<and> parseImports goBlock (js ''go'') = Some (Inr [js ''fmt'', js ''os''])"
  by code_simp

end
